(* ===== verification/Prelude.thy ===== *)
theory Prelude
  imports Main "HOL-Library.Char_ord" "HOL-Library.List_Lexorder" "HOL-Library.Code_Target_Nat"
begin

text \<open>
  Shared vocabulary of the development: the Rust scalar types and the standard
  library operations the sources call on them (checked and saturating
  arithmetic, \<open>str::trim\<close>, prefix stripping), results as sums, and SQL tables
  as lists of rows with the statement forms the metadata store issues
  (\<open>UPDATE .. WHERE\<close>, \<open>DELETE .. WHERE\<close>, \<open>SELECT EXISTS\<close>, \<open>INSERT OR IGNORE\<close>).

  Text is a list of characters, each standing for a Unicode scalar value below
  U+0100; identifiers (\<open>Uuid\<close>) are their canonical text.  Instants are
  nanoseconds and \<open>unix_timestamp\<close> their whole seconds.  Unsigned 64-bit sizes
  are natural numbers with the bound written out where the code checks it.
\<close>

named_theorems table_simps \<open>rewrite rules for the table operations\<close>
named_theorems result_simps \<open>inversion rules for results\<close>

section \<open>Types\<close>

type_synonym uuid = string
type_synonym seconds = int
type_synonym instant = int
type_synonym byte = nat

section \<open>Results\<close>

definition bind_res :: "'e + 'a \<Rightarrow> ('a \<Rightarrow> 'e + 'b) \<Rightarrow> 'e + 'b" where
  "bind_res r f = (case r of Inl e \<Rightarrow> Inl e | Inr a \<Rightarrow> f a)"

definition ok_or :: "'e \<Rightarrow> 'a option \<Rightarrow> 'e + 'a" where
  "ok_or e x = (case x of None \<Rightarrow> Inl e | Some a \<Rightarrow> Inr a)"

definition map_err :: "('e \<Rightarrow> 'f) \<Rightarrow> 'e + 'a \<Rightarrow> 'f + 'a" where
  "map_err g r = (case r of Inl e \<Rightarrow> Inl (g e) | Inr a \<Rightarrow> Inr a)"

lemma bind_res_simps [simp]:
  "bind_res (Inl e) f = Inl e"
  "bind_res (Inr a) f = f a"
  by (simp_all add: bind_res_def)

lemma bind_res_Inr_iff [result_simps]:
  "bind_res r f = Inr b \<longleftrightarrow> (\<exists>a. r = Inr a \<and> f a = Inr b)"
  by (cases r) auto

lemma bind_res_Inl_iff [result_simps]:
  "bind_res r f = Inl e \<longleftrightarrow> r = Inl e \<or> (\<exists>a. r = Inr a \<and> f a = Inl e)"
  by (cases r) auto

lemma ok_or_simps [simp]:
  "ok_or e None = Inl e"
  "ok_or e (Some a) = Inr a"
  by (simp_all add: ok_or_def)

lemma ok_or_Inr_iff [result_simps]: "ok_or e x = Inr a \<longleftrightarrow> x = Some a"
  by (cases x) auto

lemma ok_or_Inl_iff [result_simps]: "ok_or e x = Inl e' \<longleftrightarrow> x = None \<and> e' = e"
  by (cases x) auto

lemma map_err_simps [simp]:
  "map_err g (Inl e) = Inl (g e)"
  "map_err g (Inr a) = Inr a"
  by (simp_all add: map_err_def)

lemma map_err_Inr_iff [result_simps]: "map_err g r = Inr a \<longleftrightarrow> r = Inr a"
  by (cases r) auto

section \<open>Machine integers\<close>

definition u64_max :: nat where "u64_max = 18446744073709551615"

definition u32_modulus :: nat where "u32_modulus = 4294967296"

definition checked_add_u64 :: "nat \<Rightarrow> nat \<Rightarrow> nat option" where
  "checked_add_u64 a b = (if a + b \<le> u64_max then Some (a + b) else None)"

definition saturating_add_u64 :: "nat \<Rightarrow> nat \<Rightarrow> nat" where
  "saturating_add_u64 a b = min (a + b) u64_max"

definition saturating_mul_u64 :: "nat \<Rightarrow> nat \<Rightarrow> nat" where
  "saturating_mul_u64 a b = min (a * b) u64_max"

definition saturating_sub_u64 :: "nat \<Rightarrow> nat \<Rightarrow> nat" where
  "saturating_sub_u64 a b = a - b"

lemma checked_add_u64_Some [simp]:
  "checked_add_u64 a b = Some c \<longleftrightarrow> c = a + b \<and> a + b \<le> u64_max"
  by (auto simp: checked_add_u64_def)

lemma checked_add_u64_None [simp]:
  "checked_add_u64 a b = None \<longleftrightarrow> u64_max < a + b"
  by (auto simp: checked_add_u64_def)

definition i64_max :: int where "i64_max = 9223372036854775807"

definition i64_min :: int where "i64_min = - 9223372036854775808"

definition saturating_add_i64 :: "int \<Rightarrow> int \<Rightarrow> int" where
  "saturating_add_i64 a b = max i64_min (min (a + b) i64_max)"

definition u64_as_i64 :: "nat \<Rightarrow> int" where
  "u64_as_i64 n = (if int n \<le> i64_max then int n else int n - 18446744073709551616)"

definition unix_timestamp :: "instant \<Rightarrow> seconds" where
  "unix_timestamp t = t div 1000000000"

section \<open>Text\<close>

definition is_whitespace :: "char \<Rightarrow> bool" where
  "is_whitespace c = (let n = (of_char c :: nat) in
     (9 \<le> n \<and> n \<le> 13) \<or> n = 32 \<or> n = 133 \<or> n = 160)"

definition trim_start :: "string \<Rightarrow> string" where
  "trim_start = dropWhile is_whitespace"

definition trim_end :: "string \<Rightarrow> string" where
  "trim_end s = rev (dropWhile is_whitespace (rev s))"

definition trim :: "string \<Rightarrow> string" where
  "trim s = trim_end (trim_start s)"

definition blank :: "string \<Rightarrow> bool" where
  "blank s \<longleftrightarrow> trim s = []"

lemma blank_iff: "blank s \<longleftrightarrow> (\<forall>c \<in> set s. is_whitespace c)"
proof -
  have "dropWhile is_whitespace (rev (dropWhile is_whitespace s)) = [] \<longleftrightarrow>
        (\<forall>c \<in> set (dropWhile is_whitespace s). is_whitespace c)"
    by simp
  also have "\<dots> \<longleftrightarrow> (\<forall>c \<in> set s. is_whitespace c)"
    by (induction s) auto
  finally show ?thesis
    by (simp add: blank_def trim_def trim_end_def trim_start_def)
qed

lemma trim_trim [simp]: "trim (trim s) = trim s"
proof -
  have idem: "dropWhile P (dropWhile P xs) = dropWhile P xs" for P :: "char \<Rightarrow> bool" and xs
    by (induction xs) auto
  have rdrop: "\<exists>zs. xs = rev (dropWhile P (rev xs)) @ zs" for P :: "char \<Rightarrow> bool" and xs
    by (metis rev_append rev_rev_ident takeWhile_dropWhile_id)
  let ?a = "dropWhile is_whitespace s"
  let ?b = "rev (dropWhile is_whitespace (rev ?a))"
  have "dropWhile is_whitespace ?b = ?b"
  proof (cases ?b)
    case (Cons c cs)
    obtain zs where "?a = ?b @ zs" using rdrop by blast
    with Cons have "hd ?a = c" "?a \<noteq> []" by auto
    hence "\<not> is_whitespace c" using hd_dropWhile[of is_whitespace s] by auto
    with Cons show ?thesis by simp
  next
    case Nil
    thus ?thesis by (metis dropWhile.simps(1))
  qed
  thus ?thesis by (simp add: trim_def trim_end_def trim_start_def idem)
qed

text \<open>\<open>str::split_once\<close> and \<open>str::split\<close> on a character.\<close>

fun split_once :: "char \<Rightarrow> string \<Rightarrow> (string \<times> string) option" where
  "split_once c [] = None"
| "split_once c (x # xs) =
     (if x = c then Some ([], xs) else map_option (\<lambda>(a, b). (x # a, b)) (split_once c xs))"

fun split_on :: "char \<Rightarrow> string \<Rightarrow> string list" where
  "split_on c [] = [[]]"
| "split_on c (x # xs) =
     (if x = c then [] # split_on c xs
      else (case split_on c xs of [] \<Rightarrow> [[x]] | y # ys \<Rightarrow> (x # y) # ys))"

section \<open>Numbers in text\<close>

definition is_ascii_digit :: "char \<Rightarrow> bool" where
  "is_ascii_digit c \<longleftrightarrow> 48 \<le> (of_char c :: nat) \<and> (of_char c :: nat) \<le> 57"

definition digits_value :: "string \<Rightarrow> nat" where
  "digits_value = foldl (\<lambda>acc c. acc * 10 + (of_char c - 48)) 0"

text \<open>\<open>str::parse\<close> of the unsigned and signed integer types: an optional sign, then digits.\<close>

definition parse_unsigned :: "nat \<Rightarrow> string \<Rightarrow> nat option" where
  "parse_unsigned limit s =
     (let ds = (case s of [] \<Rightarrow> [] | c # cs \<Rightarrow> if c = CHR ''+'' then cs else s) in
      if ds = [] \<or> \<not> list_all is_ascii_digit ds then None
      else if digits_value ds \<le> limit then Some (digits_value ds) else None)"

definition parse_u64 :: "string \<Rightarrow> nat option" where
  "parse_u64 = parse_unsigned u64_max"

definition parse_i64 :: "string \<Rightarrow> int option" where
  "parse_i64 s =
     (case s of
        [] \<Rightarrow> None
      | c # cs \<Rightarrow>
          if c = CHR ''-'' then
            (if cs = [] \<or> \<not> list_all is_ascii_digit cs \<or> i64_max + 1 < int (digits_value cs) then None
             else Some (- int (digits_value cs)))
          else map_option int (parse_unsigned (nat i64_max) s))"

text \<open>SQL \<open>LIKE\<close>: \<open>%\<close> matches any text, \<open>_\<close> any character, ASCII letters ignore case.\<close>

definition ascii_lower :: "char \<Rightarrow> char" where
  "ascii_lower c = (let n = (of_char c :: nat) in if 65 \<le> n \<and> n \<le> 90 then char_of (n + 32) else c)"

fun sql_like :: "string \<Rightarrow> string \<Rightarrow> bool" where
  "sql_like [] [] = True"
| "sql_like [] (c # cs) = False"
| "sql_like (p # ps) [] = (p = CHR ''%'' \<and> sql_like ps [])"
| "sql_like (p # ps) (c # cs) =
     (if p = CHR ''%'' then sql_like ps (c # cs) \<or> sql_like (p # ps) cs
      else (p = CHR ''_'' \<or> ascii_lower p = ascii_lower c) \<and> sql_like ps cs)"

section \<open>Tables\<close>

text \<open>
  A table is the list of its rows in rowid order.  The predicates of the
  statements are boolean functions on rows.
\<close>

definition update_where :: "('r \<Rightarrow> bool) \<Rightarrow> ('r \<Rightarrow> 'r) \<Rightarrow> 'r list \<Rightarrow> 'r list" where
  "update_where P f rows = map (\<lambda>r. if P r then f r else r) rows"

definition delete_where :: "('r \<Rightarrow> bool) \<Rightarrow> 'r list \<Rightarrow> 'r list" where
  "delete_where P rows = filter (\<lambda>r. \<not> P r) rows"

definition count_where :: "('r \<Rightarrow> bool) \<Rightarrow> 'r list \<Rightarrow> nat" where
  "count_where P rows = length (filter P rows)"

definition exists_where :: "('r \<Rightarrow> bool) \<Rightarrow> 'r list \<Rightarrow> bool" where
  "exists_where P rows = list_ex P rows"

definition insert_or_ignore :: "('r \<Rightarrow> 'k) \<Rightarrow> 'r \<Rightarrow> 'r list \<Rightarrow> 'r list" where
  "insert_or_ignore key r rows =
     (if exists_where (\<lambda>x. key x = key r) rows then rows else rows @ [r])"

definition upsert :: "('r \<Rightarrow> 'k) \<Rightarrow> 'r \<Rightarrow> ('r \<Rightarrow> 'r) \<Rightarrow> 'r list \<Rightarrow> 'r list" where
  "upsert key r f rows =
     (if exists_where (\<lambda>x. key x = key r) rows
      then update_where (\<lambda>x. key x = key r) f rows else rows @ [r])"

definition sum_where :: "('r \<Rightarrow> bool) \<Rightarrow> ('r \<Rightarrow> nat) \<Rightarrow> 'r list \<Rightarrow> nat" where
  "sum_where P w rows = sum_list (map w (filter P rows))"

lemma exists_where_iff [simp]: "exists_where P rows \<longleftrightarrow> (\<exists>r \<in> set rows. P r)"
  by (simp add: exists_where_def list_ex_iff)

lemma set_update_where [table_simps]:
  "set (update_where P f rows) = f ` {r \<in> set rows. P r} \<union> {r \<in> set rows. \<not> P r}"
  by (auto simp: update_where_def)

lemma mem_update_where [table_simps]:
  "x \<in> set (update_where P f rows) \<longleftrightarrow> (\<exists>r \<in> set rows. x = (if P r then f r else r))"
  by (auto simp: update_where_def)

lemma update_where_cases:
  assumes "y \<in> set (update_where P f xs)"
  obtains (changed) x where "x \<in> set xs" "P x" "y = f x" | (same) "y \<in> set xs" "\<not> P y"
  using assms by (auto simp: mem_update_where split: if_splits)

lemma mem_delete_where [table_simps]:
  "x \<in> set (delete_where P rows) \<longleftrightarrow> x \<in> set rows \<and> \<not> P x"
  by (auto simp: delete_where_def)

lemma update_where_Nil [simp]: "update_where P f [] = []"
  by (simp add: update_where_def)

lemma update_where_Cons [simp]:
  "update_where P f (r # rows) = (if P r then f r else r) # update_where P f rows"
  by (simp add: update_where_def)

lemma bex_update_where:
  "(\<exists>r \<in> set (update_where P f rows). Q r) \<longleftrightarrow> (\<exists>r \<in> set rows. Q (if P r then f r else r))"
  by (induction rows) auto

lemma update_where_append [simp]:
  "update_where P f (xs @ ys) = update_where P f xs @ update_where P f ys"
  by (simp add: update_where_def)

lemma length_update_where [simp]: "length (update_where P f rows) = length rows"
  by (simp add: update_where_def)

lemma update_where_none:
  "(\<And>r. r \<in> set rows \<Longrightarrow> \<not> P r) \<Longrightarrow> update_where P f rows = rows"
  by (induction rows) auto

lemma map_update_where_same:
  "(\<And>r. r \<in> set rows \<Longrightarrow> P r \<Longrightarrow> g (f r) = g r) \<Longrightarrow> map g (update_where P f rows) = map g rows"
  by (induction rows) auto

lemma find_update_where_other:
  assumes "\<And>r. P r \<Longrightarrow> \<not> Q r" and "\<And>r. P r \<Longrightarrow> \<not> Q (f r)"
  shows "find Q (update_where P f rows) = find Q rows"
  using assms by (induction rows) auto

lemma find_update_where_same:
  assumes "\<And>r. Q (f r) = Q r"
  shows "find Q (update_where P f rows) =
         map_option (\<lambda>r. if P r then f r else r) (find Q rows)"
  using assms by (induction rows) auto

lemma distinct_map_update_where:
  "(\<And>r. r \<in> set rows \<Longrightarrow> P r \<Longrightarrow> g (f r) = g r) \<Longrightarrow>
   distinct (map g (update_where P f rows)) = distinct (map g rows)"
  by (simp add: map_update_where_same)

lemma distinct_map_delete_where:
  "distinct (map g rows) \<Longrightarrow> distinct (map g (delete_where P rows))"
  by (simp add: delete_where_def distinct_map_filter)

lemma distinct_insert_or_ignore:
  "distinct (map key rows) \<Longrightarrow> distinct (map key (insert_or_ignore key r rows))"
  by (auto simp: insert_or_ignore_def)

lemma mem_insert_or_ignore:
  "x \<in> set rows \<Longrightarrow> x \<in> set (insert_or_ignore key r rows)"
  by (simp add: insert_or_ignore_def)

lemma key_insert_or_ignore:
  "\<exists>x \<in> set (insert_or_ignore key r rows). key x = key r"
  by (auto simp: insert_or_ignore_def)

lemma distinct_key_eq:
  assumes "distinct (map g rows)" "x \<in> set rows" "y \<in> set rows" "g x = g y"
  shows "x = y"
  using assms by (auto simp: distinct_map dest: inj_onD)

lemma find_distinct_key:
  assumes "distinct (map g rows)" "x \<in> set rows"
  shows "find (\<lambda>r. g r = g x) rows = Some x"
  using assms by (induction rows) auto

lemma find_Some_mem: "find P rows = Some x \<Longrightarrow> x \<in> set rows \<and> P x"
  by (induction rows) (auto split: if_splits)

lemma find_None_iff_all: "find P rows = None \<longleftrightarrow> (\<forall>x \<in> set rows. \<not> P x)"
  by (induction rows) auto

lemma find_append_one:
  "find P (xs @ [y]) =
   (case find P xs of None \<Rightarrow> if P y then Some y else None | Some z \<Rightarrow> Some z)"
  by (induction xs) auto

lemma find_upsert:
  assumes "\<And>x. key (f x) = key x"
  shows "find (\<lambda>x. key x = k) (upsert key r f rows) =
    (if k = key r then (case find (\<lambda>x. key x = k) rows of None \<Rightarrow> Some r | Some z \<Rightarrow> Some (f z))
     else find (\<lambda>x. key x = k) rows)"
proof (cases "exists_where (\<lambda>x. key x = key r) rows")
  case True
  have "find (\<lambda>x. key x = k) (upsert key r f rows) =
      map_option (\<lambda>x. if key x = key r then f x else x) (find (\<lambda>x. key x = k) rows)"
    using True by (simp add: upsert_def find_update_where_same assms)
  also have "\<dots> =
    (if k = key r then (case find (\<lambda>x. key x = k) rows of None \<Rightarrow> Some r | Some z \<Rightarrow> Some (f z))
     else find (\<lambda>x. key x = k) rows)"
  proof (cases "find (\<lambda>x. key x = k) rows")
    case None
    hence "k \<noteq> key r" using True by (auto simp: find_None_iff_all)
    thus ?thesis using None by simp
  next
    case (Some z)
    hence "key z = k" using find_Some_mem by fastforce
    thus ?thesis using Some by (cases "k = key r") simp_all
  qed
  finally show ?thesis .
next
  case False
  hence "find (\<lambda>x. key x = key r) rows = None" by (auto simp: find_None_iff_all)
  thus ?thesis using False
    by (cases "k = key r") (simp_all add: upsert_def find_append_one split: option.split)
qed

lemma sum_where_Nil [simp]: "sum_where P w [] = 0"
  by (simp add: sum_where_def)

lemma sum_where_Cons [simp]:
  "sum_where P w (r # rows) = (if P r then w r else 0) + sum_where P w rows"
  by (simp add: sum_where_def)

lemma sum_where_append [simp]:
  "sum_where P w (xs @ ys) = sum_where P w xs + sum_where P w ys"
  by (induction xs) auto

text \<open>\<open>ORDER BY k\<close> and \<open>ORDER BY k LIMIT 1\<close> over the rows a \<open>WHERE\<close> selects.\<close>

definition select_order :: "('r \<Rightarrow> bool) \<Rightarrow> ('r \<Rightarrow> 'k::linorder) \<Rightarrow> 'r list \<Rightarrow> 'r list" where
  "select_order P k rows = sort_key k (filter P rows)"

definition select_first :: "('r \<Rightarrow> bool) \<Rightarrow> ('r \<Rightarrow> 'k::linorder) \<Rightarrow> 'r list \<Rightarrow> 'r option" where
  "select_first P k rows = (case select_order P k rows of [] \<Rightarrow> None | r # _ \<Rightarrow> Some r)"

lemma set_select_order [simp]: "set (select_order P k rows) = {r \<in> set rows. P r}"
  by (auto simp: select_order_def)

lemma select_first_Some:
  assumes "select_first P k rows = Some r"
  shows "r \<in> set rows" "P r" "\<And>x. x \<in> set rows \<Longrightarrow> P x \<Longrightarrow> k r \<le> k x"
proof -
  obtain rs where rs: "select_order P k rows = r # rs"
    using assms by (auto simp: select_first_def split: list.splits)
  have set_eq: "set (r # rs) = {r \<in> set rows. P r}" using rs set_select_order by metis
  thus "r \<in> set rows" "P r" by auto
  have "sorted (map k (r # rs))" using rs by (metis select_order_def sorted_sort_key)
  thus "k r \<le> k x" if "x \<in> set rows" "P x" for x
    using that set_eq by auto
qed

lemma select_first_None: "select_first P k rows = None \<longleftrightarrow> (\<forall>r \<in> set rows. \<not> P r)"
proof -
  have "select_first P k rows = None \<longleftrightarrow> select_order P k rows = []"
    by (simp add: select_first_def split: list.splits)
  also have "\<dots> \<longleftrightarrow> set (select_order P k rows) = {}" by (simp only: set_empty)
  finally show ?thesis by auto
qed

lemma count_where_key_le:
  assumes "distinct (map g rows)"
  shows "count_where (\<lambda>r. g r = k \<and> P r) rows =
         (if exists_where (\<lambda>r. g r = k \<and> P r) rows then 1 else 0)"
  using assms
proof (induction rows)
  case (Cons r rows)
  have "g r = k \<Longrightarrow> filter (\<lambda>r. g r = k \<and> P r) rows = []"
    using Cons.prems by (auto simp: filter_empty_conv image_iff)
  thus ?case using Cons by (auto simp: count_where_def)
qed (simp add: count_where_def)

lemma count_where_pos: "count_where P rows = Suc n \<Longrightarrow> \<exists>r \<in> set rows. P r"
  by (induction rows) (auto simp: count_where_def split: if_splits)

end
