(* ===== verification/Manifest.thy ===== *)
theory Manifest
  imports Prelude
begin

text \<open>
  The object manifest (\<open>src/src/manifest.rs\<close>): the description of one stored
  object version, its ordered chunk references with their Telegram locations
  and replicas, and \<open>ObjectManifest::validate\<close>, the gate every manifest read
  from or written to the metadata store passes.  The lemmas show that an
  accepted manifest is a partition of the byte range \<open>0 ..< content_length\<close>.
\<close>

definition MANIFEST_SCHEMA_VERSION :: nat where "MANIFEST_SCHEMA_VERSION = 2"

datatype CommitState = Staging | Committed | Tombstoned | Orphaned | RecoveryRequired

fun as_str :: "CommitState \<Rightarrow> string" where
  "as_str Staging = ''staging''"
| "as_str Committed = ''committed''"
| "as_str Tombstoned = ''tombstoned''"
| "as_str Orphaned = ''orphaned''"
| "as_str RecoveryRequired = ''recovery_required''"

lemma as_str_inject [simp]: "as_str a = as_str b \<longleftrightarrow> a = b"
  by (cases a; cases b) simp_all

record ObjectChecksum =
  cs_algorithm :: string
  whole_object :: string

record EncryptionInfo =
  enc_enabled :: bool
  enc_format :: string
  enc_key_id :: "string option"

datatype ReplicaMode = Replica | Access

record ChunkReplica =
  rep_account_id :: string
  rep_mode :: ReplicaMode
  rep_chunk_size :: nat
  rep_peer_id :: string
  rep_message_id :: int
  rep_document_id :: "string option"

record ChunkRef =
  ck_order :: nat
  ck_offset :: nat
  ck_size :: nat
  ck_checksum :: string
  ck_peer_id :: string
  ck_message_id :: int
  ck_document_id :: "string option"
  source_object_id :: "uuid option"
  source_chunk_order :: "nat option"
  replicas :: "ChunkReplica list"

record TelegramLocation =
  loc_peer_id :: string
  loc_message_id :: int
  loc_document_id :: "string option"

record ObjectManifest =
  schema_version :: nat
  commit_state :: CommitState
  m_object_id :: uuid
  m_bucket :: string
  m_key :: string
  version_id :: "string option"
  content_length :: nat
  content_type :: string
  user_metadata :: "(string \<times> string) list"
  tags :: "(string \<times> string) list"
  created_at :: instant
  expires_at :: "instant option"
  m_checksum :: ObjectChecksum
  encryption :: EncryptionInfo
  telegram :: TelegramLocation
  chunks :: "ChunkRef list"

definition payload_identity :: "ChunkRef \<Rightarrow> uuid \<Rightarrow> uuid \<times> nat" where
  "payload_identity c manifest_object_id =
     (case source_object_id c of None \<Rightarrow> manifest_object_id | Some i \<Rightarrow> i,
      case source_chunk_order c of None \<Rightarrow> ck_order c | Some n \<Rightarrow> n)"

definition references_remote_payload :: "ChunkRef \<Rightarrow> bool" where
  "references_remote_payload c \<longleftrightarrow> source_object_id c \<noteq> None \<and> source_chunk_order c \<noteq> None"

record CommittedManifestArgs =
  cma_bucket :: string
  cma_key :: string
  cma_content_length :: nat
  cma_content_type :: string
  cma_checksum_algorithm :: string
  cma_whole_object :: string
  cma_peer_id :: string
  cma_message_id :: int

text \<open>\<open>Uuid::new_v4\<close> and the clock are arguments.\<close>

definition committed :: "uuid \<Rightarrow> uuid \<Rightarrow> instant \<Rightarrow> CommittedManifestArgs \<Rightarrow> ObjectManifest" where
  "committed fresh_id fresh_version now args =
     \<lparr> schema_version = MANIFEST_SCHEMA_VERSION,
       commit_state = Committed,
       m_object_id = fresh_id,
       m_bucket = cma_bucket args,
       m_key = cma_key args,
       version_id = Some fresh_version,
       content_length = cma_content_length args,
       content_type = cma_content_type args,
       user_metadata = [],
       tags = [],
       created_at = now,
       expires_at = None,
       m_checksum = \<lparr> cs_algorithm = cma_checksum_algorithm args,
                      whole_object = cma_whole_object args \<rparr>,
       encryption = \<lparr> enc_enabled = False, enc_format = ''none'', enc_key_id = None \<rparr>,
       telegram = \<lparr> loc_peer_id = cma_peer_id args, loc_message_id = cma_message_id args,
                    loc_document_id = None \<rparr>,
       chunks = (if cma_content_length args = 0 then []
                 else [\<lparr> ck_order = 0, ck_offset = 0, ck_size = cma_content_length args,
                         ck_checksum = cma_whole_object args,
                         ck_peer_id = cma_peer_id args,
                         ck_message_id = cma_message_id args + 1,
                         ck_document_id = None, source_object_id = None,
                         source_chunk_order = None, replicas = [] \<rparr>]) \<rparr>"

definition is_expired :: "ObjectManifest \<Rightarrow> instant \<Rightarrow> bool" where
  "is_expired m now = (case expires_at m of None \<Rightarrow> False | Some e \<Rightarrow> e \<le> now)"

section \<open>Validation\<close>

fun validate_replicas :: "ChunkReplica list \<Rightarrow> string + unit" where
  "validate_replicas [] = Inr ()"
| "validate_replicas (r # rs) =
     (if blank (rep_account_id r) then Inl ''chunk replica account_id is required''
      else if blank (rep_peer_id r) then Inl ''chunk replica telegram_peer_id is required''
      else if rep_message_id r \<le> 0
        then Inl ''chunk replica requires a durable Telegram message''
      else validate_replicas rs)"

text \<open>One iteration per chunk: \<open>index\<close> and \<open>expected_offset\<close> are the loop's variables.\<close>

fun validate_chunks :: "nat \<Rightarrow> nat \<Rightarrow> ChunkRef list \<Rightarrow> string + nat" where
  "validate_chunks index expected_offset [] = Inr expected_offset"
| "validate_chunks index expected_offset (c # cs) =
     (if (source_object_id c \<noteq> None) \<noteq> (source_chunk_order c \<noteq> None)
        then Inl ''chunk source_object_id and source_chunk_order must appear together''
      else if references_remote_payload c \<and> ck_message_id c \<le> 0
        then Inl ''referenced chunk requires a durable Telegram message''
      else bind_res (validate_replicas (replicas c)) (\<lambda>_.
        if ck_order c \<noteq> index mod u32_modulus then Inl ''chunk order must be contiguous''
        else if ck_size c = 0 then Inl ''chunk size must be non-zero''
        else if ck_offset c \<noteq> expected_offset then Inl ''chunk offsets must be contiguous''
        else if blank (ck_checksum c) then Inl ''chunk checksum is required''
        else if blank (ck_peer_id c) then Inl ''chunk telegram_peer_id is required''
        else (case checked_add_u64 expected_offset (ck_size c) of
            None \<Rightarrow> Inl ''chunk sizes overflow content length''
          | Some e \<Rightarrow> validate_chunks (Suc index) e cs)))"

definition validate :: "ObjectManifest \<Rightarrow> string + unit" where
  "validate m =
     (if schema_version m = 0 then Inl ''schema_version must be non-zero''
      else if blank (m_bucket m) then Inl ''bucket is required''
      else if blank (m_key m) then Inl ''key is required''
      else if blank (cs_algorithm (m_checksum m)) then Inl ''checksum.algorithm is required''
      else if blank (whole_object (m_checksum m)) then Inl ''checksum.whole_object is required''
      else if blank (loc_peer_id (telegram m)) then Inl ''telegram.peer_id is required''
      else if enc_enabled (encryption m) \<and> blank (enc_format (encryption m))
        then Inl ''encryption.format is required when encryption is enabled''
      else if enc_enabled (encryption m) \<and>
              (case enc_key_id (encryption m) of None \<Rightarrow> True | Some k \<Rightarrow> k = [])
        then Inl ''encryption.key_id is required when encryption is enabled''
      else if chunks m = [] then
        (if content_length m \<noteq> 0 then Inl ''non-empty content_length requires chunk references''
         else Inr ())
      else bind_res (validate_chunks 0 0 (chunks m)) (\<lambda>expected_offset.
        if expected_offset \<noteq> content_length m then Inl ''chunk sizes must sum to content_length''
        else Inr ()))"

section \<open>What an accepted manifest is\<close>

text \<open>
  The abstract reading of a chunk list: chunks laid end to end from an offset,
  none of them empty.
\<close>

fun contiguous_from :: "nat \<Rightarrow> ChunkRef list \<Rightarrow> bool" where
  "contiguous_from off [] = True"
| "contiguous_from off (c # cs) \<longleftrightarrow>
     ck_offset c = off \<and> 0 < ck_size c \<and> contiguous_from (off + ck_size c) cs"

definition total_size :: "ChunkRef list \<Rightarrow> nat" where
  "total_size cs = sum_list (map ck_size cs)"

lemma total_size_simps [simp]:
  "total_size [] = 0"
  "total_size (c # cs) = ck_size c + total_size cs"
  by (simp_all add: total_size_def)

lemma total_size_append [simp]: "total_size (xs @ ys) = total_size xs + total_size ys"
  by (simp add: total_size_def)

lemma contiguous_from_append:
  "contiguous_from off (xs @ ys) \<longleftrightarrow>
   contiguous_from off xs \<and> contiguous_from (off + total_size xs) ys"
  by (induction xs arbitrary: off) (auto simp: add.assoc)

lemma validate_replicas_iff:
  "validate_replicas rs = Inr () \<longleftrightarrow>
   (\<forall>r \<in> set rs. \<not> blank (rep_account_id r) \<and> \<not> blank (rep_peer_id r) \<and> 0 < rep_message_id r)"
  by (induction rs) auto

text \<open>What the loop requires of one chunk, apart from its position.\<close>

definition chunk_ok :: "ChunkRef \<Rightarrow> bool" where
  "chunk_ok c \<longleftrightarrow>
     ((source_object_id c = None) = (source_chunk_order c = None)) \<and>
     (references_remote_payload c \<longrightarrow> 0 < ck_message_id c) \<and>
     validate_replicas (replicas c) = Inr () \<and>
     \<not> blank (ck_checksum c) \<and> \<not> blank (ck_peer_id c)"

fun orders_from :: "nat \<Rightarrow> ChunkRef list \<Rightarrow> bool" where
  "orders_from i [] = True"
| "orders_from i (c # cs) \<longleftrightarrow> ck_order c = i mod u32_modulus \<and> orders_from (Suc i) cs"

lemma validate_chunks_iff:
  "validate_chunks index off cs = Inr e \<longleftrightarrow>
   contiguous_from off cs \<and> orders_from index cs \<and> (\<forall>c \<in> set cs. chunk_ok c) \<and>
   e = off + total_size cs \<and> (cs \<noteq> [] \<longrightarrow> off + total_size cs \<le> u64_max)"
proof (induction cs arbitrary: index off)
  case Nil
  show ?case by auto
next
  case (Cons c cs)
  have step: "validate_chunks index off (c # cs) = Inr e \<longleftrightarrow>
      chunk_ok c \<and> ck_order c = index mod u32_modulus \<and> 0 < ck_size c \<and> ck_offset c = off \<and>
      off + ck_size c \<le> u64_max \<and> validate_chunks (Suc index) (off + ck_size c) cs = Inr e"
    by (auto simp: chunk_ok_def result_simps checked_add_u64_def split: if_splits)
  show ?case
    unfolding step Cons.IH by (cases cs) (auto simp: add.assoc)
qed

lemma orders_from_nth:
  "orders_from i cs \<Longrightarrow> j < length cs \<Longrightarrow> ck_order (cs ! j) = (i + j) mod u32_modulus"
proof (induction cs arbitrary: i j)
  case (Cons c cs)
  thus ?case by (cases j) auto
qed simp

lemma contiguous_from_nth:
  "contiguous_from off cs \<Longrightarrow> j < length cs \<Longrightarrow>
   ck_offset (cs ! j) = off + total_size (take j cs)"
proof (induction cs arbitrary: off j)
  case (Cons c cs)
  thus ?case by (cases j) auto
qed simp

lemma validate_contiguous:
  assumes "validate m = Inr ()"
  shows "contiguous_from 0 (chunks m)" "total_size (chunks m) = content_length m"
    "content_length m \<le> u64_max \<or> chunks m = []"
  using assms
  by (auto simp: validate_def result_simps validate_chunks_iff split: if_splits)

text \<open>The positions one chunk holds.\<close>

definition chunk_covers :: "ChunkRef \<Rightarrow> nat \<Rightarrow> bool" where
  "chunk_covers c p \<longleftrightarrow> ck_offset c \<le> p \<and> p < ck_offset c + ck_size c"

lemma contiguous_covers_exists:
  "contiguous_from off cs \<Longrightarrow> off \<le> p \<Longrightarrow> p < off + total_size cs \<Longrightarrow>
   \<exists>j < length cs. chunk_covers (cs ! j) p"
proof (induction cs arbitrary: off)
  case (Cons c cs)
  show ?case
  proof (cases "p < off + ck_size c")
    case True
    thus ?thesis using Cons.prems by (intro exI[of _ 0]) (simp add: chunk_covers_def)
  next
    case False
    then obtain j where "j < length cs" "chunk_covers (cs ! j) p"
      using Cons.IH[of "off + ck_size c"] Cons.prems by auto
    thus ?thesis by (intro exI[of _ "Suc j"]) simp
  qed
qed simp

lemma contiguous_bounds:
  assumes "contiguous_from off cs" "j < length cs"
  shows "off \<le> ck_offset (cs ! j)"
    "ck_offset (cs ! j) + ck_size (cs ! j) \<le> off + total_size cs"
  using assms
proof (induction cs arbitrary: off j)
  case (Cons c cs)
  { case 1 thus ?case using Cons.IH(1)[of "off + ck_size c"] by (cases j) fastforce+ }
  { case 2 thus ?case using Cons.IH(2)[of "off + ck_size c"] by (cases j) fastforce+ }
qed simp_all

lemma contiguous_ordered:
  "contiguous_from off cs \<Longrightarrow> i < j \<Longrightarrow> j < length cs \<Longrightarrow>
   ck_offset (cs ! i) + ck_size (cs ! i) \<le> ck_offset (cs ! j)"
proof (induction cs arbitrary: off i j)
  case (Cons c cs)
  obtain j' where j: "j = Suc j'" using Cons.prems by (cases j) auto
  show ?case
  proof (cases i)
    case 0
    have "off + ck_size c \<le> ck_offset (cs ! j')"
      using contiguous_bounds(1)[of "off + ck_size c" cs j'] Cons.prems j by simp
    thus ?thesis using 0 j Cons.prems by simp
  next
    case (Suc i')
    thus ?thesis using Cons.IH[of "off + ck_size c" i' j'] Cons.prems j by simp
  qed
qed simp

lemma contiguous_covers_unique:
  assumes "contiguous_from off cs" "i < length cs" "j < length cs"
    "chunk_covers (cs ! i) p" "chunk_covers (cs ! j) p"
  shows "i = j"
proof (rule ccontr)
  assume "i \<noteq> j"
  hence "i < j \<or> j < i" by arith
  thus False
    using contiguous_ordered[OF assms(1), of i j] contiguous_ordered[OF assms(1), of j i] assms
    by (auto simp: chunk_covers_def)
qed

section \<open>Properties\<close>

text \<open>
  C13: an accepted manifest partitions its content. Every byte position below
  \<open>content_length\<close> lies in exactly one chunk, no chunk is empty or reaches past
  the end, chunk \<open>j\<close> starts at the sum of the sizes before it and carries the
  order \<open>j\<close> (as a 32-bit index), and every chunk that reuses a remote payload
  names both halves of its provenance and a durable message.
\<close>

theorem validate_partitions:
  assumes "validate m = Inr ()"
  shows "(\<forall>p < content_length m. \<exists>!j. j < length (chunks m) \<and> chunk_covers (chunks m ! j) p) \<and>
    (\<forall>j < length (chunks m).
       0 < ck_size (chunks m ! j) \<and>
       ck_offset (chunks m ! j) + ck_size (chunks m ! j) \<le> content_length m \<and>
       ck_offset (chunks m ! j) = total_size (take j (chunks m)) \<and>
       ck_order (chunks m ! j) = j mod u32_modulus \<and>
       chunk_ok (chunks m ! j))"
proof -
  note cont = validate_contiguous(1)[OF assms] and tot = validate_contiguous(2)[OF assms]
  have oks: "orders_from 0 (chunks m) \<and> (\<forall>c \<in> set (chunks m). chunk_ok c)"
    using assms
    by (auto simp: validate_def result_simps validate_chunks_iff split: if_splits)
  have pos: "contiguous_from off cs \<Longrightarrow> c \<in> set cs \<Longrightarrow> 0 < ck_size c" for off cs c
    by (induction cs arbitrary: off) auto
  have "\<exists>!j. j < length (chunks m) \<and> chunk_covers (chunks m ! j) p"
    if "p < content_length m" for p
    using contiguous_covers_exists[OF cont, of p] contiguous_covers_unique[OF cont] that tot
    by (auto simp: Ex1_def)
  moreover have "0 < ck_size (chunks m ! j) \<and>
       ck_offset (chunks m ! j) + ck_size (chunks m ! j) \<le> content_length m \<and>
       ck_offset (chunks m ! j) = total_size (take j (chunks m)) \<and>
       ck_order (chunks m ! j) = j mod u32_modulus \<and> chunk_ok (chunks m ! j)"
    if "j < length (chunks m)" for j
    using contiguous_bounds(2)[OF cont that] contiguous_from_nth[OF cont that]
      orders_from_nth[of 0 "chunks m" j] oks pos[OF cont nth_mem[OF that]] that tot
    by auto
  ultimately show ?thesis by blast
qed

text \<open>A two-chunk manifest used by the witnesses of the development.\<close>

definition example_chunk :: "nat \<Rightarrow> nat \<Rightarrow> nat \<Rightarrow> int \<Rightarrow> ChunkRef" where
  "example_chunk i off n msg =
     \<lparr> ck_order = i, ck_offset = off, ck_size = n, ck_checksum = ''c'',
       ck_peer_id = ''p'', ck_message_id = msg, ck_document_id = None,
       source_object_id = None, source_chunk_order = None, replicas = [] \<rparr>"

definition example_manifest :: "uuid \<Rightarrow> string \<Rightarrow> ChunkRef list \<Rightarrow> ObjectManifest" where
  "example_manifest oid key cs =
     \<lparr> schema_version = 2, commit_state = Staging, m_object_id = oid, m_bucket = ''b'',
       m_key = key, version_id = None, content_length = total_size cs, content_type = ''t'',
       user_metadata = [], tags = [], created_at = 0, expires_at = None,
       m_checksum = \<lparr> cs_algorithm = ''sha256'', whole_object = ''w'' \<rparr>,
       encryption = \<lparr> enc_enabled = False, enc_format = ''none'', enc_key_id = None \<rparr>,
       telegram = \<lparr> loc_peer_id = ''p'', loc_message_id = 7, loc_document_id = None \<rparr>,
       chunks = cs \<rparr>"

lemmas example_simps = example_manifest_def example_chunk_def validate_def blank_iff
  is_whitespace_def references_remote_payload_def u64_max_def u32_modulus_def checked_add_u64_def

theorem validate_partitions_witness:
  "validate (example_manifest ''o'' ''k'' [example_chunk 0 0 3 8, example_chunk 1 3 2 9]) = Inr () \<and>
   (\<exists>!j. j < 2 \<and> chunk_covers ([example_chunk 0 0 3 8, example_chunk 1 3 2 9] ! j) 4)"
proof -
  let ?cs = "[example_chunk 0 0 3 8, example_chunk 1 3 2 9]"
  let ?m = "example_manifest ''o'' ''k'' ?cs"
  have ok: "validate ?m = Inr ()" by (simp add: example_simps)
  have eqs: "content_length ?m = 5" "chunks ?m = ?cs" "length ?cs = 2"
    by (simp_all add: example_manifest_def example_chunk_def)
  have lt: "4 < content_length ?m" unfolding eqs by simp
  have "\<exists>!j. j < length (chunks ?m) \<and> chunk_covers (chunks ?m ! j) 4"
    by (rule conjunct1[OF validate_partitions[OF ok], rule_format, OF lt])
  with ok show ?thesis unfolding eqs(2,3) by (rule conjI)
qed

end
