(* ===== verification/Errors.thy ===== *)
theory Errors
  imports Prelude
begin

text \<open>
  The error enumerations of the crate, one constructor per source variant
  (\<open>metadata.rs\<close>, \<open>config.rs\<close>, \<open>telegram/proxy.rs\<close>, \<open>telegram/transport.rs\<close>,
  \<open>object_format.rs\<close>).  Payloads that come from third-party errors
  (\<open>rusqlite\<close>, \<open>serde_json\<close>, \<open>std::io\<close>) are their display text.  The display
  text matters where the code searches it: the flood-wait parser reads the
  text of a transport error.
\<close>

datatype MetadataError =
    Sqlite string
  | M_Serde string
  | M_Io string
  | UnsupportedSchemaVersion nat
  | ManifestNotFound string
  | JournalNotFound string
  | MultipartSessionNotFound string
  | InvalidManifest string
  | PreconditionFailed string
  | InvalidOperationKind string
  | BucketNotFound string
  | BucketAlreadyExists string
  | BucketNotEmpty string
  | FolderNotEmpty string
  | ConnectionRemovalInProgress
  | QuotaExceeded string
  | Poisoned
  | TimeFormat string

datatype ConfigError =
    Missing string
  | Invalid string
  | Parse string string
  | PathUnsafe string string string
  | UnsafePermissions string string string

datatype ProxyError =
    Inconsistent string
  | InvalidUrl string
  | MissingHost
  | InvalidPort
  | UnsupportedScheme string
  | BridgeFailed string

datatype LoginFailure =
    LF_MissingCode | LF_InvalidCode | LF_ExpiredCode | LF_WrongPassword
  | LF_SignUpRequired | SessionInvalid | ProxyInvalid

datatype TelegramTransportError =
    T_Config ConfigError
  | T_Proxy ProxyError
  | T_Session string
  | Rpc string
  | T_Login LoginFailure
  | T_Io string
  | T_Metadata MetadataError
  | InvalidState string
  | InitializationPanic

datatype ObjectFormatError =
    OF_Config ConfigError
  | Metadata MetadataError
  | Telegram TelegramTransportError
  | OF_Serde string
  | OF_Io string
  | InvalidPlan string
  | InvalidBucketName string
  | InvalidRead string
  | ChecksumMismatch string string string
  | MissingChunk uuid nat
  | OF_RecoveryRequired string
  | InvalidChecksum string
  | ReceptionNotFound
  | ReceptionOffsetMismatch nat
  | ReceptionChunkTooLarge
  | ReceptionChunkSizeMismatch
  | ReceptionNotComplete

section \<open>Display\<close>

definition digit_char :: "nat \<Rightarrow> char" where
  "digit_char d = char_of (48 + d)"

fun show_nat :: "nat \<Rightarrow> string" where
  "show_nat n = (if n < 10 then [digit_char n] else show_nat (n div 10) @ [digit_char (n mod 10)])"

declare show_nat.simps [simp del]

definition show_int :: "int \<Rightarrow> string" where
  "show_int i = (if i < 0 then CHR ''-'' # show_nat (nat (- i)) else show_nat (nat i))"

text \<open>
  \<open>Display\<close> of the transport errors the read path may retry; the other
  variants' texts are not inspected by the modelled code.
\<close>

fun proxy_error_text :: "ProxyError \<Rightarrow> string" where
  "proxy_error_text (Inconsistent s) = ''proxy configuration is inconsistent: '' @ s"
| "proxy_error_text (InvalidUrl s) = ''proxy url is invalid: '' @ s"
| "proxy_error_text MissingHost = ''proxy host is missing''"
| "proxy_error_text InvalidPort = ''proxy port is invalid''"
| "proxy_error_text (UnsupportedScheme s) = ''unsupported proxy scheme: '' @ s"
| "proxy_error_text (BridgeFailed s) = ''bridge failed: '' @ s"

definition is_retryable_telegram_read_error :: "ObjectFormatError \<Rightarrow> bool" where
  "is_retryable_telegram_read_error e =
     (case e of Telegram (Rpc _) \<Rightarrow> True
              | Telegram (T_Io _) \<Rightarrow> True
              | Telegram (T_Proxy (BridgeFailed _)) \<Rightarrow> True
              | _ \<Rightarrow> False)"

fun retryable_error_text :: "ObjectFormatError \<Rightarrow> string" where
  "retryable_error_text (Telegram (Rpc s)) = ''Telegram RPC error: '' @ s"
| "retryable_error_text (Telegram (T_Io s)) = ''io error: '' @ s"
| "retryable_error_text (Telegram (T_Proxy p)) = proxy_error_text p"
| "retryable_error_text _ = []"

end
