(* ===== verification/Store.thy ===== *)
theory Store
  imports Manifest Errors
begin

text \<open>
  The metadata database (\<open>src/src/metadata/schema.rs\<close>): one record per table
  row and one record of all tables.  \<open>TEXT\<close> columns that hold JSON hold the
  value the JSON encodes; where a row stores a state both in a column and
  inside a JSON column the two are separate fields, because the code updates
  them separately.  RFC 3339 timestamp columns hold their text, which is what
  \<open>ORDER BY\<close> compares; integer timestamps are seconds.  Columns no modelled
  statement reads are left out.
\<close>

section \<open>Rows\<close>

datatype TransferState =
    TReceiving | TQueued | TUploading | TCommitting | TRetryWait | TRecoveryRequired
  | TCompleted | TCancelled | TCleaned | TReceptionFailed | TSuperseded

record TransferWriteConditionals =
  twc_if_match :: "string option"
  twc_if_none_match :: "string option"

record transfer_row =
  tj_sequence :: nat
  tj_id :: string
  tj_object_id :: string
  tj_connection_id :: string
  tj_operation_id :: "string option"
  tj_bucket :: string
  tj_key :: string
  tj_state :: TransferState
  tj_bytes :: nat
  tj_chunks_done :: nat
  tj_chunks_total :: nat
  tj_attempts :: nat
  tj_next_retry :: seconds
  tj_lease :: "string option"
  tj_lease_until :: seconds
  tj_conditionals :: "TransferWriteConditionals option"
  tj_error :: "string option"
  tj_created_at :: seconds
  tj_updated_at :: seconds

record chunk_row =
  tc_job :: string
  tc_order :: nat
  tc_location :: TelegramLocation

datatype AttemptState = Sending | Unknown | Checkpointed | Retryable

record attempt_row =
  sa_job :: string
  sa_order :: nat
  sa_id :: string
  sa_token :: string
  sa_state :: AttemptState
  sa_started_at :: seconds
  sa_finished_at :: "seconds option"
  sa_location :: "TelegramLocation option"
  sa_error_kind :: "string option"
  sa_error :: "string option"
  sa_retryable :: bool

datatype CleanupKind = Evidence | Message

datatype CleanupState = CPending | CRunning | CRetryWait | CCompleted | CRecoveryRequired

record cleanup_row =
  ct_id :: nat
  ct_object_id :: string
  ct_peer_id :: string
  ct_message_id :: int
  ct_connection_id :: string
  ct_kind :: CleanupKind
  ct_due_at :: seconds
  ct_state :: CleanupState
  ct_attempts :: nat
  ct_next_retry :: seconds
  ct_lease :: "string option"
  ct_lease_until :: seconds
  ct_error :: "string option"
  ct_evidence_location :: "TelegramLocation option"
  ct_attempt_token :: "string option"
  ct_attempt_started_at :: "seconds option"
  ct_completed :: bool

datatype OperationKind = Put | Delete | Rebuild | Repair | GarbageCollect

text \<open>\<open>jd_*\<close> is the \<open>JournalDetails\<close> value serialized into \<open>operation_journal.manifest_json\<close>.\<close>

record JournalDetails =
  jd_operation_id :: string
  jd_object_id :: string
  jd_bucket :: string
  jd_key :: string
  jd_kind :: OperationKind
  jd_state :: string
  jd_reason :: "string option"

record journal_row =
  oj_operation_id :: string
  oj_object_id :: string
  oj_bucket :: string
  oj_key :: string
  oj_kind :: OperationKind
  oj_state :: string
  oj_details :: JournalDetails
  oj_error :: "string option"
  oj_created_at :: string
  oj_updated_at :: string

record manifest_row =
  om_object_id :: string
  om_connection_id :: string
  om_bucket :: string
  om_key :: string
  om_version_id :: "string option"
  om_commit_state :: CommitState
  om_manifest :: ObjectManifest
  om_created_at :: string
  om_committed_at :: "string option"
  om_tombstoned_at :: "string option"

record active_row =
  ao_bucket :: string
  ao_key :: string
  ao_object_id :: string
  ao_updated_at :: string

record marker_row =
  rm_marker_key :: string
  rm_object_id :: string
  rm_bucket :: string
  rm_key :: string
  rm_state :: string
  rm_details :: JournalDetails
  rm_created_at :: string
  rm_updated_at :: string

record bucket_row =
  bk_name :: string
  bk_connection_id :: string
  bk_created_at :: string
  bk_deleted_at :: "string option"
  bk_versioning_enabled :: bool
  bk_object_locking_enabled :: bool

datatype MultipartState =
    Initiated | Uploading | Completing | Completed | Aborted | MRecoveryRequired | Quarantined

record MultipartSession =
  ms_upload_id :: uuid
  ms_bucket :: string
  ms_key :: string
  ms_version_id :: "string option"
  ms_content_type :: string
  ms_checksum_algorithm :: string
  ms_expires_at :: "instant option"
  ms_state :: MultipartState
  ms_created_at :: instant
  ms_updated_at :: instant

record MultipartPart =
  mp_upload_id :: uuid
  mp_part_number :: nat
  mp_size :: nat
  mp_checksum :: string
  mp_e_tag :: string
  mp_telegram :: TelegramLocation
  mp_manifest :: "ObjectManifest option"
  mp_created_at :: instant

record upload_row =
  mu_upload_id :: string
  mu_connection_id :: string
  mu_bucket :: string
  mu_key :: string
  mu_state :: MultipartState
  mu_session :: MultipartSession
  mu_updated_at :: string

record part_row =
  pr_upload_id :: string
  pr_part_number :: nat
  pr_part :: MultipartPart

record multipart_job_row =
  mj_job_id :: string
  mj_upload_id :: string
  mj_part_number :: nat
  mj_expected_checksum :: "string option"

record account_row =
  ta_id :: string
  ta_label :: string
  ta_download_enabled :: bool
  ta_quota_bytes :: "nat option"

record replica_row =
  rl_object_id :: string
  rl_chunk_order :: nat
  rl_account_id :: string
  rl_mode :: ReplicaMode
  rl_peer_id :: string
  rl_message_id :: int
  rl_ready :: bool

datatype RemovalState = RPending | RRunning | RRemoteCleanupPending | RCompleted

record removal_row =
  cr_id :: string
  cr_connection_id :: string
  cr_delete_uploaded_files :: bool
  cr_state :: RemovalState
  cr_object_count :: nat
  cr_requested_at :: seconds
  cr_updated_at :: seconds
  cr_completed_at :: "seconds option"
  cr_error :: "string option"

section \<open>The database\<close>

record store =
  app_settings :: "string \<Rightarrow> string option"
  buckets :: "bucket_row list"
  operation_journal :: "journal_row list"
  object_manifests :: "manifest_row list"
  active_objects :: "active_row list"
  recovery_markers :: "marker_row list"
  multipart_uploads :: "upload_row list"
  multipart_parts :: "part_row list"
  multipart_jobs :: "multipart_job_row list"
  transfer_jobs :: "transfer_row list"
  transfer_sequence :: nat
  transfer_chunks :: "chunk_row list"
  send_attempts :: "attempt_row list"
  cleanup_targets :: "cleanup_row list"
  cleanup_sequence :: nat
  telegram_accounts :: "account_row list"
  replica_locations :: "replica_row list"
  removal_jobs :: "removal_row list"
  removal_objects :: "(string \<times> string) list"

definition empty_store :: store where
  "empty_store =
     \<lparr> app_settings = (\<lambda>_. None), buckets = [], operation_journal = [], object_manifests = [],
       active_objects = [], recovery_markers = [], multipart_uploads = [], multipart_parts = [],
       multipart_jobs = [], transfer_jobs = [], transfer_sequence = 0, transfer_chunks = [],
       send_attempts = [], cleanup_targets = [], cleanup_sequence = 0, telegram_accounts = [],
       replica_locations = [], removal_jobs = [], removal_objects = [] \<rparr>"

text \<open>A transaction that returns an error is rolled back: it has no resulting store.\<close>

type_synonym 'a tx = "MetadataError + 'a \<times> store"

section \<open>Statements several components share\<close>

definition active_connection_id :: "store \<Rightarrow> string" where
  "active_connection_id st =
     (case app_settings st ''telegram_active_connection_id'' of None \<Rightarrow> ''legacy'' | Some v \<Rightarrow> v)"

definition load_manifest_by_object_id ::
  "store \<Rightarrow> string \<Rightarrow> MetadataError + ObjectManifest option" where
  "load_manifest_by_object_id st oid =
     (case find (\<lambda>r. om_object_id r = oid) (object_manifests st) of
        None \<Rightarrow> Inr None
      | Some r \<Rightarrow> (case validate (om_manifest r) of
            Inl e \<Rightarrow> Inl (InvalidManifest e)
          | Inr _ \<Rightarrow> Inr (Some (om_manifest r))))"

definition load_journal_entry :: "store \<Rightarrow> string \<Rightarrow> JournalDetails option" where
  "load_journal_entry st op =
     map_option oj_details (find (\<lambda>r. oj_operation_id r = op) (operation_journal st))"

text \<open>
  \<open>DELETE FROM object_manifests\<close> with the foreign key of \<open>active_objects\<close>
  (\<open>ON DELETE CASCADE\<close>).
\<close>

definition delete_manifests :: "(manifest_row \<Rightarrow> bool) \<Rightarrow> store \<Rightarrow> store" where
  "delete_manifests P st =
     (let gone = map om_object_id (filter P (object_manifests st)) in
      st\<lparr> object_manifests := delete_where P (object_manifests st),
          active_objects := delete_where (\<lambda>a. ao_object_id a \<in> set gone) (active_objects st) \<rparr>)"

definition put_active :: "string \<Rightarrow> string \<Rightarrow> string \<Rightarrow> string \<Rightarrow> active_row list \<Rightarrow> active_row list" where
  "put_active b k oid ts rows =
     upsert (\<lambda>a. (ao_bucket a, ao_key a))
       \<lparr> ao_bucket = b, ao_key = k, ao_object_id = oid, ao_updated_at = ts \<rparr>
       (\<lambda>a. a\<lparr> ao_object_id := oid, ao_updated_at := ts \<rparr>) rows"

definition active_object_id :: "store \<Rightarrow> string \<Rightarrow> string \<Rightarrow> string option" where
  "active_object_id st b k =
     map_option ao_object_id (find (\<lambda>a. ao_bucket a = b \<and> ao_key a = k) (active_objects st))"

lemma active_key_put_active:
  "map_option ao_object_id (find (\<lambda>a. ao_bucket a = b' \<and> ao_key a = k') (put_active b k oid ts rows)) =
   (if b' = b \<and> k' = k then Some oid
    else map_option ao_object_id (find (\<lambda>a. ao_bucket a = b' \<and> ao_key a = k') rows))"
proof -
  let ?f = "\<lambda>a. a\<lparr> ao_object_id := oid, ao_updated_at := ts \<rparr>"
  have "find (\<lambda>a. (ao_bucket a, ao_key a) = (b', k')) (put_active b k oid ts rows) =
    (if (b', k') = (b, k)
     then (case find (\<lambda>a. (ao_bucket a, ao_key a) = (b', k')) rows of
             None \<Rightarrow> Some \<lparr> ao_bucket = b, ao_key = k, ao_object_id = oid, ao_updated_at = ts \<rparr>
           | Some z \<Rightarrow> Some (?f z))
     else find (\<lambda>a. (ao_bucket a, ao_key a) = (b', k')) rows)"
    unfolding put_active_def by (subst find_upsert) simp_all
  thus ?thesis
    by (cases "b' = b \<and> k' = k"; cases "find (\<lambda>a. ao_bucket a = b' \<and> ao_key a = k') rows") auto
qed

lemma active_object_id_put_active:
  "active_object_id (st\<lparr> active_objects := put_active b k oid ts (active_objects st) \<rparr>) b' k' =
   (if b' = b \<and> k' = k then Some oid else active_object_id st b' k')"
  by (simp add: active_object_id_def active_key_put_active)

end
