(* ===== verification/Leases.thy ===== *)
theory Leases
  imports Prelude
begin

text \<open>
  Two interfaces the components share.  \<open>invariant_system\<close> is the contract of
  a state machine whose operations keep an invariant; its clients use the
  invariant in every reachable state.  \<open>lease_table\<close> is the contract of a work
  queue whose rows are claimed under a lease of 120 seconds: a claim is granted
  only over an expired or unleased row and touches no other holder.
  \<open>fenced_table\<close> adds the operations a worker performs under its lease.
\<close>

section \<open>Reachability\<close>

inductive reachable :: "('s \<Rightarrow> bool) \<Rightarrow> ('s \<Rightarrow> 's \<Rightarrow> bool) \<Rightarrow> 's \<Rightarrow> bool"
  for init :: "'s \<Rightarrow> bool" and step :: "'s \<Rightarrow> 's \<Rightarrow> bool" where
  start: "init s \<Longrightarrow> reachable init step s"
| move: "reachable init step s \<Longrightarrow> step s s' \<Longrightarrow> reachable init step s'"

locale invariant_system =
  fixes init :: "'s \<Rightarrow> bool"
    and step :: "'s \<Rightarrow> 's \<Rightarrow> bool"
    and inv :: "'s \<Rightarrow> bool"
  assumes init_inv: "init s \<Longrightarrow> inv s"
    and step_inv: "inv s \<Longrightarrow> step s s' \<Longrightarrow> inv s'"
begin

lemma reachable_inv: "reachable init step s \<Longrightarrow> inv s"
  by (induction rule: reachable.induct) (auto intro: init_inv step_inv)

lemma run_inv: "step\<^sup>*\<^sup>* s s' \<Longrightarrow> inv s \<Longrightarrow> inv s'"
  by (induction rule: rtranclp_induct) (auto intro: step_inv)

end

section \<open>Leased work queues\<close>

locale lease_table =
  fixes rows :: "'s \<Rightarrow> 'r list"
    and key :: "'r \<Rightarrow> 'k"
    and running :: "'r \<Rightarrow> bool"
    and holder :: "'r \<Rightarrow> string option"
    and until :: "'r \<Rightarrow> seconds"
    and claim :: "seconds \<Rightarrow> string \<Rightarrow> 's \<Rightarrow> 'k option \<times> 's"
    and inv :: "'s \<Rightarrow> bool"
  assumes inv_distinct: "inv s \<Longrightarrow> distinct (map key (rows s))"
    and claim_inv: "inv s \<Longrightarrow> inv (snd (claim now l s))"
    and claim_grants: "inv s \<Longrightarrow> claim now l s = (Some k, s') \<Longrightarrow>
      \<exists>r \<in> set (rows s'). key r = k \<and> running r \<and> holder r = Some l \<and> until r = now + 120"
    and claim_respects: "inv s \<Longrightarrow> claim now l s = (Some k, s') \<Longrightarrow> r \<in> set (rows s) \<Longrightarrow>
      key r = k \<Longrightarrow> running r \<Longrightarrow> until r < now"
    and claim_frame: "inv s \<Longrightarrow> claim now l s = (c, s') \<Longrightarrow> r' \<in> set (rows s') \<Longrightarrow>
      running r' \<Longrightarrow> Some (key r') \<noteq> c \<Longrightarrow>
      \<exists>r \<in> set (rows s). key r = key r' \<and> running r \<and> holder r = holder r' \<and> until r = until r'"
begin

definition holds :: "'s \<Rightarrow> 'k \<Rightarrow> string \<Rightarrow> bool" where
  "holds s k l \<longleftrightarrow> (\<exists>r \<in> set (rows s). key r = k \<and> running r \<and> holder r = Some l)"

definition live :: "seconds \<Rightarrow> 's \<Rightarrow> 'k \<Rightarrow> string \<Rightarrow> bool" where
  "live now s k l \<longleftrightarrow>
     (\<exists>r \<in> set (rows s). key r = k \<and> running r \<and> holder r = Some l \<and> now \<le> until r)"

lemma holds_unique: "inv s \<Longrightarrow> holds s k l \<Longrightarrow> holds s k l' \<Longrightarrow> l = l'"
  unfolding holds_def using distinct_key_eq[OF inv_distinct] by fastforce

lemma live_holds: "live now s k l \<Longrightarrow> holds s k l"
  by (auto simp: live_def holds_def)

lemma claim_holds: "inv s \<Longrightarrow> claim now l s = (Some k, s') \<Longrightarrow> holds s' k l"
  using claim_grants unfolding holds_def by blast

lemma claim_excludes:
  assumes "inv s" "claim now l s = (Some k, s')"
  shows "\<not> live now s k l'" "holds s' k l'' \<Longrightarrow> l'' = l"
proof -
  show "\<not> live now s k l'"
    using claim_respects[OF assms] by (fastforce simp: live_def)
  have "inv s'" using claim_inv[OF assms(1), of now l] assms(2) by simp
  thus "holds s' k l'' \<Longrightarrow> l'' = l"
    using holds_unique claim_holds[OF assms] by blast
qed

lemma claim_keeps_others:
  assumes "inv s" "claim now l s = (c, s')" "holds s' k' l'" "Some k' \<noteq> c"
  shows "holds s k' l'"
  using claim_frame[OF assms(1,2)] assms(3,4) unfolding holds_def by fastforce

end

locale fenced_table = lease_table rows key running holder until claim inv
  for rows :: "'s \<Rightarrow> 'r list"
    and key :: "'r \<Rightarrow> 'k"
    and running :: "'r \<Rightarrow> bool"
    and holder :: "'r \<Rightarrow> string option"
    and until :: "'r \<Rightarrow> seconds"
    and claim :: "seconds \<Rightarrow> string \<Rightarrow> 's \<Rightarrow> 'k option \<times> 's"
    and inv :: "'s \<Rightarrow> bool" +
  fixes report :: "'op \<Rightarrow> 'k \<Rightarrow> string \<Rightarrow> 's \<Rightarrow> 's"
  assumes report_fenced: "\<not> (\<exists>r \<in> set (rows s). key r = k \<and> running r \<and> holder r = Some l) \<Longrightarrow>
    report m k l s = s"
begin

lemma stale_report_ignored:
  assumes "inv s" "claim now l s = (Some k, s')" "l' \<noteq> l"
  shows "report m k l' s' = s'"
  using claim_excludes(2)[OF assms(1,2), of l'] assms(3)
  by (intro report_fenced) (auto simp: holds_def)

end

end
