(* ===== verification/Cleanup.thy ===== *)
theory Cleanup
  imports Store Leases
begin

text \<open>
  The cleanup outbox of \<open>src/src/durable.rs\<close>: every Telegram message that a
  delete, an abort or a replacement makes garbage becomes a row of
  \<open>cleanup_targets\<close>, and a row of kind \<open>evidence\<close> per object stands for the
  deletion record that has to be published first.  Workers claim rows under a
  lease of 120 seconds.  \<open>now\<close> is the clock reading of the call and \<open>lease\<close>,
  \<open>nonce\<close> are the fresh UUIDs it draws.
\<close>

section \<open>Enqueueing\<close>

definition DEFAULT_CLEANUP_RETENTION_SECS :: seconds where
  "DEFAULT_CLEANUP_RETENTION_SECS = 43200"

definition cleanup_retention_secs :: "store \<Rightarrow> MetadataError + seconds" where
  "cleanup_retention_secs st =
     (case app_settings st ''telegram_cleanup_retention_secs'' of
        None \<Rightarrow> Inr DEFAULT_CLEANUP_RETENTION_SECS
      | Some v \<Rightarrow> ok_or (InvalidManifest ''invalid stored cleanup retention'') (parse_i64 v))"

text \<open>\<open>INSERT OR IGNORE INTO cleanup_targets\<close>: \<open>UNIQUE(peer_id, message_id)\<close>, defaults of the schema.\<close>

definition enqueue_target ::
  "string \<Rightarrow> string \<Rightarrow> string \<Rightarrow> int \<Rightarrow> CleanupKind \<Rightarrow> seconds \<Rightarrow> store \<Rightarrow> store" where
  "enqueue_target oid conn peer msg kind due st =
     (if exists_where (\<lambda>r. ct_peer_id r = peer \<and> ct_message_id r = msg) (cleanup_targets st) then st
      else st\<lparr> cleanup_targets := cleanup_targets st @
                 [\<lparr> ct_id = Suc (cleanup_sequence st), ct_object_id = oid, ct_peer_id = peer,
                    ct_message_id = msg, ct_connection_id = conn, ct_kind = kind, ct_due_at = due,
                    ct_state = CPending, ct_attempts = 0, ct_next_retry = 0, ct_lease = None,
                    ct_lease_until = 0, ct_error = None, ct_evidence_location = None,
                    ct_attempt_token = None, ct_attempt_started_at = None, ct_completed = False \<rparr>],
               cleanup_sequence := Suc (cleanup_sequence st) \<rparr>)"

definition evidence_peer :: "string \<Rightarrow> string" where
  "evidence_peer oid = ''evidence:'' @ oid"

definition chunk_location :: "ChunkRef \<Rightarrow> TelegramLocation" where
  "chunk_location c = \<lparr> loc_peer_id = ck_peer_id c, loc_message_id = ck_message_id c,
                        loc_document_id = ck_document_id c \<rparr>"

definition enqueue_part_cleanup_preserving ::
  "seconds \<Rightarrow> MultipartPart \<Rightarrow> (string \<times> int) list \<Rightarrow> store \<Rightarrow> MetadataError + store" where
  "enqueue_part_cleanup_preserving now part retained st =
     bind_res (cleanup_retention_secs st) (\<lambda>retention.
       let conn = active_connection_id st;
           oid = (case mp_manifest part of Some m \<Rightarrow> m_object_id m | None \<Rightarrow> mp_upload_id part);
           due = now + retention;
           st1 = enqueue_target oid conn (evidence_peer oid) 0 Evidence due st;
           locations = mp_telegram part #
             (case mp_manifest part of
                None \<Rightarrow> []
              | Some m \<Rightarrow> map chunk_location
                  (filter (\<lambda>c. (ck_peer_id c, ck_message_id c) \<notin> set retained) (chunks m)))
       in Inr (fold (\<lambda>l s. enqueue_target oid conn (loc_peer_id l) (loc_message_id l) Message due s)
                 locations st1))"

definition enqueue_part_cleanup ::
  "seconds \<Rightarrow> MultipartPart \<Rightarrow> store \<Rightarrow> MetadataError + store" where
  "enqueue_part_cleanup now part = enqueue_part_cleanup_preserving now part []"

definition enqueue_manifest_cleanup_at :: "ObjectManifest \<Rightarrow> seconds \<Rightarrow> store \<Rightarrow> store" where
  "enqueue_manifest_cleanup_at m due st =
     (let oid = m_object_id m;
          conn = active_connection_id st;
          st1 = enqueue_target oid conn (evidence_peer oid) 0 Evidence due st;
          st2 = fold (\<lambda>c s. if 0 < ck_message_id c
                            then enqueue_target oid conn (ck_peer_id c) (ck_message_id c) Message due s
                            else s) (chunks m) st1
      in if 0 < loc_message_id (telegram m)
         then enqueue_target oid conn (loc_peer_id (telegram m)) (loc_message_id (telegram m)) Message due st2
         else st2)"

definition enqueue_manifest_cleanup :: "seconds \<Rightarrow> ObjectManifest \<Rightarrow> store \<Rightarrow> store" where
  "enqueue_manifest_cleanup now m = enqueue_manifest_cleanup_at m now"

section \<open>Claiming\<close>

record CleanupTarget =
  cl_id :: nat
  cl_object_id :: string
  cl_connection_id :: string
  cl_peer_id :: string
  cl_message_id :: int
  cl_kind :: CleanupKind
  cl_lease :: string

definition evidence_recorded :: "store \<Rightarrow> string \<Rightarrow> bool" where
  "evidence_recorded st oid =
     exists_where (\<lambda>e. ct_object_id e = oid \<and> ct_kind e = Evidence \<and> ct_completed e)
       (cleanup_targets st)"

definition evidence_claimable :: "seconds \<Rightarrow> cleanup_row \<Rightarrow> bool" where
  "evidence_claimable now t \<longleftrightarrow>
     \<not> ct_completed t \<and> ct_kind t = Evidence \<and>
     ((ct_state t \<in> {CPending, CRetryWait} \<and> ct_due_at t \<le> now \<and> ct_next_retry t \<le> now) \<or>
      (ct_state t = CRunning \<and> ct_lease_until t < now \<and> ct_attempt_token t = None))"

definition message_claimable :: "store \<Rightarrow> seconds \<Rightarrow> cleanup_row \<Rightarrow> bool" where
  "message_claimable st now t \<longleftrightarrow>
     \<not> ct_completed t \<and> ct_kind t = Message \<and>
     ((ct_state t \<in> {CPending, CRetryWait} \<and> ct_due_at t \<le> now \<and> ct_next_retry t \<le> now) \<or>
      (ct_state t = CRunning \<and> ct_lease_until t < now)) \<and>
     evidence_recorded st (ct_object_id t)"

definition claimable_target :: "seconds \<Rightarrow> store \<Rightarrow> cleanup_row option" where
  "claimable_target now st =
     (case select_first (evidence_claimable now) ct_id (cleanup_targets st) of
        Some r \<Rightarrow> Some r
      | None \<Rightarrow> select_first (message_claimable st now) ct_id (cleanup_targets st))"

definition lease_target :: "seconds \<Rightarrow> string \<Rightarrow> nat \<Rightarrow> store \<Rightarrow> store" where
  "lease_target now lease i st =
     st\<lparr> cleanup_targets := update_where (\<lambda>t. ct_id t = i \<and> \<not> ct_completed t)
           (\<lambda>t. t\<lparr> ct_state := CRunning, ct_lease := Some lease, ct_lease_until := now + 120,
                   ct_attempts := Suc (ct_attempts t), ct_error := None \<rparr>)
           (cleanup_targets st) \<rparr>"

definition claim_cleanup :: "seconds \<Rightarrow> string \<Rightarrow> store \<Rightarrow> CleanupTarget option \<times> store" where
  "claim_cleanup now lease st =
     (case claimable_target now st of
        None \<Rightarrow> (None, st)
      | Some r \<Rightarrow>
          (Some \<lparr> cl_id = ct_id r, cl_object_id = ct_object_id r, cl_connection_id = ct_connection_id r,
                  cl_peer_id = ct_peer_id r, cl_message_id = ct_message_id r, cl_kind = ct_kind r,
                  cl_lease = lease \<rparr>,
           lease_target now lease (ct_id r) st))"

section \<open>Outcomes\<close>

record CleanupEvidenceAttempt =
  ce_id :: nat
  ce_object_id :: string
  ce_connection_id :: string
  ce_token :: string
  ce_started_at :: seconds

definition cleanup_evidence_attempts :: "seconds \<Rightarrow> nat \<Rightarrow> store \<Rightarrow> CleanupEvidenceAttempt list" where
  "cleanup_evidence_attempts now limit st =
     map (\<lambda>t. \<lparr> ce_id = ct_id t, ce_object_id = ct_object_id t, ce_connection_id = ct_connection_id t,
                ce_token = the (ct_attempt_token t), ce_started_at = the (ct_attempt_started_at t) \<rparr>)
       (take limit (select_order
          (\<lambda>t. \<not> ct_completed t \<and> ct_kind t = Evidence \<and> ct_attempt_token t \<noteq> None \<and>
               ct_attempt_started_at t \<noteq> None \<and>
               (ct_state t = CRecoveryRequired \<or> (ct_state t = CRunning \<and> ct_lease_until t < now)))
          ct_id (cleanup_targets st)))"

definition held_by :: "nat \<Rightarrow> string \<Rightarrow> cleanup_row \<Rightarrow> bool" where
  "held_by i lease t \<longleftrightarrow> ct_id t = i \<and> ct_lease t = Some lease \<and> ct_state t = CRunning"

definition evidence_token :: "string \<Rightarrow> string \<Rightarrow> string" where
  "evidence_token oid nonce = ''telegram-s3-cleanup-'' @ oid @ ''-'' @ nonce @ ''.json''"

definition begin_cleanup_evidence_attempt ::
  "seconds \<Rightarrow> string \<Rightarrow> nat \<Rightarrow> string \<Rightarrow> string \<Rightarrow> store \<Rightarrow> (string \<times> seconds) tx" where
  "begin_cleanup_evidence_attempt now nonce i lease oid st =
     (let P = (\<lambda>t. held_by i lease t \<and> \<not> ct_completed t);
          token = evidence_token oid nonce in
      if count_where P (cleanup_targets st) \<noteq> 1
      then Inl (PreconditionFailed ''cleanup evidence lease lost'')
      else Inr ((token, now),
        st\<lparr> cleanup_targets := update_where P
              (\<lambda>t. t\<lparr> ct_attempt_token := Some token, ct_attempt_started_at := Some now \<rparr>)
              (cleanup_targets st) \<rparr>))"

definition resolve_cleanup_evidence :: "nat \<Rightarrow> TelegramLocation \<Rightarrow> store \<Rightarrow> store" where
  "resolve_cleanup_evidence i location st =
     st\<lparr> cleanup_targets := update_where (\<lambda>t. ct_id t = i \<and> \<not> ct_completed t \<and> ct_kind t = Evidence)
           (\<lambda>t. t\<lparr> ct_state := CCompleted, ct_completed := True, ct_lease := None, ct_lease_until := 0,
                   ct_error := None, ct_evidence_location := Some location \<rparr>) (cleanup_targets st) \<rparr>"

definition retry_cleanup_evidence_after_reconciliation ::
  "seconds \<Rightarrow> nat \<Rightarrow> string \<Rightarrow> store \<Rightarrow> store" where
  "retry_cleanup_evidence_after_reconciliation now i message st =
     st\<lparr> cleanup_targets := update_where (\<lambda>t. ct_id t = i \<and> \<not> ct_completed t \<and> ct_kind t = Evidence)
           (\<lambda>t. t\<lparr> ct_state := CPending, ct_due_at := now, ct_next_retry := 0, ct_lease := None,
                   ct_lease_until := 0, ct_error := Some message \<rparr>) (cleanup_targets st) \<rparr>"

definition complete_cleanup ::
  "nat \<Rightarrow> string \<Rightarrow> TelegramLocation option \<Rightarrow> store \<Rightarrow> bool \<times> store" where
  "complete_cleanup i lease location st =
     (count_where (held_by i lease) (cleanup_targets st) = 1,
      st\<lparr> cleanup_targets := update_where (held_by i lease)
            (\<lambda>t. t\<lparr> ct_state := CCompleted, ct_completed := True, ct_lease := None, ct_lease_until := 0,
                    ct_error := None,
                    ct_evidence_location := (case location of Some l \<Rightarrow> Some l
                                             | None \<Rightarrow> ct_evidence_location t) \<rparr>)
            (cleanup_targets st) \<rparr>)"

definition fail_cleanup :: "seconds \<Rightarrow> nat \<Rightarrow> string \<Rightarrow> nat \<Rightarrow> string \<Rightarrow> store \<Rightarrow> store" where
  "fail_cleanup now i lease retry_after message st =
     st\<lparr> cleanup_targets := update_where (held_by i lease)
           (\<lambda>t. t\<lparr> ct_state := CRetryWait, ct_next_retry := saturating_add_i64 now (u64_as_i64 retry_after),
                   ct_lease := None, ct_lease_until := 0, ct_error := Some message \<rparr>)
           (cleanup_targets st) \<rparr>"

definition quarantine_cleanup :: "nat \<Rightarrow> string \<Rightarrow> string \<Rightarrow> store \<Rightarrow> store" where
  "quarantine_cleanup i lease message st =
     st\<lparr> cleanup_targets := update_where (held_by i lease)
           (\<lambda>t. t\<lparr> ct_state := CRecoveryRequired, ct_lease := None, ct_lease_until := 0,
                   ct_error := Some message \<rparr>) (cleanup_targets st) \<rparr>"

definition cleanup_complete_for_object :: "string \<Rightarrow> store \<Rightarrow> bool" where
  "cleanup_complete_for_object oid st =
     (\<not> exists_where (\<lambda>t. ct_object_id t = oid \<and> \<not> ct_completed t) (cleanup_targets st))"

definition make_cleanup_due :: "seconds \<Rightarrow> string \<Rightarrow> store \<Rightarrow> store" where
  "make_cleanup_due now oid st =
     st\<lparr> cleanup_targets := update_where
           (\<lambda>t. ct_object_id t = oid \<and> \<not> ct_completed t \<and> ct_state t \<in> {CPending, CRetryWait})
           (\<lambda>t. t\<lparr> ct_due_at := now, ct_next_retry := 0 \<rparr>) (cleanup_targets st) \<rparr>"

section \<open>Wake-up delay and metrics\<close>

definition min_of :: "int list \<Rightarrow> int option" where
  "min_of xs = (case xs of [] \<Rightarrow> None | y # ys \<Rightarrow> Some (fold min ys y))"

definition wake_time :: "cleanup_row \<Rightarrow> seconds" where
  "wake_time t = (if ct_state t = CRunning then ct_lease_until t else max (ct_due_at t) (ct_next_retry t))"

definition cleanup_wake_delay_secs :: "seconds \<Rightarrow> store \<Rightarrow> nat" where
  "cleanup_wake_delay_secs now st =
     (let next_evidence = min_of (map wake_time (filter
            (\<lambda>t. \<not> ct_completed t \<and> ct_kind t = Evidence \<and>
                 ((ct_state t \<in> {CPending, CRetryWait} \<and> now < ct_due_at t) \<or> ct_state t = CRunning))
            (cleanup_targets st)));
          next_message = min_of (map wake_time (filter
            (\<lambda>t. \<not> ct_completed t \<and> ct_kind t = Message \<and>
                 ((ct_state t \<in> {CPending, CRetryWait} \<and> now < max (ct_due_at t) (ct_next_retry t)) \<or>
                  ct_state t = CRunning) \<and>
                 evidence_recorded st (ct_object_id t)) (cleanup_targets st)));
          next_wake = (case (next_evidence, next_message) of
               (Some a, Some b) \<Rightarrow> min a b
             | (Some a, None) \<Rightarrow> a
             | (None, Some b) \<Rightarrow> b
             | (None, None) \<Rightarrow> saturating_add_i64 now 60)
      in nat (max 1 (min 60 (saturating_add_i64 next_wake (- now)))))"

record DurableMetrics =
  pending_jobs :: nat
  oldest_pending_age_seconds :: nat
  retries :: nat
  failed_jobs :: nat
  staging_bytes :: nat
  cleanup_backlog :: nat
  cleanup_due :: nat
  cleanup_scheduled :: nat
  cleanup_recovery_required :: nat

definition metric_due :: "store \<Rightarrow> seconds \<Rightarrow> cleanup_row \<Rightarrow> bool" where
  "metric_due st now t \<longleftrightarrow>
     \<not> ct_completed t \<and> ct_state t \<noteq> CRecoveryRequired \<and>
     ((ct_state t \<in> {CPending, CRetryWait} \<and> ct_due_at t \<le> now \<and> ct_next_retry t \<le> now) \<or>
      (ct_state t = CRunning \<and> ct_lease_until t < now)) \<and>
     (ct_kind t = Evidence \<or> evidence_recorded st (ct_object_id t))"

definition pending_state :: "TransferState \<Rightarrow> bool" where
  "pending_state s \<longleftrightarrow> s \<in> {TReceiving, TQueued, TUploading, TCommitting, TRetryWait}"

definition durable_metrics :: "seconds \<Rightarrow> store \<Rightarrow> DurableMetrics" where
  "durable_metrics now st =
     (let jobs = transfer_jobs st;
          targets = cleanup_targets st;
          backlog = count_where (\<lambda>t. \<not> ct_completed t) targets;
          due = count_where (metric_due st now) targets;
          recovery = count_where (\<lambda>t. ct_state t = CRecoveryRequired) targets
      in \<lparr> pending_jobs = count_where (\<lambda>j. pending_state (tj_state j)) jobs,
           oldest_pending_age_seconds =
             (case min_of (map tj_created_at (filter (\<lambda>j. pending_state (tj_state j)) jobs)) of
                None \<Rightarrow> 0 | Some v \<Rightarrow> nat (max 0 (saturating_add_i64 now (- v)))),
           retries = sum_where (\<lambda>j. 1 < tj_attempts j) (\<lambda>j. tj_attempts j - 1) jobs,
           failed_jobs = count_where (\<lambda>j. tj_state j \<in> {TRecoveryRequired, TReceptionFailed}) jobs,
           staging_bytes = sum_where (\<lambda>j. tj_state j \<noteq> TCleaned) tj_bytes jobs,
           cleanup_backlog = backlog,
           cleanup_due = due,
           cleanup_scheduled = backlog - due - recovery,
           cleanup_recovery_required = recovery \<rparr>)"

section \<open>The outbox invariant\<close>

text \<open>
  Row identifiers and \<open>(peer, message)\<close> pairs are unique, the completed flag
  and the lease agree with the state, and a message row that a worker holds or
  has finished belongs to an object whose deletion evidence is recorded.
\<close>

definition row_ok :: "store \<Rightarrow> cleanup_row \<Rightarrow> bool" where
  "row_ok st t \<longleftrightarrow>
     (ct_completed t \<longleftrightarrow> ct_state t = CCompleted) \<and>
     (ct_lease t \<noteq> None \<longleftrightarrow> ct_state t = CRunning) \<and>
     ct_id t \<le> cleanup_sequence st \<and>
     (ct_kind t = Message \<and> ct_state t \<in> {CRunning, CCompleted} \<longrightarrow>
        evidence_recorded st (ct_object_id t))"

definition target_key :: "cleanup_row \<Rightarrow> string \<times> int" where
  "target_key t = (ct_peer_id t, ct_message_id t)"

definition cleanup_wf :: "store \<Rightarrow> bool" where
  "cleanup_wf st \<longleftrightarrow>
     distinct (map ct_id (cleanup_targets st)) \<and>
     distinct (map target_key (cleanup_targets st)) \<and>
     list_all (row_ok st) (cleanup_targets st)"

text \<open>An update that keeps the identifying columns and never takes the completed flag back.\<close>

definition benign :: "store \<Rightarrow> (cleanup_row \<Rightarrow> bool) \<Rightarrow> (cleanup_row \<Rightarrow> cleanup_row) \<Rightarrow> bool" where
  "benign st P f \<longleftrightarrow>
     (\<forall>t \<in> set (cleanup_targets st). P t \<longrightarrow> row_ok st t \<longrightarrow> ct_id (f t) = ct_id t \<and> target_key (f t) = target_key t \<and>
           ct_object_id (f t) = ct_object_id t \<and> ct_kind (f t) = ct_kind t \<and>
           (ct_completed t \<longrightarrow> ct_completed (f t)))"

lemma evidence_recorded_iff:
  "evidence_recorded st oid \<longleftrightarrow>
   (\<exists>e \<in> set (cleanup_targets st). ct_object_id e = oid \<and> ct_kind e = Evidence \<and> ct_completed e)"
  by (simp add: evidence_recorded_def)

lemma evidence_recorded_update:
  assumes "benign st P f" "list_all (row_ok st) (cleanup_targets st)" "evidence_recorded st oid"
  shows "evidence_recorded (st\<lparr> cleanup_targets := update_where P f (cleanup_targets st) \<rparr>) oid"
proof -
  obtain e where "e \<in> set (cleanup_targets st)" "ct_object_id e = oid" "ct_kind e = Evidence" "ct_completed e"
    using assms(3) by (auto simp: evidence_recorded_iff)
  thus ?thesis
    using assms(1,2) unfolding evidence_recorded_iff benign_def list_all_iff
    by (intro bexI[of _ "if P e then f e else e"]) (auto simp: table_simps)
qed

lemma cleanup_wf_update:
  assumes wf: "cleanup_wf st" and ben: "benign st P f"
    and ok: "\<And>t. t \<in> set (cleanup_targets st) \<Longrightarrow> P t \<Longrightarrow> row_ok st t \<Longrightarrow> row_ok st (f t)"
  shows "cleanup_wf (st\<lparr> cleanup_targets := update_where P f (cleanup_targets st) \<rparr>)" (is "cleanup_wf ?st")
proof -
  have "row_ok ?st (if P t then f t else t)" if "t \<in> set (cleanup_targets st)" for t
  proof -
    have "row_ok st t" using wf that by (auto simp: cleanup_wf_def list_all_iff)
    hence "row_ok st (if P t then f t else t)" using ok that by simp
    thus ?thesis using evidence_recorded_update[OF ben] wf by (simp add: row_ok_def cleanup_wf_def)
  qed
  hence "list_all (row_ok ?st) (cleanup_targets ?st)"
    unfolding list_all_iff by (auto simp: mem_update_where simp del: if_image_distrib)
  moreover have "map ct_id (cleanup_targets ?st) = map ct_id (cleanup_targets st)"
      "map target_key (cleanup_targets ?st) = map target_key (cleanup_targets st)"
    using ben wf by (auto simp: benign_def cleanup_wf_def list_all_iff intro!: map_update_where_same)
  ultimately show ?thesis using wf by (simp add: cleanup_wf_def)
qed

lemma enqueue_target_mono:
  assumes "t \<in> set (cleanup_targets st)"
  shows "t \<in> set (cleanup_targets (enqueue_target oid conn peer msg kind due st))"
  using assms by (auto simp: enqueue_target_def)

lemma enqueue_target_present:
  "\<exists>t \<in> set (cleanup_targets (enqueue_target oid conn peer msg kind due st)).
     ct_peer_id t = peer \<and> ct_message_id t = msg"
  by (auto simp: enqueue_target_def)

lemma cleanup_wf_enqueue:
  assumes wf: "cleanup_wf st"
  shows "cleanup_wf (enqueue_target oid conn peer msg kind due st)" (is "cleanup_wf ?st")
proof (cases "\<exists>r \<in> set (cleanup_targets st). ct_peer_id r = peer \<and> ct_message_id r = msg")
  case True
  thus ?thesis using wf by (simp add: enqueue_target_def)
next
  case False
  have ev: "evidence_recorded st o' \<Longrightarrow> evidence_recorded ?st o'" for o'
    using enqueue_target_mono unfolding evidence_recorded_iff by blast
  have ids: "ct_id t \<le> cleanup_sequence st" "row_ok st t" if "t \<in> set (cleanup_targets st)" for t
    using wf that by (auto simp: cleanup_wf_def list_all_iff row_ok_def)
  have old: "row_ok ?st t" if "t \<in> set (cleanup_targets st)" for t
    using ids[OF that] ev[of "ct_object_id t"] False by (simp add: row_ok_def enqueue_target_def)
  have "list_all (row_ok ?st) (cleanup_targets ?st)"
    using old False by (auto simp: list_all_iff enqueue_target_def row_ok_def)
  moreover have "Suc (cleanup_sequence st) \<notin> ct_id ` set (cleanup_targets st)"
    using ids(1) by (metis imageE not_less_eq_eq order_refl)
  hence "distinct (map ct_id (cleanup_targets ?st))"
    using wf False by (simp add: cleanup_wf_def enqueue_target_def)
  moreover have "distinct (map target_key (cleanup_targets ?st))"
    using wf False by (auto simp: cleanup_wf_def enqueue_target_def target_key_def)
  ultimately show ?thesis by (simp add: cleanup_wf_def)
qed

lemma fold_invariant:
  "(\<And>x s. P s \<Longrightarrow> P (g x s)) \<Longrightarrow> P s \<Longrightarrow> P (fold g xs s)"
  by (induction xs arbitrary: s) auto

lemma cleanup_wf_enqueue_manifest:
  "cleanup_wf st \<Longrightarrow> cleanup_wf (enqueue_manifest_cleanup_at m due st)"
  unfolding enqueue_manifest_cleanup_at_def Let_def
  by (auto intro!: cleanup_wf_enqueue fold_invariant[where P = cleanup_wf])

lemma cleanup_wf_enqueue_part:
  assumes "cleanup_wf st" "enqueue_part_cleanup_preserving now part retained st = Inr st'"
  shows "cleanup_wf st'"
proof -
  have fold_ok: "cleanup_wf s \<Longrightarrow>
      cleanup_wf (fold (\<lambda>l s. enqueue_target oid conn (loc_peer_id l) (loc_message_id l) Message due s) ls s)"
    for ls s oid conn due
    by (rule fold_invariant[where P = cleanup_wf]) (auto intro: cleanup_wf_enqueue)
  show ?thesis
    using assms unfolding enqueue_part_cleanup_preserving_def Let_def bind_res_Inr_iff
    by (auto simp del: fold.simps intro!: fold_ok cleanup_wf_enqueue)
qed

section \<open>Workers\<close>

text \<open>What the holder of a lease reports back, and every operation on the outbox.\<close>

datatype cleanup_report =
    Begin_Evidence seconds string string
  | Complete "TelegramLocation option"
  | Fail seconds nat string
  | Quarantine string

fun cleanup_report_step :: "cleanup_report \<Rightarrow> nat \<Rightarrow> string \<Rightarrow> store \<Rightarrow> store" where
  "cleanup_report_step (Begin_Evidence now nonce oid) i lease st =
     (case begin_cleanup_evidence_attempt now nonce i lease oid st of Inl _ \<Rightarrow> st | Inr (_, st') \<Rightarrow> st')"
| "cleanup_report_step (Complete location) i lease st = snd (complete_cleanup i lease location st)"
| "cleanup_report_step (Fail now retry_after message) i lease st =
     fail_cleanup now i lease retry_after message st"
| "cleanup_report_step (Quarantine message) i lease st = quarantine_cleanup i lease message st"

definition claim_target :: "seconds \<Rightarrow> string \<Rightarrow> store \<Rightarrow> nat option \<times> store" where
  "claim_target now lease st = (map_option cl_id (fst (claim_cleanup now lease st)),
                                snd (claim_cleanup now lease st))"

inductive cleanup_step :: "store \<Rightarrow> store \<Rightarrow> bool" where
  enqueue: "cleanup_step st (enqueue_target oid conn peer msg kind due st)"
| enqueue_manifest: "cleanup_step st (enqueue_manifest_cleanup_at m due st)"
| enqueue_part: "enqueue_part_cleanup_preserving now part retained st = Inr st' \<Longrightarrow> cleanup_step st st'"
| claim: "cleanup_step st (snd (claim_cleanup now lease st))"
| report: "cleanup_step st (cleanup_report_step r i lease st)"
| resolve: "cleanup_step st (resolve_cleanup_evidence i location st)"
| retry: "cleanup_step st (retry_cleanup_evidence_after_reconciliation now i message st)"
| make_due: "cleanup_step st (make_cleanup_due now oid st)"

lemma claimable_target_Some:
  assumes "claimable_target now st = Some r"
  shows "r \<in> set (cleanup_targets st)" "evidence_claimable now r \<or> message_claimable st now r"
  using assms select_first_Some(1,2)[of "evidence_claimable now" ct_id "cleanup_targets st" r]
    select_first_Some(1,2)[of "message_claimable st now" ct_id "cleanup_targets st" r]
  by (auto simp: claimable_target_def split: option.splits)

lemma claimable_target_fresh:
  assumes "claimable_target now st = Some r"
  shows "\<not> ct_completed r" "ct_state r = CRunning \<Longrightarrow> ct_lease_until r < now"
  using claimable_target_Some[OF assms] by (auto simp: evidence_claimable_def message_claimable_def)

lemma cleanup_wf_unique:
  "cleanup_wf st \<Longrightarrow> t \<in> set (cleanup_targets st) \<Longrightarrow> r \<in> set (cleanup_targets st) \<Longrightarrow>
   ct_id t = ct_id r \<Longrightarrow> t = r"
  using distinct_key_eq[of ct_id "cleanup_targets st" t r] by (simp add: cleanup_wf_def)

lemma claim_target_eq:
  "claim_target now lease st =
   (case claimable_target now st of None \<Rightarrow> (None, st)
    | Some r \<Rightarrow> (Some (ct_id r), lease_target now lease (ct_id r) st))"
  by (simp add: claim_target_def claim_cleanup_def split: option.splits)

lemma cleanup_wf_claim:
  assumes wf: "cleanup_wf st"
  shows "cleanup_wf (snd (claim_cleanup now lease st))"
proof (cases "claimable_target now st")
  case None
  thus ?thesis using wf by (simp add: claim_cleanup_def)
next
  case (Some r)
  have "cleanup_wf (lease_target now lease (ct_id r) st)" unfolding lease_target_def
  proof (rule cleanup_wf_update[OF wf])
    fix t assume t: "t \<in> set (cleanup_targets st)" "ct_id t = ct_id r \<and> \<not> ct_completed t" "row_ok st t"
    have "t = r" using cleanup_wf_unique[OF wf t(1) claimable_target_Some(1)[OF Some]] t(2) by simp
    thus "row_ok st (t\<lparr> ct_state := CRunning, ct_lease := Some lease, ct_lease_until := now + 120,
                          ct_attempts := Suc (ct_attempts t), ct_error := None \<rparr>)"
      using claimable_target_Some(2)[OF Some] t
      by (auto simp: row_ok_def evidence_claimable_def message_claimable_def)
  qed (simp add: benign_def target_key_def)
  thus ?thesis using Some by (simp add: claim_cleanup_def)
qed

lemma cleanup_wf_update':
  assumes "cleanup_wf st" "benign st P f"
    and "\<And>t. P t \<Longrightarrow> ct_kind t = Message \<Longrightarrow> ct_state (f t) \<in> {CRunning, CCompleted} \<Longrightarrow>
           ct_state t \<in> {CRunning, CCompleted}"
    and "\<And>t. P t \<Longrightarrow> row_ok st t \<Longrightarrow> ct_completed (f t) \<longleftrightarrow> ct_state (f t) = CCompleted"
    and "\<And>t. P t \<Longrightarrow> row_ok st t \<Longrightarrow> ct_lease (f t) \<noteq> None \<longleftrightarrow> ct_state (f t) = CRunning"
  shows "cleanup_wf (st\<lparr> cleanup_targets := update_where P f (cleanup_targets st) \<rparr>)"
proof (rule cleanup_wf_update[OF assms(1,2)])
  fix t assume "t \<in> set (cleanup_targets st)" "P t" "row_ok st t"
  moreover from this have "ct_id (f t) = ct_id t" "ct_object_id (f t) = ct_object_id t" "ct_kind (f t) = ct_kind t"
    using assms(2) by (simp_all add: benign_def)
  ultimately show "row_ok st (f t)"
    using assms(3-5)[of t] unfolding row_ok_def by metis
qed

lemma cleanup_wf_begin:
  assumes "cleanup_wf st" "begin_cleanup_evidence_attempt now nonce i lease oid st = Inr (v, st')"
  shows "cleanup_wf st'"
proof -
  have "st' = st\<lparr> cleanup_targets := update_where (\<lambda>t. held_by i lease t \<and> \<not> ct_completed t)
      (\<lambda>t. t\<lparr> ct_attempt_token := Some (evidence_token oid nonce), ct_attempt_started_at := Some now \<rparr>)
      (cleanup_targets st) \<rparr>"
    using assms(2) by (simp add: begin_cleanup_evidence_attempt_def Let_def split: if_splits)
  thus ?thesis
    using assms(1) by (simp, intro cleanup_wf_update')
      (auto simp: benign_def target_key_def held_by_def row_ok_def)
qed

lemma cleanup_wf_report:
  assumes "cleanup_wf st"
  shows "cleanup_wf (cleanup_report_step r i lease st)"
proof (cases r)
  case (Begin_Evidence now nonce oid)
  thus ?thesis using assms cleanup_wf_begin by (auto split: sum.splits)
next
  case (Complete location)
  show ?thesis unfolding Complete cleanup_report_step.simps complete_cleanup_def snd_conv
    by (rule cleanup_wf_update'[OF assms]) (auto simp: benign_def target_key_def held_by_def row_ok_def)
next
  case (Fail now n message)
  show ?thesis unfolding Fail cleanup_report_step.simps fail_cleanup_def
    by (rule cleanup_wf_update'[OF assms])
      (auto simp: benign_def target_key_def held_by_def row_ok_def)
next
  case (Quarantine message)
  show ?thesis unfolding Quarantine cleanup_report_step.simps quarantine_cleanup_def
    by (rule cleanup_wf_update'[OF assms])
      (auto simp: benign_def target_key_def held_by_def row_ok_def)
qed

lemma cleanup_wf_resolve:
  "cleanup_wf st \<Longrightarrow> cleanup_wf (resolve_cleanup_evidence i location st)"
  unfolding resolve_cleanup_evidence_def
  by (rule cleanup_wf_update') (auto simp: benign_def target_key_def)

lemma cleanup_wf_retry:
  "cleanup_wf st \<Longrightarrow> cleanup_wf (retry_cleanup_evidence_after_reconciliation now i message st)"
  unfolding retry_cleanup_evidence_after_reconciliation_def
  by (rule cleanup_wf_update') (auto simp: benign_def target_key_def)

lemma cleanup_wf_make_due: "cleanup_wf st \<Longrightarrow> cleanup_wf (make_cleanup_due now oid st)"
  unfolding make_cleanup_due_def
  by (rule cleanup_wf_update') (auto simp: benign_def target_key_def row_ok_def)

lemmas cleanup_wf_ops = cleanup_wf_enqueue cleanup_wf_enqueue_manifest
  cleanup_wf_claim cleanup_wf_report cleanup_wf_resolve cleanup_wf_retry cleanup_wf_make_due

interpretation outbox: invariant_system "\<lambda>st. cleanup_targets st = []" cleanup_step cleanup_wf
proof unfold_locales
  show "cleanup_wf st'" if "cleanup_wf st" "cleanup_step st st'" for st st'
    using that(2,1)
  proof cases
    case enqueue_part
    thus ?thesis using that(1) cleanup_wf_enqueue_part by blast
  qed (simp_all add: cleanup_wf_ops)
qed (simp add: cleanup_wf_def)

lemma report_needs_lease:
  assumes "\<not> (\<exists>t \<in> set (cleanup_targets st). ct_id t = i \<and> ct_state t = CRunning \<and> ct_lease t = Some lease)"
  shows "cleanup_report_step r i lease st = st"
proof -
  have none: "\<not> held_by i lease t" if "t \<in> set (cleanup_targets st)" for t
    using assms that by (auto simp: held_by_def)
  have upd: "update_where (held_by i lease) f (cleanup_targets st) = cleanup_targets st" for f
    using none by (rule update_where_none)
  have "count_where (\<lambda>t. held_by i lease t \<and> \<not> ct_completed t) (cleanup_targets st) = 0"
    using none by (auto simp: count_where_def filter_empty_conv)
  thus ?thesis
    by (cases r) (simp_all add: begin_cleanup_evidence_attempt_def complete_cleanup_def fail_cleanup_def
        quarantine_cleanup_def upd)
qed

lemma claim_target_laws:
  assumes wf: "cleanup_wf st" and cl: "claim_target now lease st = (Some k, st')"
  shows "\<exists>r \<in> set (cleanup_targets st'). ct_id r = k \<and> ct_state r = CRunning \<and> ct_lease r = Some lease \<and>
      ct_lease_until r = now + 120"
    and "r \<in> set (cleanup_targets st) \<Longrightarrow> ct_id r = k \<Longrightarrow> ct_state r = CRunning \<Longrightarrow> ct_lease_until r < now"
proof -
  obtain c where c: "claimable_target now st = Some c" "k = ct_id c" "st' = lease_target now lease (ct_id c) st"
    using cl by (auto simp: claim_target_eq split: option.splits)
  note fresh = claimable_target_fresh[OF c(1)] and mem = claimable_target_Some(1)[OF c(1)]
  show "\<exists>r \<in> set (cleanup_targets st'). ct_id r = k \<and> ct_state r = CRunning \<and> ct_lease r = Some lease \<and>
      ct_lease_until r = now + 120"
    unfolding c(2,3) lease_target_def by (simp add: bex_update_where) (use mem fresh(1) in auto)
  show "ct_lease_until r < now"
    if "r \<in> set (cleanup_targets st)" "ct_id r = k" "ct_state r = CRunning"
    using cleanup_wf_unique[OF wf that(1) mem] that fresh(2) c(2) by simp
qed

lemma claim_target_frame:
  assumes cl: "claim_target now lease st = (c, st')"
    and r': "r' \<in> set (cleanup_targets st')" "ct_state r' = CRunning" "Some (ct_id r') \<noteq> c"
  shows "\<exists>r \<in> set (cleanup_targets st). ct_id r = ct_id r' \<and> ct_state r = CRunning \<and>
      ct_lease r = ct_lease r' \<and> ct_lease_until r = ct_lease_until r'"
proof -
  have "r' \<in> set (cleanup_targets st)"
    using cl r' by (auto simp: claim_target_eq lease_target_def mem_update_where split: option.splits if_splits)
  thus ?thesis using r' by blast
qed

interpretation cleanup_queue:
  fenced_table cleanup_targets ct_id "\<lambda>t. ct_state t = CRunning" ct_lease ct_lease_until claim_target
    cleanup_wf cleanup_report_step
proof (unfold_locales, goal_cases)
  case (1 s) thus ?case by (simp add: cleanup_wf_def)
next
  case (2 s now l) thus ?case by (simp add: claim_target_def cleanup_wf_claim)
next
  case (3 s now l k s') thus ?case by (rule claim_target_laws(1))
next
  case (4 s now l k s' r) thus ?case by (rule claim_target_laws(2))
next
  case (5 s now l c s' r') thus ?case by (intro claim_target_frame)
next
  case (6 s k l m) thus ?case by (rule report_needs_lease)
qed


section \<open>Properties\<close>

abbreviation cleanup_reachable :: "store \<Rightarrow> bool" where
  "cleanup_reachable \<equiv> reachable (\<lambda>st. cleanup_targets st = []) cleanup_step"

lemma enqueue_manifest_mono:
  "t \<in> set (cleanup_targets st) \<Longrightarrow> t \<in> set (cleanup_targets (enqueue_manifest_cleanup_at m due st))"
  unfolding enqueue_manifest_cleanup_at_def Let_def
  by (auto intro!: enqueue_target_mono
      fold_invariant[where P = "\<lambda>s. t \<in> set (cleanup_targets s)"])

lemma fold_enqueue_present:
  assumes "c \<in> set cs" "0 < ck_message_id c"
  shows "\<exists>t \<in> set (cleanup_targets
           (fold (\<lambda>c s. if 0 < ck_message_id c
                        then enqueue_target oid conn (ck_peer_id c) (ck_message_id c) Message due s
                        else s) cs st)).
           ct_peer_id t = ck_peer_id c \<and> ct_message_id t = ck_message_id c"
    (is "\<exists>t \<in> set (cleanup_targets (fold ?g cs st)). ?Q t")
  using assms(1)
proof (induction cs arbitrary: st)
  case (Cons a cs)
  have keep: "t \<in> set (cleanup_targets (fold ?g cs s))" if "t \<in> set (cleanup_targets s)" for t s
    using that by (intro fold_invariant[where P = "\<lambda>s. t \<in> set (cleanup_targets s)"])
      (auto intro: enqueue_target_mono)
  show ?case
  proof (cases "c = a")
    case True
    obtain t where "t \<in> set (cleanup_targets (?g a st))" "?Q t"
      using enqueue_target_present[of oid conn "ck_peer_id c" "ck_message_id c" Message due st]
        assms(2) True by auto
    thus ?thesis using keep by auto
  next
    case False
    thus ?thesis using Cons by auto
  qed
qed simp

lemma enqueue_manifest_present:
  shows "c \<in> set (chunks m) \<Longrightarrow> 0 < ck_message_id c \<Longrightarrow>
     \<exists>t \<in> set (cleanup_targets (enqueue_manifest_cleanup_at m due st)).
       ct_peer_id t = ck_peer_id c \<and> ct_message_id t = ck_message_id c"
    and "0 < loc_message_id (telegram m) \<Longrightarrow>
     \<exists>t \<in> set (cleanup_targets (enqueue_manifest_cleanup_at m due st)).
       ct_peer_id t = loc_peer_id (telegram m) \<and> ct_message_id t = loc_message_id (telegram m)"
proof -
  let ?st2 = "fold (\<lambda>c s. if 0 < ck_message_id c
                then enqueue_target (m_object_id m) (active_connection_id st) (ck_peer_id c)
                       (ck_message_id c) Message due s
                else s) (chunks m)
              (enqueue_target (m_object_id m) (active_connection_id st) (evidence_peer (m_object_id m))
                 0 Evidence due st)"
  have eq: "enqueue_manifest_cleanup_at m due st =
      (if 0 < loc_message_id (telegram m)
       then enqueue_target (m_object_id m) (active_connection_id st) (loc_peer_id (telegram m))
              (loc_message_id (telegram m)) Message due ?st2
       else ?st2)"
    by (simp add: enqueue_manifest_cleanup_at_def Let_def)
  show "\<exists>t \<in> set (cleanup_targets (enqueue_manifest_cleanup_at m due st)).
       ct_peer_id t = ck_peer_id c \<and> ct_message_id t = ck_message_id c"
    if c: "c \<in> set (chunks m)" "0 < ck_message_id c"
  proof -
    obtain t where t: "t \<in> set (cleanup_targets ?st2)" "ct_peer_id t = ck_peer_id c"
        "ct_message_id t = ck_message_id c"
      using fold_enqueue_present[OF c] by blast
    have "t \<in> set (cleanup_targets (enqueue_manifest_cleanup_at m due st))"
      unfolding eq using t(1) by (simp add: enqueue_target_mono)
    thus ?thesis using t(2,3) by blast
  qed
  show "0 < loc_message_id (telegram m) \<Longrightarrow>
     \<exists>t \<in> set (cleanup_targets (enqueue_manifest_cleanup_at m due st)).
       ct_peer_id t = loc_peer_id (telegram m) \<and> ct_message_id t = loc_message_id (telegram m)"
    unfolding eq by (simp add: enqueue_target_present)
qed

lemma row_ok_reachable:
  "cleanup_reachable st \<Longrightarrow> t \<in> set (cleanup_targets st) \<Longrightarrow> row_ok st t"
  using outbox.reachable_inv by (auto simp: cleanup_wf_def list_all_iff)

text \<open>
  C5: In every state the outbox operations can reach, a message row that a
  worker holds or has finished belongs to an object whose deletion evidence
  row is completed: no Telegram message is deleted before the evidence of the
  deletion is durable.
\<close>

theorem message_deletion_needs_evidence:
  assumes "cleanup_reachable st" "t \<in> set (cleanup_targets st)" "ct_kind t = Message"
    "ct_state t = CRunning \<or> ct_state t = CCompleted"
  shows "\<exists>e \<in> set (cleanup_targets st). ct_object_id e = ct_object_id t \<and> ct_kind e = Evidence \<and>
           ct_state e = CCompleted"
proof -
  have "evidence_recorded st (ct_object_id t)"
    using row_ok_reachable[OF assms(1,2)] assms(3,4) by (auto simp: row_ok_def)
  then obtain e where e: "e \<in> set (cleanup_targets st)" "ct_object_id e = ct_object_id t"
      "ct_kind e = Evidence" "ct_completed e"
    by (auto simp: evidence_recorded_iff)
  thus ?thesis using row_ok_reachable[OF assms(1) e(1)] by (auto simp: row_ok_def)
qed

definition outbox_example :: store where
  "outbox_example =
     snd (claim_cleanup 20 ''l2''
       (cleanup_report_step (Complete None) 1 ''l1''
         (snd (claim_cleanup 10 ''l1''
           (enqueue_target ''o'' ''c'' ''p'' 7 Message 5
             (enqueue_target ''o'' ''c'' (evidence_peer ''o'') 0 Evidence 5 empty_store))))))"

lemma cleanup_reachable_intros:
  "cleanup_reachable empty_store"
  "cleanup_reachable st \<Longrightarrow> cleanup_reachable (snd (claim_cleanup now lease st))"
  "cleanup_reachable st \<Longrightarrow> cleanup_reachable (cleanup_report_step r i lease st)"
  "cleanup_reachable st \<Longrightarrow> cleanup_reachable (enqueue_target oid conn peer msg kind due st)"
  by (auto intro: reachable.start reachable.move cleanup_step.intros simp: empty_store_def)

lemma outbox_example_reachable: "cleanup_reachable outbox_example"
  unfolding outbox_example_def by (intro cleanup_reachable_intros)

theorem message_deletion_needs_evidence_witness:
  "\<exists>t \<in> set (cleanup_targets outbox_example). ct_kind t = Message \<and> ct_state t = CRunning \<and>
     (\<exists>e \<in> set (cleanup_targets outbox_example). ct_object_id e = ct_object_id t \<and>
        ct_kind e = Evidence \<and> ct_state e = CCompleted)"
proof -
  have "list_ex (\<lambda>t. ct_kind t = Message \<and> ct_state t = CRunning) (cleanup_targets outbox_example)"
    by code_simp
  then obtain t where "t \<in> set (cleanup_targets outbox_example)" "ct_kind t = Message" "ct_state t = CRunning"
    by (auto simp: list_ex_iff)
  thus ?thesis using message_deletion_needs_evidence[OF outbox_example_reachable] by blast
qed

text \<open>
  C21: Mutual exclusion of cleanup workers.  A claim at time \<open>now\<close> never takes
  a target whose lease is still running, and once a target is claimed under a
  fresh lease, nothing a worker reports under another lease (evidence attempt,
  completion, failure, quarantine) changes the database.
\<close>

theorem cleanup_claim_exclusive:
  assumes "cleanup_reachable st" "claim_cleanup now lease st = (Some t, st')"
  shows "(\<forall>r \<in> set (cleanup_targets st). ct_id r = cl_id t \<and> ct_state r = CRunning \<longrightarrow>
            ct_lease_until r < now) \<and>
         (\<forall>lease' rep. lease' \<noteq> lease \<longrightarrow> cleanup_report_step rep (cl_id t) lease' st' = st')"
proof -
  have cl: "claim_target now lease st = (Some (cl_id t), st')" using assms(2) by (simp add: claim_target_def)
  note wf = outbox.reachable_inv[OF assms(1)]
  show ?thesis
    using cleanup_queue.claim_respects[OF wf cl] cleanup_queue.stale_report_ignored[OF wf cl] by blast
qed

theorem cleanup_claim_exclusive_witness:
  "\<exists>t st'. claim_cleanup 200 ''l3'' outbox_example = (Some t, st') \<and>
     cleanup_report_step (Complete None) (cl_id t) ''l2'' st' = st'"
proof -
  have "fst (claim_cleanup 200 ''l3'' outbox_example) \<noteq> None" by code_simp
  then obtain t st' where c: "claim_cleanup 200 ''l3'' outbox_example = (Some t, st')"
    by (metis fst_conv not_Some_eq surj_pair)
  have "cleanup_report_step (Complete None) (cl_id t) ''l2'' st' = st'"
    by (rule conjunct2[OF cleanup_claim_exclusive[OF outbox_example_reachable c], rule_format]) simp
  thus ?thesis using c by blast
qed

end
