(* ===== verification/Transfers.thy ===== *)
theory Transfers
  imports Cleanup
begin

text \<open>
  Durable transfers of \<open>src/src/durable.rs\<close>: admission (\<open>begin_transfer\<close>,
  \<open>reserve_staging\<close>, \<open>queue_transfer\<close>), the worker's claim under a lease, the
  send attempts that record every Telegram upload before it starts, their
  reconciliation, and the operator's retry and cancel.  Each operation is one
  transaction on the store; \<open>now\<close> is the clock reading of the call (the code
  reads the clock once per statement, all within one immediate transaction).
\<close>

section \<open>Statements on jobs\<close>

definition jobs_update ::
  "(transfer_row \<Rightarrow> bool) \<Rightarrow> (transfer_row \<Rightarrow> transfer_row) \<Rightarrow> store \<Rightarrow> store" where
  "jobs_update P f st = st\<lparr> transfer_jobs := update_where P f (transfer_jobs st) \<rparr>"

definition attempts_update ::
  "(attempt_row \<Rightarrow> bool) \<Rightarrow> (attempt_row \<Rightarrow> attempt_row) \<Rightarrow> store \<Rightarrow> store" where
  "attempts_update P f st = st\<lparr> send_attempts := update_where P f (send_attempts st) \<rparr>"

text \<open>\<open>if tx.execute(..)? != 1 { return Err(..) }\<close>\<close>

definition jobs_update_one ::
  "(transfer_row \<Rightarrow> bool) \<Rightarrow> (transfer_row \<Rightarrow> transfer_row) \<Rightarrow> MetadataError \<Rightarrow> store \<Rightarrow> unit tx" where
  "jobs_update_one P f err st =
     (if count_where P (transfer_jobs st) \<noteq> 1 then Inl err else Inr ((), jobs_update P f st))"

definition sending_state :: "TransferState \<Rightarrow> bool" where
  "sending_state s \<longleftrightarrow> s \<in> {TUploading, TCommitting}"

definition terminal_state :: "TransferState \<Rightarrow> bool" where
  "terminal_state s \<longleftrightarrow> s \<in> {TCompleted, TCleaned, TCancelled, TReceptionFailed, TSuperseded}"

definition unresolved :: "store \<Rightarrow> string \<Rightarrow> bool" where
  "unresolved st jid = exists_where (\<lambda>a. sa_job a = jid \<and> sa_state a \<in> {Sending, Unknown}) (send_attempts st)"

definition flood_limited :: "store \<Rightarrow> string \<Rightarrow> bool" where
  "flood_limited st jid =
     exists_where (\<lambda>a. sa_job a = jid \<and> sa_state a = Retryable \<and>
                       sa_error_kind a = Some ''telegram_flood_wait'') (send_attempts st)"

section \<open>Admission\<close>

definition begin_transfer ::
  "seconds \<Rightarrow> string \<Rightarrow> string \<Rightarrow> string \<Rightarrow> store \<Rightarrow> string tx" where
  "begin_transfer now jid bucket key st =
     (if \<not> exists_where (\<lambda>b. bk_name b = bucket \<and> bk_deleted_at b = None) (buckets st)
      then Inl (BucketNotFound bucket)
      else if exists_where (\<lambda>j. tj_id j = jid) (transfer_jobs st)
      then Inl (Sqlite ''UNIQUE constraint failed: transfer_jobs.id'')
      else Inr (jid, st\<lparr> transfer_jobs := transfer_jobs st @
             [\<lparr> tj_sequence = Suc (transfer_sequence st), tj_id = jid, tj_object_id = jid,
                tj_connection_id = active_connection_id st, tj_operation_id = None,
                tj_bucket = bucket, tj_key = key, tj_state = TReceiving, tj_bytes = 0,
                tj_chunks_done = 0, tj_chunks_total = 0, tj_attempts = 0, tj_next_retry = 0,
                tj_lease = None, tj_lease_until = now + 120, tj_conditionals = None,
                tj_error = None, tj_created_at = now, tj_updated_at = now \<rparr>],
             transfer_sequence := Suc (transfer_sequence st) \<rparr>))"

definition staged_bytes :: "store \<Rightarrow> nat" where
  "staged_bytes st = sum_where (\<lambda>j. tj_state j \<notin> {TCompleted, TCleaned}) tj_bytes (transfer_jobs st)"

definition receiving :: "string \<Rightarrow> transfer_row \<Rightarrow> bool" where
  "receiving jid j \<longleftrightarrow> tj_id j = jid \<and> tj_state j = TReceiving"

definition reserve_staging :: "seconds \<Rightarrow> string \<Rightarrow> nat \<Rightarrow> nat \<Rightarrow> store \<Rightarrow> unit tx" where
  "reserve_staging now jid bytes budget st =
     (if budget < saturating_add_u64 (staged_bytes st) bytes
      then Inl (InvalidManifest ''staging capacity exhausted'')
      else jobs_update_one (receiving jid)
             (\<lambda>j. j\<lparr> tj_bytes := tj_bytes j + bytes, tj_updated_at := now, tj_lease_until := now + 120 \<rparr>)
             (InvalidManifest ''upload is no longer receiving'') st)"

definition queue_transfer :: "seconds \<Rightarrow> string \<Rightarrow> string \<Rightarrow> nat \<Rightarrow> store \<Rightarrow> unit tx" where
  "queue_transfer now jid operation nchunks =
     jobs_update_one (receiving jid)
       (\<lambda>j. j\<lparr> tj_operation_id := Some operation, tj_chunks_total := nchunks, tj_state := TQueued,
               tj_updated_at := now, tj_lease_until := 0 \<rparr>)
       (InvalidManifest ''upload cannot be queued'')"

definition set_transfer_conditionals ::
  "seconds \<Rightarrow> string \<Rightarrow> TransferWriteConditionals option \<Rightarrow> store \<Rightarrow> unit tx" where
  "set_transfer_conditionals now jid conditionals =
     jobs_update_one (receiving jid)
       (\<lambda>j. j\<lparr> tj_conditionals := conditionals, tj_updated_at := now \<rparr>)
       (InvalidManifest ''transfer conditionals could not be recorded'')"

definition renew_receiving :: "seconds \<Rightarrow> string \<Rightarrow> store \<Rightarrow> bool \<times> store" where
  "renew_receiving now jid st =
     (count_where (receiving jid) (transfer_jobs st) = 1,
      jobs_update (receiving jid) (\<lambda>j. j\<lparr> tj_lease_until := now + 120, tj_updated_at := now \<rparr>) st)"

text \<open>Markers, journal entries and manifests of an upload that never became visible.\<close>

definition discard_staging_metadata :: "string \<Rightarrow> store \<Rightarrow> store" where
  "discard_staging_metadata oid st =
     delete_manifests (\<lambda>m. om_object_id m = oid \<and> om_commit_state m = Staging)
       (st\<lparr> recovery_markers := delete_where (\<lambda>m. rm_object_id m = oid) (recovery_markers st),
            operation_journal := delete_where (\<lambda>e. oj_object_id e = oid \<and> oj_state e = ''staging'')
                                   (operation_journal st) \<rparr>)"

definition fail_reception :: "seconds \<Rightarrow> string \<Rightarrow> bool \<Rightarrow> string \<Rightarrow> store \<Rightarrow> bool \<times> store" where
  "fail_reception now jid files_removed message st =
     (let changed = (count_where (receiving jid) (transfer_jobs st) = 1);
          st1 = jobs_update (receiving jid)
                  (\<lambda>j. j\<lparr> tj_state := (if files_removed then TReceptionFailed else TRecoveryRequired),
                          tj_bytes := (if files_removed then 0 else tj_bytes j), tj_lease := None,
                          tj_lease_until := 0, tj_error := Some message, tj_updated_at := now \<rparr>) st
      in (changed, if changed then discard_staging_metadata jid st1 else st1))"

definition reject_transfer_for_quota :: "seconds \<Rightarrow> string \<Rightarrow> string \<Rightarrow> store \<Rightarrow> bool \<times> store" where
  "reject_transfer_for_quota now jid message st =
     (let P = (\<lambda>j. tj_id j = jid \<and> sending_state (tj_state j));
          changed = (count_where P (transfer_jobs st) = 1);
          st1 = jobs_update P
                  (\<lambda>j. j\<lparr> tj_state := TReceptionFailed, tj_bytes := 0, tj_lease := None,
                          tj_lease_until := 0, tj_error := Some message, tj_updated_at := now \<rparr>) st
      in (changed, if changed then discard_staging_metadata jid st1 else st1))"

section \<open>Queries\<close>

definition transfer :: "string \<Rightarrow> store \<Rightarrow> transfer_row option" where
  "transfer jid st = find (\<lambda>j. tj_id j = jid) (transfer_jobs st)"

definition removal_pending :: "store \<Rightarrow> string \<Rightarrow> bool" where
  "removal_pending st oid =
     exists_where (\<lambda>(job, o'). o' = oid \<and>
        exists_where (\<lambda>r. cr_id r = job \<and> cr_state r \<in> {RPending, RRunning, RRemoteCleanupPending})
          (removal_jobs st)) (removal_objects st)"

definition transfers :: "nat \<Rightarrow> nat \<Rightarrow> store \<Rightarrow> transfer_row list" where
  "transfers limit offset st =
     take (min limit 100) (drop offset (rev (select_order
       (\<lambda>j. tj_connection_id j = active_connection_id st \<and> \<not> removal_pending st (tj_object_id j))
       tj_sequence (transfer_jobs st))))"

definition transfers_for_local_cleanup :: "nat \<Rightarrow> store \<Rightarrow> transfer_row list" where
  "transfers_for_local_cleanup limit st =
     take (min limit 100) (select_order
       (\<lambda>j. tj_state j \<in> {TCompleted, TCancelled, TReceptionFailed, TSuperseded}) tj_sequence
       (transfer_jobs st))"

definition multipart_job :: "string \<Rightarrow> store \<Rightarrow> (string \<times> nat) option" where
  "multipart_job jid st =
     map_option (\<lambda>m. (mj_upload_id m, mj_part_number m)) (find (\<lambda>m. mj_job_id m = jid) (multipart_jobs st))"

definition checkpoint_location :: "string \<Rightarrow> nat \<Rightarrow> store \<Rightarrow> TelegramLocation option" where
  "checkpoint_location jid order st =
     map_option tc_location (find (\<lambda>c. tc_job c = jid \<and> tc_order c = order) (transfer_chunks st))"


section \<open>Claiming\<close>

definition expire_receptions :: "seconds \<Rightarrow> store \<Rightarrow> store" where
  "expire_receptions now =
     jobs_update (\<lambda>j. tj_state j = TReceiving \<and> tj_lease_until j < now)
       (\<lambda>j. j\<lparr> tj_state := TRecoveryRequired,
               tj_error := Some ''Reception interrupted; upload the source file again'' \<rparr>)"

definition park_ambiguous :: "seconds \<Rightarrow> store \<Rightarrow> store" where
  "park_ambiguous now st =
     jobs_update (\<lambda>j. sending_state (tj_state j) \<and> tj_lease_until j < now \<and> unresolved st (tj_id j))
       (\<lambda>j. j\<lparr> tj_state := TRecoveryRequired, tj_lease := None, tj_lease_until := 0,
               tj_error := Some ''Telegram acknowledgement is unknown; automatic reconciliation is pending'' \<rparr>)
       st"

definition expire_attempts :: "seconds \<Rightarrow> store \<Rightarrow> store" where
  "expire_attempts now st =
     attempts_update
       (\<lambda>a. sa_state a = Sending \<and>
            exists_where (\<lambda>j. tj_id j = sa_job a \<and>
               ((tj_state j = TRecoveryRequired \<and> tj_lease j = None) \<or>
                (sending_state (tj_state j) \<and> tj_lease_until j < now))) (transfer_jobs st))
       (\<lambda>a. a\<lparr> sa_state := Unknown, sa_error_kind := Some ''lease_expired'',
               sa_error := Some ''Worker lease expired before Telegram acknowledgement'',
               sa_finished_at := Some now \<rparr>) st"

definition multipart_closed :: "store \<Rightarrow> string \<Rightarrow> bool" where
  "multipart_closed st jid =
     exists_where (\<lambda>p. mj_job_id p = jid \<and>
       exists_where (\<lambda>u. mu_upload_id u = mj_upload_id p \<and>
          ((mj_part_number p = 0 \<and> mu_state u \<notin> {Initiated, Uploading, Completing}) \<or>
           (0 < mj_part_number p \<and> mu_state u \<notin> {Initiated, Uploading}))) (multipart_uploads st))
       (multipart_jobs st)"

definition cancel_closed_multipart :: "store \<Rightarrow> store" where
  "cancel_closed_multipart st =
     jobs_update (\<lambda>j. multipart_closed st (tj_id j) \<and> tj_state j \<in> {TQueued, TRetryWait, TRecoveryRequired})
       (\<lambda>j. j\<lparr> tj_state := TCancelled, tj_lease := None, tj_lease_until := 0,
               tj_error := Some ''Multipart session closed before transfer publication'' \<rparr>) st"

definition newer_committed :: "store \<Rightarrow> transfer_row \<Rightarrow> bool" where
  "newer_committed st old =
     exists_where (\<lambda>n. tj_bucket n = tj_bucket old \<and> tj_key n = tj_key old \<and>
                       tj_sequence old < tj_sequence n \<and> tj_state n \<in> {TCompleted, TCleaned})
       (transfer_jobs st)"

definition supersede_older :: "store \<Rightarrow> store" where
  "supersede_older st =
     jobs_update (\<lambda>j. tj_state j \<in> {TQueued, TRetryWait, TUploading, TCommitting, TRecoveryRequired} \<and>
                      newer_committed st j)
       (\<lambda>j. j\<lparr> tj_state := TSuperseded, tj_lease := None, tj_lease_until := 0,
               tj_error := Some ''Superseded by a newer committed write'' \<rparr>) st"

definition older_pending :: "store \<Rightarrow> transfer_row \<Rightarrow> bool" where
  "older_pending st j =
     exists_where (\<lambda>older. tj_bucket older = tj_bucket j \<and> tj_key older = tj_key j \<and>
                           tj_sequence older < tj_sequence j \<and> \<not> terminal_state (tj_state older))
       (transfer_jobs st)"

definition claimable :: "seconds \<Rightarrow> store \<Rightarrow> transfer_row \<Rightarrow> bool" where
  "claimable now st j \<longleftrightarrow>
     ((tj_state j \<in> {TQueued, TRetryWait} \<and> tj_next_retry j \<le> now) \<or>
      (sending_state (tj_state j) \<and> tj_lease_until j < now)) \<and>
     \<not> unresolved st (tj_id j) \<and> \<not> older_pending st j"

definition recover_transfers :: "seconds \<Rightarrow> store \<Rightarrow> store" where
  "recover_transfers now st =
     supersede_older (cancel_closed_multipart (expire_attempts now (park_ambiguous now
       (expire_receptions now st))))"

definition claim_row :: "seconds \<Rightarrow> string \<Rightarrow> transfer_row \<Rightarrow> transfer_row" where
  "claim_row now lease j =
     j\<lparr> tj_state := TUploading, tj_lease := Some lease, tj_lease_until := now + 120,
        tj_attempts := Suc (tj_attempts j), tj_updated_at := now \<rparr>"

definition claim_transfer :: "seconds \<Rightarrow> string \<Rightarrow> store \<Rightarrow> transfer_row option \<times> store" where
  "claim_transfer now lease st =
     (let st1 = recover_transfers now st in
      case select_first (claimable now st1) tj_sequence (transfer_jobs st1) of
        None \<Rightarrow> (None, st1)
      | Some c \<Rightarrow>
          (let st2 = jobs_update (\<lambda>j. tj_id j = tj_id c) (claim_row now lease) st1
           in (transfer (tj_id c) st2, st2)))"

section \<open>Under the lease\<close>

definition lease_valid :: "seconds \<Rightarrow> string \<Rightarrow> string \<Rightarrow> store \<Rightarrow> bool" where
  "lease_valid now jid lease st =
     exists_where (\<lambda>j. tj_id j = jid \<and> tj_lease j = Some lease \<and> sending_state (tj_state j) \<and>
                       now \<le> tj_lease_until j) (transfer_jobs st)"

definition leased :: "string \<Rightarrow> string \<Rightarrow> transfer_row \<Rightarrow> bool" where
  "leased jid lease j \<longleftrightarrow> tj_id j = jid \<and> tj_lease j = Some lease \<and> sending_state (tj_state j)"

definition renew_transfer :: "seconds \<Rightarrow> string \<Rightarrow> string \<Rightarrow> store \<Rightarrow> bool \<times> store" where
  "renew_transfer now jid lease st =
     (count_where (leased jid lease) (transfer_jobs st) = 1,
      jobs_update (leased jid lease) (\<lambda>j. j\<lparr> tj_lease_until := now + 120, tj_updated_at := now \<rparr>) st)"

record SendAttempt =
  at_id :: string
  at_token :: string
  at_started_at :: seconds

definition attempt_token :: "string \<Rightarrow> nat \<Rightarrow> string \<Rightarrow> string" where
  "attempt_token jid order attempt =
     ''telegram-s3-'' @ jid @ ''-'' @ show_nat order @ ''-'' @ attempt"

definition begin_send_attempt ::
  "seconds \<Rightarrow> string \<Rightarrow> string \<Rightarrow> string \<Rightarrow> nat \<Rightarrow> store \<Rightarrow> SendAttempt tx" where
  "begin_send_attempt now attempt jid lease order st =
     (if \<not> lease_valid now jid lease st then Inl (InvalidManifest ''transfer lease lost'')
      else if exists_where (\<lambda>a. sa_job a = jid \<and> sa_order a = order \<and> sa_id a = attempt) (send_attempts st)
      then Inl (Sqlite ''UNIQUE constraint failed: transfer_send_attempts'')
      else Inr (\<lparr> at_id = attempt, at_token = attempt_token jid order attempt, at_started_at = now \<rparr>,
        st\<lparr> send_attempts := send_attempts st @
              [\<lparr> sa_job = jid, sa_order = order, sa_id = attempt,
                 sa_token = attempt_token jid order attempt, sa_state = Sending, sa_started_at = now,
                 sa_finished_at = None, sa_location = None, sa_error_kind = None, sa_error = None,
                 sa_retryable = False \<rparr>] \<rparr>))"

definition attempt_is :: "AttemptState \<Rightarrow> string \<Rightarrow> nat \<Rightarrow> string \<Rightarrow> attempt_row \<Rightarrow> bool" where
  "attempt_is s jid order attempt a \<longleftrightarrow>
     sa_job a = jid \<and> sa_order a = order \<and> sa_id a = attempt \<and> sa_state a = s"

definition put_checkpoint :: "string \<Rightarrow> nat \<Rightarrow> TelegramLocation \<Rightarrow> store \<Rightarrow> store" where
  "put_checkpoint jid order location st =
     st\<lparr> transfer_chunks := upsert (\<lambda>c. (tc_job c, tc_order c))
           \<lparr> tc_job = jid, tc_order = order, tc_location = location \<rparr>
           (\<lambda>c. c\<lparr> tc_location := location \<rparr>) (transfer_chunks st) \<rparr>"

definition manifest_order :: nat where "manifest_order = 4294967295"

definition count_chunks :: "seconds \<Rightarrow> string \<Rightarrow> store \<Rightarrow> store" where
  "count_chunks now jid st =
     jobs_update (\<lambda>j. tj_id j = jid)
       (\<lambda>j. j\<lparr> tj_chunks_done := count_where (\<lambda>c. tc_job c = jid \<and> tc_order c < manifest_order)
                                  (transfer_chunks st),
               tj_updated_at := now \<rparr>) st"

definition finish_send_attempt ::
  "seconds \<Rightarrow> string \<Rightarrow> string \<Rightarrow> nat \<Rightarrow> string \<Rightarrow> TelegramLocation \<Rightarrow> store \<Rightarrow> unit tx" where
  "finish_send_attempt now jid lease order attempt location st =
     (if \<not> lease_valid now jid lease st then Inl (InvalidManifest ''transfer lease lost'')
      else if count_where (attempt_is Sending jid order attempt) (send_attempts st) \<noteq> 1
      then Inl (InvalidManifest ''send attempt fence lost'')
      else Inr ((), count_chunks now jid (put_checkpoint jid order location
             (attempts_update (attempt_is Sending jid order attempt)
               (\<lambda>a. a\<lparr> sa_state := Checkpointed, sa_location := Some location, sa_finished_at := Some now,
                       sa_error_kind := None, sa_error := None, sa_retryable := False \<rparr>) st))))"

definition mark_attempt ::
  "AttemptState \<Rightarrow> bool \<Rightarrow> string \<Rightarrow> seconds \<Rightarrow> string \<Rightarrow> string \<Rightarrow> nat \<Rightarrow> string \<Rightarrow> string \<Rightarrow> string \<Rightarrow>
   store \<Rightarrow> unit tx" where
  "mark_attempt s retryable failure now jid lease order attempt error_kind error st =
     (let P = (\<lambda>a. attempt_is Sending jid order attempt a \<and>
                   exists_where (leased jid lease) (transfer_jobs st)) in
      if count_where P (send_attempts st) \<noteq> 1 then Inl (InvalidManifest failure)
      else Inr ((), attempts_update P
             (\<lambda>a. a\<lparr> sa_state := s, sa_error_kind := Some error_kind, sa_error := Some error,
                     sa_finished_at := Some now, sa_retryable := retryable \<rparr>) st))"

definition mark_send_attempt_unknown ::
  "seconds \<Rightarrow> string \<Rightarrow> string \<Rightarrow> nat \<Rightarrow> string \<Rightarrow> string \<Rightarrow> string \<Rightarrow> store \<Rightarrow> unit tx" where
  "mark_send_attempt_unknown = mark_attempt Unknown False ''send attempt could not be marked unknown''"

definition mark_send_attempt_retryable ::
  "seconds \<Rightarrow> string \<Rightarrow> string \<Rightarrow> nat \<Rightarrow> string \<Rightarrow> string \<Rightarrow> string \<Rightarrow> store \<Rightarrow> unit tx" where
  "mark_send_attempt_retryable = mark_attempt Retryable True ''send attempt could not be marked retryable''"

text \<open>The publication fence of \<open>publish_transfer\<close>.\<close>

definition enter_committing :: "seconds \<Rightarrow> string \<Rightarrow> string \<Rightarrow> store \<Rightarrow> unit tx" where
  "enter_committing now jid lease =
     jobs_update_one (\<lambda>j. tj_id j = jid \<and> tj_lease j = Some lease \<and> tj_state j = TUploading \<and>
                          now \<le> tj_lease_until j)
       (\<lambda>j. j\<lparr> tj_state := TCommitting \<rparr>) (InvalidManifest ''publication fence lost'')"

definition transfer_failed ::
  "seconds \<Rightarrow> string \<Rightarrow> string \<Rightarrow> nat option \<Rightarrow> string \<Rightarrow> store \<Rightarrow> store" where
  "transfer_failed now jid lease retry_after message st =
     (let ambiguous = unresolved st jid;
          state = (if ambiguous then TRecoveryRequired
                   else if retry_after \<noteq> None then TRetryWait else TRecoveryRequired);
          error = (if ambiguous
                   then ''Telegram acknowledgement is unknown; automatic reconciliation is pending''
                   else message);
          delay = (case retry_after of None \<Rightarrow> 0 | Some n \<Rightarrow> u64_as_i64 n)
      in jobs_update (leased jid lease)
           (\<lambda>j. j\<lparr> tj_state := state, tj_error := Some error,
                   tj_next_retry := saturating_add_i64 now delay, tj_lease := None,
                   tj_lease_until := 0, tj_updated_at := now \<rparr>) st)"

section \<open>Reconciliation\<close>

definition flood_error :: "string option \<Rightarrow> bool" where
  "flood_error e = sql_like ''%FLOOD_WAIT%'' (case e of None \<Rightarrow> [] | Some s \<Rightarrow> s)"

definition reclassify_flood_wait_attempts :: "seconds \<Rightarrow> nat \<Rightarrow> store \<Rightarrow> nat \<times> store" where
  "reclassify_flood_wait_attempts now retry_after st =
     (let retry_at = saturating_add_i64 now (u64_as_i64 (max retry_after 1));
          P = (\<lambda>a. sa_state a = Unknown \<and> flood_error (sa_error a));
          st1 = attempts_update P
                  (\<lambda>a. a\<lparr> sa_state := Retryable, sa_error_kind := Some ''telegram_flood_wait'',
                          sa_finished_at := (case sa_finished_at a of None \<Rightarrow> Some now | t \<Rightarrow> t),
                          sa_retryable := True \<rparr>) st;
          st2 = jobs_update (\<lambda>j. tj_state j = TRecoveryRequired \<and> flood_limited st1 (tj_id j))
                  (\<lambda>j. j\<lparr> tj_next_retry := max (tj_next_retry j) retry_at, tj_updated_at := now \<rparr>) st1;
          st3 = jobs_update (\<lambda>j. tj_state j = TRecoveryRequired \<and> \<not> unresolved st2 (tj_id j) \<and>
                                 flood_limited st2 (tj_id j))
                  (\<lambda>j. j\<lparr> tj_state := TRetryWait,
                          tj_error := Some ''Telegram rate limit detected; retry scheduled'',
                          tj_next_retry := max (tj_next_retry j) retry_at, tj_lease := None,
                          tj_lease_until := 0, tj_updated_at := now \<rparr>) st2
      in (count_where P (send_attempts st), st3))"

definition unresolved_send_attempts :: "string \<Rightarrow> store \<Rightarrow> attempt_row list" where
  "unresolved_send_attempts jid st =
     select_order (\<lambda>a. sa_job a = jid \<and> sa_state a = Unknown) sa_order (send_attempts st)"

definition resolve_send_attempt ::
  "seconds \<Rightarrow> string \<Rightarrow> nat \<Rightarrow> string \<Rightarrow> TelegramLocation option \<Rightarrow> string option \<Rightarrow> store \<Rightarrow> unit tx" where
  "resolve_send_attempt now jid order attempt location error st =
     (let P = attempt_is Unknown jid order attempt in
      if count_where P (send_attempts st) \<noteq> 1
      then Inl (InvalidManifest ''send attempt resolution fence lost'')
      else
        (let st1 = attempts_update P
               (\<lambda>a. a\<lparr> sa_state := (if location = None then Retryable else Checkpointed),
                       sa_location := (case location of None \<Rightarrow> sa_location a | l \<Rightarrow> l),
                       sa_error_kind := (if location = None then Some ''reconciliation_absent'' else None),
                       sa_error := error, sa_finished_at := Some now,
                       sa_retryable := (location = None) \<rparr>) st;
             st2 = (case location of None \<Rightarrow> st1 | Some l \<Rightarrow> put_checkpoint jid order l st1)
         in Inr ((), count_chunks now jid st2)))"

definition queue_after_reconciliation :: "seconds \<Rightarrow> string \<Rightarrow> store \<Rightarrow> bool \<times> store" where
  "queue_after_reconciliation now jid st =
     (let P = (\<lambda>j. tj_id j = jid \<and> tj_state j = TRecoveryRequired \<and> \<not> unresolved st jid);
          waiting = (\<lambda>j. flood_limited st (tj_id j) \<and> now < tj_next_retry j)
      in (count_where P (transfer_jobs st) = 1,
          jobs_update P
            (\<lambda>j. j\<lparr> tj_state := (if waiting j then TRetryWait else TQueued),
                    tj_error := Some (if waiting j then ''Telegram rate limit detected; retry scheduled''
                                      else ''Automatic reconciliation completed; retry scheduled''),
                    tj_next_retry := (if waiting j then tj_next_retry j else 0),
                    tj_updated_at := now \<rparr>) st))"

text \<open>
  The statement of \<open>set_transfer_error\<close> has the placeholders \<open>?\<close> (which SQLite
  numbers 1), \<open>?2\<close> and \<open>?1\<close>, two parameters, and is executed with three values.
\<close>

definition set_transfer_error :: "seconds \<Rightarrow> string \<Rightarrow> string \<Rightarrow> store \<Rightarrow> bool tx" where
  "set_transfer_error now jid message st =
     (let placeholders = [1, 2, 1 :: nat];
          values = [jid, message, show_int now];
          P = (\<lambda>j. tj_id j = values ! 0 \<and> tj_state j = TRecoveryRequired) in
      if foldr max placeholders 0 \<noteq> length values
      then Inl (Sqlite ''Wrong number of parameters passed to query'')
      else Inr (count_where P (transfer_jobs st) = 1,
                jobs_update P (\<lambda>j. j\<lparr> tj_error := Some (values ! 0) \<rparr>) st))"

section \<open>Operator actions and removal\<close>

definition cancellable :: "string \<Rightarrow> transfer_row \<Rightarrow> bool" where
  "cancellable jid j \<longleftrightarrow> tj_id j = jid \<and> tj_state j \<in> {TQueued, TRetryWait, TRecoveryRequired}"

definition retry_transfer :: "string \<Rightarrow> store \<Rightarrow> bool \<times> store" where
  "retry_transfer jid st =
     (let P = (\<lambda>j. tj_id j = jid \<and> tj_state j \<in> {TRetryWait, TRecoveryRequired} \<and>
                   tj_operation_id j \<noteq> None \<and> \<not> unresolved st jid)
      in (count_where P (transfer_jobs st) = 1,
          jobs_update P (\<lambda>j. j\<lparr> tj_state := TQueued, tj_error := None, tj_next_retry := 0 \<rparr>) st))"

definition cancel_transfer :: "seconds \<Rightarrow> string \<Rightarrow> store \<Rightarrow> bool \<times> store" where
  "cancel_transfer now jid st =
     (case find (cancellable jid) (transfer_jobs st) of
        None \<Rightarrow> (False, st)
      | Some job \<Rightarrow>
          (let oid = tj_object_id job;
               conn = active_connection_id st;
               locations = map tc_location (filter (\<lambda>c. tc_job c = jid) (transfer_chunks st));
               st1 = (if locations = [] then st
                      else fold (\<lambda>l s. enqueue_target oid conn (loc_peer_id l) (loc_message_id l) Message now s)
                             locations (enqueue_target oid conn (evidence_peer oid) 0 Evidence now st))
           in (count_where (cancellable jid) (transfer_jobs st1) = 1,
               jobs_update (cancellable jid)
                 (\<lambda>j. j\<lparr> tj_state := TCancelled,
                         tj_error := Some ''Cancelled; staged data queued for local discard'',
                         tj_lease := None, tj_lease_until := 0, tj_updated_at := now \<rparr>) st1)))"

definition transfer_action :: "seconds \<Rightarrow> string \<Rightarrow> string \<Rightarrow> store \<Rightarrow> bool \<times> store" where
  "transfer_action now jid action st =
     (if action = ''retry'' then retry_transfer jid st
      else if action \<noteq> ''cancel'' then (False, st)
      else cancel_transfer now jid st)"

text \<open>The state change of \<open>cleanup_completed_staging\<close> once the staged files are gone.\<close>

definition mark_cleaned :: "string \<Rightarrow> store \<Rightarrow> store" where
  "mark_cleaned jid =
     jobs_update (\<lambda>j. tj_id j = jid \<and>
                      tj_state j \<in> {TCompleted, TCancelled, TReceptionFailed, TSuperseded})
       (\<lambda>j. j\<lparr> tj_state := TCleaned, tj_bytes := 0 \<rparr>)"

definition purge_connection_operations :: "string \<Rightarrow> store \<Rightarrow> store" where
  "purge_connection_operations conn st =
     (let jobs = map tj_id (filter (\<lambda>j. tj_connection_id j = conn) (transfer_jobs st));
          uploads = map mu_upload_id (filter (\<lambda>u. mu_connection_id u = conn) (multipart_uploads st))
      in st\<lparr> send_attempts := delete_where (\<lambda>a. sa_job a \<in> set jobs) (send_attempts st),
             transfer_chunks := delete_where (\<lambda>c. tc_job c \<in> set jobs) (transfer_chunks st),
             multipart_jobs := delete_where (\<lambda>m. mj_job_id m \<in> set jobs) (multipart_jobs st),
             transfer_jobs := delete_where (\<lambda>j. tj_connection_id j = conn) (transfer_jobs st),
             multipart_parts := delete_where (\<lambda>p. pr_upload_id p \<in> set uploads) (multipart_parts st),
             multipart_uploads := delete_where (\<lambda>u. mu_connection_id u = conn) (multipart_uploads st) \<rparr>)"


section \<open>The transfer invariant\<close>

text \<open>
  Jobs have unique identifiers and sequence numbers, exactly the jobs being
  uploaded or committed carry a lease, a job that is waiting to be claimed has
  no send attempt whose outcome is open, attempts belong to jobs, and every
  acknowledged attempt has its checkpoint.
\<close>

definition job_ok :: "store \<Rightarrow> transfer_row \<Rightarrow> bool" where
  "job_ok st j \<longleftrightarrow>
     tj_sequence j \<le> transfer_sequence st \<and>
     (tj_lease j \<noteq> None \<longleftrightarrow> sending_state (tj_state j)) \<and>
     (tj_state j \<in> {TReceiving, TQueued, TRetryWait} \<longrightarrow> \<not> unresolved st (tj_id j))"

definition attempt_ok :: "store \<Rightarrow> attempt_row \<Rightarrow> bool" where
  "attempt_ok st a \<longleftrightarrow>
     sa_job a \<in> tj_id ` set (transfer_jobs st) \<and>
     (sa_state a = Checkpointed \<longrightarrow> checkpoint_location (sa_job a) (sa_order a) st \<noteq> None)"

definition jobs_wf :: "store \<Rightarrow> bool" where
  "jobs_wf st \<longleftrightarrow>
     distinct (map tj_id (transfer_jobs st)) \<and> distinct (map tj_sequence (transfer_jobs st)) \<and>
     list_all (job_ok st) (transfer_jobs st) \<and> list_all (attempt_ok st) (send_attempts st)"

definition same_job_id :: "transfer_row \<Rightarrow> transfer_row \<Rightarrow> bool" where
  "same_job_id j j' \<longleftrightarrow> tj_id j' = tj_id j \<and> tj_sequence j' = tj_sequence j"

lemma unresolved_iff:
  "unresolved st jid \<longleftrightarrow>
   (\<exists>a \<in> set (send_attempts st). sa_job a = jid \<and> (sa_state a = Sending \<or> sa_state a = Unknown))"
  by (simp add: unresolved_def)

lemma jobs_update_other [simp]:
  "transfer_jobs (jobs_update P f st) = update_where P f (transfer_jobs st)"
  "transfer_sequence (jobs_update P f st) = transfer_sequence st"
  "send_attempts (jobs_update P f st) = send_attempts st"
  "transfer_chunks (jobs_update P f st) = transfer_chunks st"
  "unresolved (jobs_update P f st) jid = unresolved st jid"
  "checkpoint_location jid order (jobs_update P f st) = checkpoint_location jid order st"
  by (simp_all add: jobs_update_def unresolved_def checkpoint_location_def)

lemma jobs_wf_jobs_update:
  assumes wf: "jobs_wf st"
    and same: "\<And>j. P j \<Longrightarrow> same_job_id j (f j)"
    and ok: "\<And>j. j \<in> set (transfer_jobs st) \<Longrightarrow> P j \<Longrightarrow> job_ok st j \<Longrightarrow> job_ok st (f j)"
  shows "jobs_wf (jobs_update P f st)"
proof -
  let ?st = "jobs_update P f st"
  have ids: "map tj_id (transfer_jobs ?st) = map tj_id (transfer_jobs st)"
      "map tj_sequence (transfer_jobs ?st) = map tj_sequence (transfer_jobs st)"
    using same by (simp_all add: same_job_id_def map_update_where_same)
  have eq: "job_ok ?st = job_ok st" by (auto simp: job_ok_def fun_eq_iff)
  have "job_ok st (if P j then f j else j)" if "j \<in> set (transfer_jobs st)" for j
    using wf ok that by (auto simp: jobs_wf_def list_all_iff)
  hence "list_all (job_ok ?st) (transfer_jobs ?st)"
    unfolding eq list_all_iff jobs_update_other
    by (auto simp: mem_update_where simp del: if_image_distrib)
  moreover have "tj_id ` set (transfer_jobs ?st) = tj_id ` set (transfer_jobs st)"
    using ids(1) by (metis list.set_map)
  hence "attempt_ok ?st = attempt_ok st" by (auto simp: attempt_ok_def fun_eq_iff)
  ultimately show ?thesis using wf ids by (simp add: jobs_wf_def)
qed

text \<open>The invariant reads only the job, attempt and checkpoint tables.\<close>

lemma jobs_wf_cong:
  assumes "transfer_jobs st' = transfer_jobs st" "transfer_sequence st' = transfer_sequence st"
    "send_attempts st' = send_attempts st" "transfer_chunks st' = transfer_chunks st"
  shows "jobs_wf st' = jobs_wf st"
  using assms by (simp add: jobs_wf_def job_ok_def attempt_ok_def unresolved_def checkpoint_location_def
      cong: list.pred_cong)

lemma attempts_update_other [simp]:
  "transfer_jobs (attempts_update P f st) = transfer_jobs st"
  "transfer_sequence (attempts_update P f st) = transfer_sequence st"
  "send_attempts (attempts_update P f st) = update_where P f (send_attempts st)"
  "transfer_chunks (attempts_update P f st) = transfer_chunks st"
  "checkpoint_location jid order (attempts_update P f st) = checkpoint_location jid order st"
  by (simp_all add: attempts_update_def checkpoint_location_def)

lemma unresolved_attempts_update:
  assumes "\<And>a. P a \<Longrightarrow> sa_job (f a) = sa_job a"
    and "\<And>a. P a \<Longrightarrow> sa_state (f a) \<in> {Sending, Unknown} \<Longrightarrow> sa_state a \<in> {Sending, Unknown}"
    and "unresolved (attempts_update P f st) jid"
  shows "unresolved st jid"
proof -
  obtain a where "a \<in> set (send_attempts st)" "sa_job (if P a then f a else a) = jid"
      "sa_state (if P a then f a else a) \<in> {Sending, Unknown}"
    using assms(3) by (auto simp: unresolved_iff bex_update_where)
  thus ?thesis using assms(1,2)[of a] by (auto simp: unresolved_iff split: if_splits)
qed

lemma jobs_wf_attempts_update:
  assumes wf: "jobs_wf st"
    and job: "\<And>a. P a \<Longrightarrow> sa_job (f a) = sa_job a"
    and open_: "\<And>a. P a \<Longrightarrow> sa_state (f a) \<in> {Sending, Unknown} \<Longrightarrow> sa_state a \<in> {Sending, Unknown}"
    and done_: "\<And>a. P a \<Longrightarrow> sa_state (f a) = Checkpointed \<Longrightarrow>
      checkpoint_location (sa_job a) (sa_order (f a)) st \<noteq> None"
  shows "jobs_wf (attempts_update P f st)"
proof -
  let ?st = "attempts_update P f st"
  have un: "unresolved ?st jid \<Longrightarrow> unresolved st jid" for jid
    using unresolved_attempts_update[OF job open_] .
  have "list_all (job_ok ?st) (transfer_jobs ?st)"
    using wf un by (auto simp: jobs_wf_def list_all_iff job_ok_def)
  moreover have "attempt_ok st (if P a then f a else a)" if "a \<in> set (send_attempts st)" for a
    using wf that job[of a] done_[of a] by (auto simp: jobs_wf_def list_all_iff attempt_ok_def)
  hence "list_all (attempt_ok ?st) (send_attempts ?st)"
    by (auto simp: list_all_iff mem_update_where attempt_ok_def simp del: if_image_distrib)
  ultimately show ?thesis using wf by (simp add: jobs_wf_def)
qed


subsection \<open>Every operation keeps it\<close>

named_theorems jobs_wf_ops \<open>preservation of the transfer invariant\<close>

lemma jobs_wf_jobs_update_one:
  assumes "jobs_wf st" "jobs_update_one P f err st = Inr (u, st')"
    and "\<And>j. P j \<Longrightarrow> same_job_id j (f j)"
    and "\<And>j. P j \<Longrightarrow> job_ok st j \<Longrightarrow> job_ok st (f j)"
  shows "jobs_wf st'"
proof -
  have "st' = jobs_update P f st" using assms(2) by (simp add: jobs_update_one_def split: if_splits)
  thus ?thesis using jobs_wf_jobs_update[OF assms(1)] assms(3,4) by simp
qed

lemmas job_row_simps = same_job_id_def job_ok_def sending_state_def

lemma jobs_wf_begin_transfer:
  assumes wf: "jobs_wf st" and st': "begin_transfer now jid b k st = Inr (i, st')"
  shows "jobs_wf st'"
proof -
  have new: "jid \<notin> tj_id ` set (transfer_jobs st)"
    using st' by (auto simp: begin_transfer_def split: if_splits)
  obtain j where j: "transfer_jobs st' = transfer_jobs st @ [j]" "tj_id j = jid" "tj_state j = TReceiving"
      "tj_lease j = None" "tj_sequence j = Suc (transfer_sequence st)"
    and rest: "transfer_sequence st' = Suc (transfer_sequence st)" "send_attempts st' = send_attempts st"
      "transfer_chunks st' = transfer_chunks st"
    using st' by (auto simp: begin_transfer_def split: if_splits)
  have un: "unresolved st' = unresolved st" using rest by (simp add: unresolved_def fun_eq_iff)
  have "\<not> unresolved st jid"
    using wf new by (auto simp: unresolved_iff jobs_wf_def list_all_iff attempt_ok_def)
  hence "list_all (job_ok st') (transfer_jobs st')"
    using wf j rest un by (auto simp: jobs_wf_def list_all_iff job_ok_def sending_state_def)
  moreover have "list_all (attempt_ok st') (send_attempts st')"
    using wf j rest by (auto simp: jobs_wf_def list_all_iff attempt_ok_def checkpoint_location_def)
  moreover have "Suc (transfer_sequence st) \<notin> tj_sequence ` set (transfer_jobs st)"
    using wf by (force simp: jobs_wf_def list_all_iff job_ok_def)
  ultimately show ?thesis using wf j new by (simp add: jobs_wf_def)
qed

lemma jobs_wf_admission:
  "jobs_wf st \<Longrightarrow> reserve_staging now jid n budget st = Inr (u, st') \<Longrightarrow> jobs_wf st'"
  "jobs_wf st \<Longrightarrow> queue_transfer now jid opn m st = Inr (u, st') \<Longrightarrow> jobs_wf st'"
  "jobs_wf st \<Longrightarrow> set_transfer_conditionals now jid c st = Inr (u, st') \<Longrightarrow> jobs_wf st'"
  unfolding reserve_staging_def queue_transfer_def set_transfer_conditionals_def
  by (auto split: if_splits elim!: jobs_wf_jobs_update_one simp: job_row_simps receiving_def)

lemma jobs_wf_renew_receiving [jobs_wf_ops]: "jobs_wf st \<Longrightarrow> jobs_wf (snd (renew_receiving now jid st))"
  by (auto simp: renew_receiving_def job_row_simps receiving_def intro!: jobs_wf_jobs_update)

lemma discard_staging_metadata_jobs [simp]:
  "transfer_jobs (discard_staging_metadata oid st) = transfer_jobs st"
  "transfer_sequence (discard_staging_metadata oid st) = transfer_sequence st"
  "send_attempts (discard_staging_metadata oid st) = send_attempts st"
  "transfer_chunks (discard_staging_metadata oid st) = transfer_chunks st"
  by (simp_all add: discard_staging_metadata_def delete_manifests_def Let_def)

lemma jobs_wf_discard [simp]: "jobs_wf (discard_staging_metadata oid st) = jobs_wf st"
  by (rule jobs_wf_cong) simp_all

lemma jobs_wf_fail_reception [jobs_wf_ops]: "jobs_wf st \<Longrightarrow> jobs_wf (snd (fail_reception now jid r m st))"
  by (auto simp: fail_reception_def Let_def job_row_simps receiving_def intro!: jobs_wf_jobs_update)

lemma jobs_wf_reject [jobs_wf_ops]: "jobs_wf st \<Longrightarrow> jobs_wf (snd (reject_transfer_for_quota now jid m st))"
  by (auto simp: reject_transfer_for_quota_def Let_def job_row_simps intro!: jobs_wf_jobs_update)

lemma jobs_wf_recover_jobs:
  "jobs_wf st \<Longrightarrow> jobs_wf (expire_receptions now st)"
  "jobs_wf st \<Longrightarrow> jobs_wf (park_ambiguous now st)"
  "jobs_wf st \<Longrightarrow> jobs_wf (cancel_closed_multipart st)"
  "jobs_wf st \<Longrightarrow> jobs_wf (supersede_older st)"
  unfolding expire_receptions_def park_ambiguous_def cancel_closed_multipart_def supersede_older_def
  by (rule jobs_wf_jobs_update, auto simp: job_row_simps)+

lemma jobs_wf_expire_attempts: "jobs_wf st \<Longrightarrow> jobs_wf (expire_attempts now st)"
  unfolding expire_attempts_def by (rule jobs_wf_attempts_update) auto

lemmas jobs_wf_recover_steps = jobs_wf_recover_jobs jobs_wf_expire_attempts

lemma jobs_wf_recover: "jobs_wf st \<Longrightarrow> jobs_wf (recover_transfers now st)"
  unfolding recover_transfers_def by (intro jobs_wf_recover_steps)

lemma jobs_wf_claim [jobs_wf_ops]:
  assumes "jobs_wf st"
  shows "jobs_wf (snd (claim_transfer now lease st))"
proof -
  let ?st = "recover_transfers now st"
  have "jobs_wf (jobs_update (\<lambda>j. tj_id j = tj_id c) (claim_row now lease) ?st)" for c :: transfer_row
    by (rule jobs_wf_jobs_update[OF jobs_wf_recover[OF assms]]) (auto simp: job_row_simps claim_row_def)
  thus ?thesis using jobs_wf_recover[OF assms]
    by (simp add: claim_transfer_def Let_def split: option.split)
qed

lemma jobs_wf_renew [jobs_wf_ops]: "jobs_wf st \<Longrightarrow> jobs_wf (snd (renew_transfer now jid lease st))"
  by (auto simp: renew_transfer_def job_row_simps leased_def intro!: jobs_wf_jobs_update)

lemma jobs_wf_begin_send:
  assumes wf: "jobs_wf st" and st': "begin_send_attempt now attempt jid lease order st = Inr (u, st')"
  shows "jobs_wf st'"
proof -
  obtain j where j: "j \<in> set (transfer_jobs st)" "tj_id j = jid" "sending_state (tj_state j)"
    using st' by (auto simp: begin_send_attempt_def lease_valid_def split: if_splits)
  obtain a where a: "send_attempts st' = send_attempts st @ [a]" "sa_job a = jid" "sa_state a = Sending"
    and rest: "transfer_jobs st' = transfer_jobs st" "transfer_sequence st' = transfer_sequence st"
      "transfer_chunks st' = transfer_chunks st"
    using st' by (auto simp: begin_send_attempt_def split: if_splits)
  have other: "unresolved st' i = unresolved st i" if "i \<noteq> jid" for i
    using that a by (auto simp: unresolved_iff)
  have only: "j' = j" if "j' \<in> set (transfer_jobs st)" "tj_id j' = jid" for j'
    using wf that j distinct_key_eq[of tj_id "transfer_jobs st" j' j] by (simp add: jobs_wf_def)
  have "job_ok st' j'" if j': "j' \<in> set (transfer_jobs st)" for j'
  proof (cases "tj_id j' = jid")
    case True
    thus ?thesis using wf j only[OF j' True] rest(2)
      by (auto simp: jobs_wf_def list_all_iff job_ok_def sending_state_def)
  next
    case False
    thus ?thesis using wf j' other[OF False] rest(2) by (auto simp: jobs_wf_def list_all_iff job_ok_def)
  qed
  moreover have "list_all (attempt_ok st') (send_attempts st')"
    using wf a imageI[OF j(1), of tj_id] j(2) rest by (auto simp: jobs_wf_def list_all_iff attempt_ok_def checkpoint_location_def)
  ultimately show ?thesis using wf rest by (simp add: jobs_wf_def list_all_iff)
qed

lemma checkpoint_put:
  "checkpoint_location i n (put_checkpoint jid order location st) =
   (if i = jid \<and> n = order then Some location else checkpoint_location i n st)"
proof -
  have rows: "transfer_chunks (put_checkpoint jid order location st) =
    upsert (\<lambda>c. (tc_job c, tc_order c)) \<lparr> tc_job = jid, tc_order = order, tc_location = location \<rparr>
      (\<lambda>c. c\<lparr> tc_location := location \<rparr>) (transfer_chunks st)"
    by (simp add: put_checkpoint_def)
  have "find (\<lambda>c. (tc_job c, tc_order c) = (i, n)) (transfer_chunks (put_checkpoint jid order location st)) =
    (if (i, n) = (jid, order)
     then (case find (\<lambda>c. (tc_job c, tc_order c) = (i, n)) (transfer_chunks st) of
             None \<Rightarrow> Some \<lparr> tc_job = jid, tc_order = order, tc_location = location \<rparr>
           | Some z \<Rightarrow> Some (z\<lparr> tc_location := location \<rparr>))
     else find (\<lambda>c. (tc_job c, tc_order c) = (i, n)) (transfer_chunks st))"
    unfolding rows by (subst find_upsert) simp_all
  thus ?thesis
    by (cases "i = jid \<and> n = order"; cases "find (\<lambda>c. tc_job c = i \<and> tc_order c = n) (transfer_chunks st)")
      (auto simp: checkpoint_location_def)
qed

lemma put_checkpoint_other [simp]:
  "transfer_jobs (put_checkpoint jid order location st) = transfer_jobs st"
  "transfer_sequence (put_checkpoint jid order location st) = transfer_sequence st"
  "send_attempts (put_checkpoint jid order location st) = send_attempts st"
  "unresolved (put_checkpoint jid order location st) i = unresolved st i"
  by (simp_all add: put_checkpoint_def unresolved_def)

lemma jobs_wf_put_checkpoint: "jobs_wf st \<Longrightarrow> jobs_wf (put_checkpoint jid order location st)"
  by (auto simp: jobs_wf_def list_all_iff job_ok_def attempt_ok_def checkpoint_put)

lemma jobs_wf_count_chunks: "jobs_wf st \<Longrightarrow> jobs_wf (count_chunks now jid st)"
  by (auto simp: count_chunks_def job_row_simps intro!: jobs_wf_jobs_update)

text \<open>Attempts and checkpoints may be written in either order.\<close>

lemma put_checkpoint_attempts_update:
  "put_checkpoint jid order location (attempts_update P f st) =
   attempts_update P f (put_checkpoint jid order location st)"
  by (simp add: put_checkpoint_def attempts_update_def)

lemma jobs_wf_finish_send:
  assumes wf: "jobs_wf st" and st': "finish_send_attempt now jid lease order attempt location st = Inr (u, st')"
  shows "jobs_wf st'"
proof -
  have "st' = count_chunks now jid (attempts_update (attempt_is Sending jid order attempt)
      (\<lambda>a. a\<lparr> sa_state := Checkpointed, sa_location := Some location, sa_finished_at := Some now,
              sa_error_kind := None, sa_error := None, sa_retryable := False \<rparr>)
      (put_checkpoint jid order location st))"
    using st' by (simp add: finish_send_attempt_def put_checkpoint_attempts_update split: if_splits)
  moreover have "jobs_wf (attempts_update (attempt_is Sending jid order attempt)
      (\<lambda>a. a\<lparr> sa_state := Checkpointed, sa_location := Some location, sa_finished_at := Some now,
              sa_error_kind := None, sa_error := None, sa_retryable := False \<rparr>)
      (put_checkpoint jid order location st))"
    by (rule jobs_wf_attempts_update[OF jobs_wf_put_checkpoint[OF wf]])
      (auto simp: attempt_is_def checkpoint_put)
  ultimately show ?thesis using jobs_wf_count_chunks by simp
qed


lemma jobs_wf_mark_attempt:
  assumes "jobs_wf st" "mark_attempt s r failure now jid lease order attempt k e st = Inr (u, st')"
    "s \<noteq> Checkpointed"
  shows "jobs_wf st'"
proof -
  have "st' = attempts_update (\<lambda>a. attempt_is Sending jid order attempt a \<and>
                   exists_where (leased jid lease) (transfer_jobs st))
      (\<lambda>a. a\<lparr> sa_state := s, sa_error_kind := Some k, sa_error := Some e,
              sa_finished_at := Some now, sa_retryable := r \<rparr>) st"
    using assms(2) by (simp add: mark_attempt_def Let_def split: if_splits)
  thus ?thesis using assms(3)
    by simp (rule jobs_wf_attempts_update[OF assms(1)], auto simp: attempt_is_def)
qed

lemma jobs_wf_marks:
  "jobs_wf st \<Longrightarrow> mark_send_attempt_unknown now jid lease order attempt k e st = Inr (u, st') \<Longrightarrow> jobs_wf st'"
  "jobs_wf st \<Longrightarrow> mark_send_attempt_retryable now jid lease order attempt k e st = Inr (u, st') \<Longrightarrow> jobs_wf st'"
  unfolding mark_send_attempt_unknown_def mark_send_attempt_retryable_def
  by (rule jobs_wf_mark_attempt, assumption+, simp)+

lemma jobs_wf_enter_committing:
  assumes "jobs_wf st" "enter_committing now jid lease st = Inr (u, st')"
  shows "jobs_wf st'"
  by (rule jobs_wf_jobs_update_one[OF assms(1) assms(2)[unfolded enter_committing_def]])
    (auto simp: job_row_simps)

lemma jobs_wf_transfer_failed [jobs_wf_ops]:
  "jobs_wf st \<Longrightarrow> jobs_wf (transfer_failed now jid lease retry_after m st)"
  unfolding transfer_failed_def Let_def
  by (rule jobs_wf_jobs_update) (auto simp: job_row_simps leased_def)

lemma jobs_wf_reclassify [jobs_wf_ops]:
  assumes "jobs_wf st"
  shows "jobs_wf (snd (reclassify_flood_wait_attempts now n st))"
  unfolding reclassify_flood_wait_attempts_def Let_def snd_conv
  by (rule jobs_wf_jobs_update, rule jobs_wf_jobs_update, rule jobs_wf_attempts_update[OF assms])
    (auto simp: job_row_simps)

lemma jobs_wf_resolve_send:
  assumes wf: "jobs_wf st" and st': "resolve_send_attempt now jid order attempt location e st = Inr (u, st')"
  shows "jobs_wf st'"
proof -
  let ?f = "\<lambda>a. a\<lparr> sa_state := (if location = None then Retryable else Checkpointed),
                       sa_location := (case location of None \<Rightarrow> sa_location a | l \<Rightarrow> l),
                       sa_error_kind := (if location = None then Some ''reconciliation_absent'' else None),
                       sa_error := e, sa_finished_at := Some now, sa_retryable := (location = None) \<rparr>"
  let ?base = "case location of None \<Rightarrow> st | Some l \<Rightarrow> put_checkpoint jid order l st"
  have "st' = count_chunks now jid (attempts_update (attempt_is Unknown jid order attempt) ?f ?base)"
    using st' by (cases location)
      (simp_all add: resolve_send_attempt_def Let_def put_checkpoint_attempts_update split: if_splits)
  moreover have "jobs_wf ?base" using wf jobs_wf_put_checkpoint by (simp split: option.split)
  hence "jobs_wf (attempts_update (attempt_is Unknown jid order attempt) ?f ?base)"
    by (rule jobs_wf_attempts_update) (cases location; auto simp: attempt_is_def checkpoint_put)+
  ultimately show ?thesis using jobs_wf_count_chunks by simp
qed

lemma jobs_wf_requeue [jobs_wf_ops]:
  "jobs_wf st \<Longrightarrow> jobs_wf (snd (queue_after_reconciliation now jid st))"
  "jobs_wf st \<Longrightarrow> jobs_wf (snd (retry_transfer jid st))"
  unfolding queue_after_reconciliation_def retry_transfer_def Let_def snd_conv
  by (rule jobs_wf_jobs_update, auto simp: job_row_simps)+

lemma enqueue_target_jobs [simp]:
  "transfer_jobs (enqueue_target oid conn peer msg kind due st) = transfer_jobs st"
  "transfer_sequence (enqueue_target oid conn peer msg kind due st) = transfer_sequence st"
  "send_attempts (enqueue_target oid conn peer msg kind due st) = send_attempts st"
  "transfer_chunks (enqueue_target oid conn peer msg kind due st) = transfer_chunks st"
  by (simp_all add: enqueue_target_def)

lemma fold_enqueue_jobs [simp]:
  "transfer_jobs (fold (\<lambda>l s. enqueue_target oid conn (p l) (m l) kind due s) ls st) = transfer_jobs st"
  "transfer_sequence (fold (\<lambda>l s. enqueue_target oid conn (p l) (m l) kind due s) ls st) = transfer_sequence st"
  "send_attempts (fold (\<lambda>l s. enqueue_target oid conn (p l) (m l) kind due s) ls st) = send_attempts st"
  "transfer_chunks (fold (\<lambda>l s. enqueue_target oid conn (p l) (m l) kind due s) ls st) = transfer_chunks st"
  by (induction ls arbitrary: st) simp_all

lemma jobs_wf_cancel [jobs_wf_ops]: "jobs_wf st \<Longrightarrow> jobs_wf (snd (cancel_transfer now jid st))"
proof (cases "find (cancellable jid) (transfer_jobs st)")
  case (Some job)
  assume wf: "jobs_wf st"
  let ?st1 = "if map tc_location (filter (\<lambda>c. tc_job c = jid) (transfer_chunks st)) = [] then st
     else fold (\<lambda>l s. enqueue_target (tj_object_id job) (active_connection_id st) (loc_peer_id l)
                        (loc_message_id l) Message now s)
            (map tc_location (filter (\<lambda>c. tc_job c = jid) (transfer_chunks st)))
            (enqueue_target (tj_object_id job) (active_connection_id st) (evidence_peer (tj_object_id job)) 0
               Evidence now st)"
  have "jobs_wf ?st1 = jobs_wf st" by (rule jobs_wf_cong) (simp_all del: fold.simps)
  hence "jobs_wf (jobs_update (cancellable jid)
       (\<lambda>j. j\<lparr> tj_state := TCancelled,
               tj_error := Some ''Cancelled; staged data queued for local discard'',
               tj_lease := None, tj_lease_until := 0, tj_updated_at := now \<rparr>) ?st1)"
    using wf by (intro jobs_wf_jobs_update) (auto simp: job_row_simps)
  thus ?thesis using Some by (simp add: cancel_transfer_def Let_def)
qed (simp add: cancel_transfer_def)

lemma jobs_wf_action [jobs_wf_ops]: "jobs_wf st \<Longrightarrow> jobs_wf (snd (transfer_action now jid act st))"
  by (simp add: transfer_action_def jobs_wf_ops)

lemma jobs_wf_cleaned [jobs_wf_ops]: "jobs_wf st \<Longrightarrow> jobs_wf (mark_cleaned jid st)"
  unfolding mark_cleaned_def by (rule jobs_wf_jobs_update) (auto simp: job_row_simps)

lemma jobs_wf_purge [jobs_wf_ops]:
  assumes wf: "jobs_wf st"
  shows "jobs_wf (purge_connection_operations conn st)" (is "jobs_wf ?st")
proof -
  let ?jobs = "tj_id ` {j \<in> set (transfer_jobs st). tj_connection_id j = conn}"
  have tables: "transfer_jobs ?st = delete_where (\<lambda>j. tj_connection_id j = conn) (transfer_jobs st)"
      "send_attempts ?st = delete_where (\<lambda>a. sa_job a \<in> ?jobs) (send_attempts st)"
      "transfer_chunks ?st = delete_where (\<lambda>c. tc_job c \<in> ?jobs) (transfer_chunks st)"
      "transfer_sequence ?st = transfer_sequence st"
    by (auto simp: purge_connection_operations_def Let_def)
  have un: "unresolved ?st jid \<Longrightarrow> unresolved st jid" for jid
    by (auto simp: unresolved_iff tables table_simps)
  have keep: "find (\<lambda>c. tc_job c = i \<and> tc_order c = n) (delete_where (\<lambda>c. tc_job c \<in> ?jobs) cs) =
      find (\<lambda>c. tc_job c = i \<and> tc_order c = n) cs" if "i \<notin> ?jobs" for i n and cs :: "chunk_row list"
    using that by (induction cs) (auto simp: delete_where_def)
  have "attempt_ok ?st a" if "a \<in> set (send_attempts ?st)" for a
  proof -
    have a: "a \<in> set (send_attempts st)" "sa_job a \<notin> ?jobs"
      using that unfolding tables by (simp_all add: mem_delete_where)
    hence ok: "attempt_ok st a" using wf by (simp add: jobs_wf_def list_all_iff)
    then obtain j where j: "j \<in> set (transfer_jobs st)" "sa_job a = tj_id j"
      by (auto simp: attempt_ok_def)
    hence "tj_connection_id j \<noteq> conn" using a(2) by blast
    hence "sa_job a \<in> tj_id ` set (transfer_jobs ?st)"
      using j unfolding tables by (simp add: mem_delete_where)
    thus ?thesis using ok keep[OF a(2)] by (simp add: attempt_ok_def checkpoint_location_def tables(3))
  qed
  hence "list_all (attempt_ok ?st) (send_attempts ?st)" by (simp add: list_all_iff)
  moreover have "list_all (job_ok ?st) (transfer_jobs ?st)"
    using wf un by (auto simp: jobs_wf_def list_all_iff job_ok_def tables table_simps)
  ultimately show ?thesis
    using wf by (simp add: jobs_wf_def tables distinct_map_delete_where)
qed

section \<open>The staging budget\<close>

definition counted :: "transfer_row \<Rightarrow> bool" where
  "counted j \<longleftrightarrow> tj_state j \<notin> {TCompleted, TCleaned}"

lemma staged_bytes_alt: "staged_bytes st = sum_where counted tj_bytes (transfer_jobs st)"
  by (simp add: staged_bytes_def counted_def[abs_def])

definition shrinks :: "(transfer_row \<Rightarrow> bool) \<Rightarrow> (transfer_row \<Rightarrow> transfer_row) \<Rightarrow> bool" where
  "shrinks P f \<longleftrightarrow> (\<forall>j. P j \<longrightarrow> counted (f j) \<longrightarrow> counted j \<and> tj_bytes (f j) \<le> tj_bytes j)"

lemma sum_where_shrinks:
  assumes "shrinks P f"
  shows "sum_where counted tj_bytes (update_where P f rows) \<le> sum_where counted tj_bytes rows"
proof (induction rows)
  case (Cons j rows)
  thus ?case using assms by (auto simp: shrinks_def intro: add_mono trans_le_add2)
qed simp

lemma staged_bytes_jobs_update: "shrinks P f \<Longrightarrow> staged_bytes (jobs_update P f st) \<le> staged_bytes st"
  by (simp add: staged_bytes_alt sum_where_shrinks)

lemma staged_bytes_cong: "transfer_jobs st' = transfer_jobs st \<Longrightarrow> staged_bytes st' = staged_bytes st"
  by (simp add: staged_bytes_def)

lemma sum_where_add:
  assumes "\<And>j. P j \<Longrightarrow> counted j \<and> counted (f j) \<and> tj_bytes (f j) = tj_bytes j + n"
  shows "sum_where counted tj_bytes (update_where P f rows) =
         sum_where counted tj_bytes rows + count_where P rows * n"
  by (induction rows) (use assms in \<open>auto simp: count_where_def\<close>)

lemma reserve_staging_exact:
  assumes "reserve_staging now jid n budget st = Inr (u, st')"
  shows "staged_bytes st' = staged_bytes st + n" "saturating_add_u64 (staged_bytes st) n \<le> budget"
proof -
  let ?f = "\<lambda>j. j\<lparr> tj_bytes := tj_bytes j + n, tj_updated_at := now, tj_lease_until := now + 120 \<rparr>"
  have c: "count_where (receiving jid) (transfer_jobs st) = 1" and st': "st' = jobs_update (receiving jid) ?f st"
    using assms by (auto simp: reserve_staging_def jobs_update_one_def split: if_splits)
  have "sum_where counted tj_bytes (update_where (receiving jid) ?f (transfer_jobs st)) =
        sum_where counted tj_bytes (transfer_jobs st) + count_where (receiving jid) (transfer_jobs st) * n"
    by (rule sum_where_add) (auto simp: receiving_def counted_def)
  thus "staged_bytes st' = staged_bytes st + n" by (simp add: st' staged_bytes_alt c)
  show "saturating_add_u64 (staged_bytes st) n \<le> budget"
    using assms by (simp add: reserve_staging_def split: if_splits)
qed

lemma jobs_update_one_bytes:
  "jobs_update_one P f err st = Inr (u, st') \<Longrightarrow> shrinks P f \<Longrightarrow> staged_bytes st' \<le> staged_bytes st"
  by (auto simp: jobs_update_one_def staged_bytes_jobs_update split: if_splits)

named_theorems bytes_ops \<open>operations that never add to the staged bytes\<close>

lemmas shrink_simps = shrinks_def counted_def sending_state_def receiving_def leased_def cancellable_def

lemma begin_transfer_bytes:
  "begin_transfer now jid b k st = Inr (i, st') \<Longrightarrow> staged_bytes st' = staged_bytes st"
  by (auto simp: begin_transfer_def staged_bytes_def split: if_splits)

lemma recover_bytes: "staged_bytes (recover_transfers now st) \<le> staged_bytes st"
proof -
  have 1: "staged_bytes (supersede_older s) \<le> staged_bytes s" for s
    unfolding supersede_older_def by (rule staged_bytes_jobs_update) (auto simp: shrink_simps)
  have 2: "staged_bytes (cancel_closed_multipart s) \<le> staged_bytes s" for s
    unfolding cancel_closed_multipart_def by (rule staged_bytes_jobs_update) (auto simp: shrink_simps)
  have 3: "staged_bytes (expire_attempts now s) = staged_bytes s" for s
    by (simp add: expire_attempts_def staged_bytes_alt)
  have 4: "staged_bytes (park_ambiguous now s) \<le> staged_bytes s" for s
    unfolding park_ambiguous_def by (rule staged_bytes_jobs_update) (auto simp: shrink_simps)
  have 5: "staged_bytes (expire_receptions now s) \<le> staged_bytes s" for s
    unfolding expire_receptions_def by (rule staged_bytes_jobs_update) (auto simp: shrink_simps)
  show ?thesis unfolding recover_transfers_def using 1 2 3 4 5 by (metis order_trans)
qed

section \<open>What a claim returns\<close>

text \<open>
  The recovery statements only take jobs out of the running: every job keeps
  its identity and either stays as it was or ends in a state no worker claims.
\<close>

definition demoted :: "transfer_row \<Rightarrow> transfer_row \<Rightarrow> bool" where
  "demoted j j' \<longleftrightarrow>
     tj_id j' = tj_id j \<and> tj_sequence j' = tj_sequence j \<and> tj_bucket j' = tj_bucket j \<and> tj_key j' = tj_key j \<and>
     (j' = j \<or> tj_state j' \<in> {TRecoveryRequired, TCancelled, TSuperseded})"

lemma demoted_refl: "demoted j j"
  by (simp add: demoted_def)

lemma list_all2_update_where:
  assumes "\<And>j. R j j" "\<And>j. P j \<Longrightarrow> R j (f j)"
  shows "list_all2 R rows (update_where P f rows)"
  by (induction rows) (use assms in auto)

lemma demoted_trans:
  "list_all2 demoted xs ys \<Longrightarrow> list_all2 demoted ys zs \<Longrightarrow> list_all2 demoted xs zs"
  by (rule list_all2_trans[of demoted demoted demoted]) (auto simp: demoted_def)

lemma recover_demotes:
  "list_all2 demoted (transfer_jobs st) (transfer_jobs (recover_transfers now st))"
proof -
  have 1: "list_all2 demoted (transfer_jobs s) (transfer_jobs (supersede_older s))" for s
    unfolding supersede_older_def jobs_update_other
    by (rule list_all2_update_where) (simp_all add: demoted_def)
  have 2: "list_all2 demoted (transfer_jobs s) (transfer_jobs (cancel_closed_multipart s))" for s
    unfolding cancel_closed_multipart_def jobs_update_other
    by (rule list_all2_update_where) (simp_all add: demoted_def)
  have 3: "transfer_jobs (expire_attempts now s) = transfer_jobs s" for s
    by (simp add: expire_attempts_def)
  have 4: "list_all2 demoted (transfer_jobs s) (transfer_jobs (park_ambiguous now s))" for s
    unfolding park_ambiguous_def jobs_update_other
    by (rule list_all2_update_where) (simp_all add: demoted_def)
  have 5: "list_all2 demoted (transfer_jobs s) (transfer_jobs (expire_receptions now s))" for s
    unfolding expire_receptions_def jobs_update_other
    by (rule list_all2_update_where) (simp_all add: demoted_def)
  have 34: "list_all2 demoted (transfer_jobs s) (transfer_jobs (expire_attempts now (park_ambiguous now s)))" for s
    unfolding 3 by (rule 4)
  show ?thesis unfolding recover_transfers_def
    by (rule demoted_trans[OF demoted_trans[OF demoted_trans[OF 5 34] 2] 1])
qed

lemma recover_row:
  assumes "j' \<in> set (transfer_jobs (recover_transfers now st))"
  shows "\<exists>j \<in> set (transfer_jobs st). demoted j j'"
proof -
  obtain i where "i < length (transfer_jobs (recover_transfers now st))"
      "j' = transfer_jobs (recover_transfers now st) ! i"
    using assms by (auto simp: in_set_conv_nth)
  moreover from this have "i < length (transfer_jobs st)" "demoted (transfer_jobs st ! i) j'"
    using recover_demotes[of st now] by (auto simp: list_all2_conv_all_nth)
  ultimately show ?thesis using nth_mem by blast
qed

lemma transfer_jobs_update_row:
  assumes "distinct (map tj_id (transfer_jobs st))" "c \<in> set (transfer_jobs st)" "tj_id (f c) = tj_id c"
  shows "transfer (tj_id c) (jobs_update (\<lambda>j. tj_id j = tj_id c) f st) = Some (f c)"
proof -
  have "find (\<lambda>j. tj_id j = tj_id c) (update_where (\<lambda>j. tj_id j = tj_id c) f rows) = Some (f c)"
    if "distinct (map tj_id rows)" "c \<in> set rows" for rows
    using that assms(3) by (induction rows) (auto dest: distinct_key_eq)
  thus ?thesis using assms(1,2) by (simp add: transfer_def)
qed

lemma claim_transfer_Some:
  assumes wf: "jobs_wf st" and cl: "claim_transfer now lease st = (Some j, st')"
  obtains c where "c \<in> set (transfer_jobs (recover_transfers now st))"
    "claimable now (recover_transfers now st) c"
    "\<And>x. x \<in> set (transfer_jobs (recover_transfers now st)) \<Longrightarrow>
          claimable now (recover_transfers now st) x \<Longrightarrow> tj_sequence c \<le> tj_sequence x"
    "j = claim_row now lease c"
    "st' = jobs_update (\<lambda>j. tj_id j = tj_id c) (claim_row now lease) (recover_transfers now st)"
proof -
  let ?st1 = "recover_transfers now st"
  obtain c where c: "select_first (claimable now ?st1) tj_sequence (transfer_jobs ?st1) = Some c"
    using cl by (auto simp: claim_transfer_def Let_def split: option.splits)
  have st': "st' = jobs_update (\<lambda>j. tj_id j = tj_id c) (claim_row now lease) ?st1"
    and tr: "transfer (tj_id c) st' = Some j"
    using cl c by (auto simp: claim_transfer_def Let_def)
  note sel = select_first_Some[OF c]
  have "distinct (map tj_id (transfer_jobs ?st1))"
    using jobs_wf_recover[OF wf] by (simp add: jobs_wf_def)
  hence "j = claim_row now lease c"
    using tr transfer_jobs_update_row[of ?st1 c "claim_row now lease"] sel(1)
    by (simp add: st' claim_row_def)
  thus thesis using that[of c] sel st' by blast
qed

lemma claim_transfer_None:
  "claim_transfer now lease st = (None, st') \<Longrightarrow> jobs_wf st \<Longrightarrow> st' = recover_transfers now st"
proof (cases "select_first (claimable now (recover_transfers now st)) tj_sequence
                (transfer_jobs (recover_transfers now st))")
  case (Some c)
  assume wf: "jobs_wf st" and cl: "claim_transfer now lease st = (None, st')"
  have "transfer (tj_id c) (jobs_update (\<lambda>j. tj_id j = tj_id c) (claim_row now lease) (recover_transfers now st)) =
      Some (claim_row now lease c)"
    using transfer_jobs_update_row[of "recover_transfers now st" c "claim_row now lease"]
      jobs_wf_recover[OF wf] select_first_Some(1)[OF Some] by (simp add: jobs_wf_def claim_row_def)
  thus ?thesis using cl Some by (simp add: claim_transfer_def Let_def)
qed (simp add: claim_transfer_def Let_def)

section \<open>Transfers as a leased queue\<close>

text \<open>What a worker does under its lease.\<close>

datatype transfer_report =
    Renew seconds
  | Begin_Send seconds string nat
  | Finish_Send seconds nat string TelegramLocation
  | Mark_Unknown seconds nat string string string
  | Mark_Retryable seconds nat string string string
  | Enter_Committing seconds
  | Failed seconds "nat option" string

definition keep :: "store \<Rightarrow> 'a tx \<Rightarrow> store" where
  "keep st r = (case r of Inl _ \<Rightarrow> st | Inr (_, st') \<Rightarrow> st')"

fun transfer_report_step :: "transfer_report \<Rightarrow> string \<Rightarrow> string \<Rightarrow> store \<Rightarrow> store" where
  "transfer_report_step (Renew now) jid lease st = snd (renew_transfer now jid lease st)"
| "transfer_report_step (Begin_Send now attempt order) jid lease st =
     keep st (begin_send_attempt now attempt jid lease order st)"
| "transfer_report_step (Finish_Send now order attempt location) jid lease st =
     keep st (finish_send_attempt now jid lease order attempt location st)"
| "transfer_report_step (Mark_Unknown now order attempt kind error) jid lease st =
     keep st (mark_send_attempt_unknown now jid lease order attempt kind error st)"
| "transfer_report_step (Mark_Retryable now order attempt kind error) jid lease st =
     keep st (mark_send_attempt_retryable now jid lease order attempt kind error st)"
| "transfer_report_step (Enter_Committing now) jid lease st = keep st (enter_committing now jid lease st)"
| "transfer_report_step (Failed now retry_after message) jid lease st =
     transfer_failed now jid lease retry_after message st"

definition claim_job :: "seconds \<Rightarrow> string \<Rightarrow> store \<Rightarrow> string option \<times> store" where
  "claim_job now lease st = (map_option tj_id (fst (claim_transfer now lease st)),
                             snd (claim_transfer now lease st))"

lemma keep_simps [simp]: "keep st (Inl e) = st" "keep st (Inr (v, st')) = st'"
  by (simp_all add: keep_def)

lemma keep_invariant: "Q st \<Longrightarrow> (\<And>v st'. r = Inr (v, st') \<Longrightarrow> Q st') \<Longrightarrow> Q (keep st r)"
  by (auto simp: keep_def split: sum.splits prod.splits)

lemma jobs_wf_report:
  assumes "jobs_wf st"
  shows "jobs_wf (transfer_report_step r jid lease st)"
  using assms
  by (cases r) (auto intro!: keep_invariant[where Q = jobs_wf] jobs_wf_ops
      intro: jobs_wf_begin_send jobs_wf_finish_send jobs_wf_marks jobs_wf_enter_committing)

lemma transfer_report_fenced:
  assumes "\<not> (\<exists>j \<in> set (transfer_jobs st). tj_id j = jid \<and> sending_state (tj_state j) \<and> tj_lease j = Some lease)"
  shows "transfer_report_step r jid lease st = st"
proof -
  have none: "\<not> leased jid lease j" if "j \<in> set (transfer_jobs st)" for j
    using assms that by (auto simp: leased_def)
  have upd: "jobs_update (leased jid lease) f st = st" for f
    using none by (simp add: jobs_update_def update_where_none)
  have invalid: "\<not> lease_valid now jid lease st" for now
    using assms by (auto simp: lease_valid_def)
  have no_mark: "count_where (\<lambda>a. attempt_is Sending jid order attempt a \<and>
      exists_where (leased jid lease) (transfer_jobs st)) (send_attempts st) = 0" for order attempt
    using none by (auto simp: count_where_def filter_empty_conv)
  have no_commit: "count_where (\<lambda>j. tj_id j = jid \<and> tj_lease j = Some lease \<and> tj_state j = TUploading \<and>
      now \<le> tj_lease_until j) (transfer_jobs st) = 0" for now
    using assms by (auto simp: count_where_def filter_empty_conv sending_state_def)
  show ?thesis
  proof (cases r)
    case (Mark_Unknown now order attempt kind error)
    thus ?thesis using no_mark[of order attempt]
      by (simp add: mark_send_attempt_unknown_def mark_attempt_def Let_def del: exists_where_iff)
  next
    case (Mark_Retryable now order attempt kind error)
    thus ?thesis using no_mark[of order attempt]
      by (simp add: mark_send_attempt_retryable_def mark_attempt_def Let_def del: exists_where_iff)
  qed (simp_all add: renew_transfer_def upd begin_send_attempt_def finish_send_attempt_def invalid
      enter_committing_def jobs_update_one_def no_commit transfer_failed_def Let_def)
qed

lemma claim_job_Some:
  "claim_job now lease st = (Some k, st') \<longleftrightarrow>
   (\<exists>j. claim_transfer now lease st = (Some j, st') \<and> tj_id j = k)"
  by (cases "claim_transfer now lease st") (auto simp: claim_job_def)

lemma claim_job_grants:
  assumes "jobs_wf st" "claim_job now lease st = (Some k, st')"
  shows "\<exists>j \<in> set (transfer_jobs st'). tj_id j = k \<and> sending_state (tj_state j) \<and> tj_lease j = Some lease \<and>
      tj_lease_until j = now + 120"
proof -
  obtain j where j: "claim_transfer now lease st = (Some j, st')" "tj_id j = k"
    using assms(2) by (auto simp: claim_job_Some)
  obtain c where c: "c \<in> set (transfer_jobs (recover_transfers now st))" "j = claim_row now lease c"
      "st' = jobs_update (\<lambda>j. tj_id j = tj_id c) (claim_row now lease) (recover_transfers now st)"
    using claim_transfer_Some[OF assms(1) j(1)] by blast
  have "j \<in> set (transfer_jobs st')"
    using c by (auto simp: mem_update_where)
  moreover have "sending_state (tj_state j)" "tj_lease j = Some lease" "tj_lease_until j = now + 120"
    using c(2) by (simp_all add: claim_row_def sending_state_def)
  ultimately show ?thesis using j(2) by blast
qed

lemma claim_job_respects:
  assumes wf: "jobs_wf st" and cl: "claim_job now lease st = (Some k, st')"
    and r: "r \<in> set (transfer_jobs st)" "tj_id r = k" "sending_state (tj_state r)"
  shows "tj_lease_until r < now"
proof -
  obtain j where j: "claim_transfer now lease st = (Some j, st')" "tj_id j = k"
    using cl by (auto simp: claim_job_Some)
  obtain c where c: "c \<in> set (transfer_jobs (recover_transfers now st))" "claimable now (recover_transfers now st) c"
      "j = claim_row now lease c"
    using claim_transfer_Some[OF wf j(1)] by blast
  obtain c0 where c0: "c0 \<in> set (transfer_jobs st)" "demoted c0 c" using recover_row[OF c(1)] by blast
  have "c = c0" using c(2) c0(2) by (auto simp: demoted_def claimable_def sending_state_def)
  moreover have "tj_id c0 = tj_id r" using c0(2) j(2) r(2) c(3) by (simp add: demoted_def claim_row_def)
  ultimately have "c = r"
    using distinct_key_eq[of tj_id "transfer_jobs st" c r] c0(1) r(1) wf by (simp add: jobs_wf_def)
  thus ?thesis using c(2) r(3) by (auto simp: claimable_def sending_state_def)
qed

lemma claim_job_frame:
  assumes wf: "jobs_wf st" and cl: "claim_job now lease st = (c, st')"
    and r': "r' \<in> set (transfer_jobs st')" "sending_state (tj_state r')" "Some (tj_id r') \<noteq> c"
  shows "\<exists>r \<in> set (transfer_jobs st). tj_id r = tj_id r' \<and> sending_state (tj_state r) \<and>
      tj_lease r = tj_lease r' \<and> tj_lease_until r = tj_lease_until r'"
proof -
  have "r' \<in> set (transfer_jobs (recover_transfers now st))"
  proof (cases "fst (claim_transfer now lease st)")
    case None
    hence "claim_transfer now lease st = (None, st')" using cl by (simp add: claim_job_def prod_eq_iff)
    thus ?thesis using claim_transfer_None[OF _ wf] r'(1) by blast
  next
    case (Some j)
    hence "claim_transfer now lease st = (Some j, st')" and c: "c = Some (tj_id j)"
      using cl by (auto simp: claim_job_def prod_eq_iff)
    from claim_transfer_Some[OF wf this(1)] obtain d where d: "j = claim_row now lease d"
        "st' = jobs_update (\<lambda>j. tj_id j = tj_id d) (claim_row now lease) (recover_transfers now st)"
      by blast
    thus ?thesis using r'(1,3) c by (auto simp: mem_update_where claim_row_def split: if_splits)
  qed
  then obtain r where "r \<in> set (transfer_jobs st)" "demoted r r'" using recover_row by blast
  thus ?thesis using r'(2) by (auto simp: demoted_def sending_state_def)
qed

interpretation transfer_queue:
  fenced_table transfer_jobs tj_id "\<lambda>j. sending_state (tj_state j)" tj_lease tj_lease_until claim_job
    jobs_wf transfer_report_step
proof (unfold_locales, goal_cases)
  case (1 s) thus ?case by (simp add: jobs_wf_def)
next
  case (2 s now l) thus ?case by (simp add: claim_job_def jobs_wf_claim)
next
  case (3 s now l k s') thus ?case by (rule claim_job_grants)
next
  case (4 s now l k s' r) thus ?case by (rule claim_job_respects)
next
  case (5 s now l c s' r') thus ?case by (rule claim_job_frame)
next
  case (6 s k l m) thus ?case by (rule transfer_report_fenced)
qed

end
