(* ===== verification/Index.thy ===== *)
theory Index
  imports Transfers "HOL-Library.Product_Lexorder" "HOL-Library.Option_ord"
begin

text \<open>
  The object index (\<open>src/src/metadata/manifests.rs\<close>, \<open>recovery.rs\<close>, the delete
  statements of \<open>metadata/auth.rs\<close> and the quota check of \<open>accounts.rs\<close>):
  staging a manifest, committing it behind the publication fence, tombstoning,
  deleting the active version of a key, and rebuilding or verifying the
  \<open>active_objects\<close> index.  \<open>now\<close> is the clock in seconds and \<open>ts\<close> the RFC 3339
  text the call formats.  \<open>ETagCondition\<close> and its parser belong to the S3
  library: the parser is the argument \<open>parse_etag\<close>.
\<close>

section \<open>Conditions\<close>

datatype ETagCondition = AnyETag | StrongETag string | WeakETag string

fun etag_condition_matches :: "ETagCondition \<Rightarrow> string \<Rightarrow> bool" where
  "etag_condition_matches AnyETag actual = True"
| "etag_condition_matches (StrongETag e) actual = (e = actual)"
| "etag_condition_matches (WeakETag e) actual = (e = actual)"

definition enforce_write_conditionals_snapshot ::
  "(string \<Rightarrow> ETagCondition option) \<Rightarrow> TransferWriteConditionals \<Rightarrow> ObjectManifest option \<Rightarrow>
   MetadataError + unit" where
  "enforce_write_conditionals_snapshot parse_etag conds current =
     (case current of
        None \<Rightarrow> if twc_if_match conds \<noteq> None then Inl (InvalidManifest ''if-match precondition failed'')
                else Inr ()
      | Some m \<Rightarrow>
          (let etag = whole_object (m_checksum m) in
           case twc_if_match conds of
             Some raw \<Rightarrow>
               bind_res (ok_or (InvalidManifest ''invalid stored if-match condition'') (parse_etag raw))
                 (\<lambda>c. if etag_condition_matches c etag then Inr ()
                      else Inl (InvalidManifest ''if-match precondition failed''))
           | None \<Rightarrow>
               (case twc_if_none_match conds of
                  None \<Rightarrow> Inr ()
                | Some raw \<Rightarrow>
                    bind_res (ok_or (InvalidManifest ''invalid stored if-none-match condition'') (parse_etag raw))
                      (\<lambda>c. if etag_condition_matches c etag
                           then Inl (InvalidManifest ''if-none-match precondition failed'') else Inr ()))))"

definition enforce_delete_conditionals_snapshot ::
  "ETagCondition option \<Rightarrow> instant option \<Rightarrow> int option \<Rightarrow> ObjectManifest \<Rightarrow> MetadataError + unit" where
  "enforce_delete_conditionals_snapshot if_match if_match_time if_match_size m =
     (if (case if_match of None \<Rightarrow> False
          | Some c \<Rightarrow> \<not> etag_condition_matches c (whole_object (m_checksum m)))
      then Inl (PreconditionFailed ''if-match precondition failed'')
      else if (case if_match_time of None \<Rightarrow> False | Some t \<Rightarrow> created_at m \<noteq> t)
      then Inl (PreconditionFailed ''if-match-last-modified-time precondition failed'')
      else if (case if_match_size of None \<Rightarrow> False | Some n \<Rightarrow> u64_as_i64 (content_length m) \<noteq> n)
      then Inl (PreconditionFailed ''if-match-size precondition failed'')
      else Inr ())"

section \<open>Account quota\<close>

definition manifest_row_of :: "store \<Rightarrow> string \<Rightarrow> manifest_row option" where
  "manifest_row_of st oid = find (\<lambda>r. om_object_id r = oid) (object_manifests st)"

definition active_size :: "store \<Rightarrow> string \<Rightarrow> active_row \<Rightarrow> nat" where
  "active_size st account a =
     (case manifest_row_of st (ao_object_id a) of
        None \<Rightarrow> 0
      | Some r \<Rightarrow> if om_connection_id r = account \<and> om_commit_state r = Committed
                  then content_length (om_manifest r) else 0)"

definition replica_size :: "store \<Rightarrow> replica_row \<Rightarrow> nat" where
  "replica_size st r =
     (case manifest_row_of st (rl_object_id r) of
        None \<Rightarrow> 0
      | Some m \<Rightarrow> if om_commit_state m = Committed \<and> rl_chunk_order r < length (chunks (om_manifest m))
                  then ck_size (chunks (om_manifest m) ! rl_chunk_order r) *
                       count_where (\<lambda>a. ao_object_id a = rl_object_id r) (active_objects st)
                  else 0)"

definition account_usage :: "store \<Rightarrow> string \<Rightarrow> nat" where
  "account_usage st account =
     sum_list (map (active_size st account) (active_objects st)) +
     sum_where (\<lambda>r. rl_account_id r = account \<and> rl_mode r = Replica \<and> rl_ready r)
       (replica_size st) (replica_locations st)"

definition enforce_quota :: "string \<Rightarrow> nat option \<Rightarrow> nat \<Rightarrow> nat \<Rightarrow> MetadataError + unit" where
  "enforce_quota label quota used additional =
     (case quota of
        None \<Rightarrow> Inr ()
      | Some q \<Rightarrow> if q < saturating_add_u64 used additional
                  then Inl (QuotaExceeded (''account '' @ label @ '' has '' @ show_nat used @ '' used of '' @
                              show_nat q @ '' and cannot receive '' @ show_nat additional @ '' more bytes''))
                  else Inr ())"

definition current_key_size :: "store \<Rightarrow> string \<Rightarrow> string \<Rightarrow> string \<Rightarrow> nat" where
  "current_key_size st account b k =
     (case find (\<lambda>a. ao_bucket a = b \<and> ao_key a = k) (active_objects st) of
        None \<Rightarrow> 0 | Some a \<Rightarrow> active_size st account a)"

definition enforce_account_quota_in_transaction ::
  "store \<Rightarrow> string \<Rightarrow> string \<Rightarrow> string \<Rightarrow> nat \<Rightarrow> MetadataError + unit" where
  "enforce_account_quota_in_transaction st account b k len =
     (case find (\<lambda>a. ta_id a = account) (telegram_accounts st) of
        None \<Rightarrow> Inr ()
      | Some a \<Rightarrow> enforce_quota (ta_label a) (ta_quota_bytes a) (account_usage st account)
                    (saturating_sub_u64 len (current_key_size st account b k)))"

section \<open>Staging\<close>

definition staging_marker :: "string \<Rightarrow> string" where
  "staging_marker op = ''staging:'' @ op"

definition put_marker :: "string \<Rightarrow> JournalDetails \<Rightarrow> store \<Rightarrow> store" where
  "put_marker ts d st =
     st\<lparr> recovery_markers := upsert rm_marker_key
           \<lparr> rm_marker_key = staging_marker (jd_operation_id d), rm_object_id = jd_object_id d,
              rm_bucket = jd_bucket d, rm_key = jd_key d, rm_state = ''staging'', rm_details = d,
              rm_created_at = ts, rm_updated_at = ts \<rparr>
           (\<lambda>m. m\<lparr> rm_object_id := jd_object_id d, rm_bucket := jd_bucket d, rm_key := jd_key d,
                   rm_state := ''staging'', rm_details := d, rm_updated_at := ts \<rparr>)
           (recovery_markers st) \<rparr>"

definition ensure_recovery_marker :: "string \<Rightarrow> JournalDetails \<Rightarrow> store \<Rightarrow> store" where
  "ensure_recovery_marker = put_marker"

definition put_manifest_row :: "string \<Rightarrow> ObjectManifest \<Rightarrow> store \<Rightarrow> store" where
  "put_manifest_row ts m st =
     (let row = \<lparr> om_object_id = m_object_id m, om_connection_id = active_connection_id st,
                  om_bucket = m_bucket m, om_key = m_key m, om_version_id = version_id m,
                  om_commit_state = Staging, om_manifest = m\<lparr> commit_state := Staging \<rparr>,
                  om_created_at = ts, om_committed_at = None, om_tombstoned_at = None \<rparr>
      in st\<lparr> object_manifests := upsert om_object_id row (\<lambda>_. row) (object_manifests st) \<rparr>)"

definition put_journal_row :: "string \<Rightarrow> JournalDetails \<Rightarrow> store \<Rightarrow> store" where
  "put_journal_row ts d st =
     st\<lparr> operation_journal := upsert oj_operation_id
           \<lparr> oj_operation_id = jd_operation_id d, oj_object_id = jd_object_id d, oj_bucket = jd_bucket d,
              oj_key = jd_key d, oj_kind = jd_kind d, oj_state = ''staging'', oj_details = d,
              oj_error = None, oj_created_at = ts, oj_updated_at = ts \<rparr>
           (\<lambda>e. e\<lparr> oj_object_id := jd_object_id d, oj_bucket := jd_bucket d, oj_key := jd_key d,
                   oj_kind := jd_kind d, oj_state := ''staging'', oj_details := d, oj_error := None,
                   oj_updated_at := ts \<rparr>)
           (operation_journal st) \<rparr>"

definition stage_manifest :: "string \<Rightarrow> OperationKind \<Rightarrow> ObjectManifest \<Rightarrow> store \<Rightarrow> string tx" where
  "stage_manifest ts kind m st =
     bind_res (map_err InvalidManifest (validate m)) (\<lambda>_.
       let d = \<lparr> jd_operation_id = m_object_id m, jd_object_id = m_object_id m, jd_bucket = m_bucket m,
                 jd_key = m_key m, jd_kind = kind, jd_state = ''staging'', jd_reason = None \<rparr>
       in Inr (m_object_id m, ensure_recovery_marker ts d (put_journal_row ts d (put_manifest_row ts m st))))"

section \<open>Committing\<close>

definition choose_published ::
  "JournalDetails \<Rightarrow> ObjectManifest \<Rightarrow> ObjectManifest option \<Rightarrow> MetadataError + ObjectManifest" where
  "choose_published journal stored published =
     (case published of
        None \<Rightarrow> Inr stored
      | Some p \<Rightarrow> bind_res (map_err InvalidManifest (validate p)) (\<lambda>_.
          if m_object_id p \<noteq> jd_object_id journal \<or> m_bucket p \<noteq> jd_bucket journal \<or> m_key p \<noteq> jd_key journal
          then Inl (InvalidManifest ''published manifest identity changed'') else Inr p))"

definition commit_fence ::
  "seconds \<Rightarrow> string \<Rightarrow> (string \<times> string) option \<Rightarrow> store \<Rightarrow> MetadataError + unit" where
  "commit_fence now op tr st =
     (case tr of
        Some (jid, lease) \<Rightarrow>
          (case transfer jid st of
             None \<Rightarrow> Inl (InvalidManifest ''transfer job missing'')
           | Some j \<Rightarrow>
               if tj_state j \<noteq> TCommitting \<or> tj_lease j \<noteq> Some lease \<or> tj_lease_until j < now \<or>
                  tj_operation_id j \<noteq> Some op
               then Inl (InvalidManifest ''publication fence lost'')
               else if older_pending st j \<or> newer_committed st j
               then Inl (InvalidManifest ''per-key publication order changed'')
               else Inr ())
      | None \<Rightarrow>
          (case find (\<lambda>j. tj_operation_id j = Some op) (transfer_jobs st) of
             None \<Rightarrow> Inr ()
           | Some j \<Rightarrow> if sending_state (tj_state j) then Inr ()
                       else Inl (InvalidManifest ''transfer cannot commit in current state'')))"

definition key_manifest :: "store \<Rightarrow> string \<Rightarrow> string \<Rightarrow> MetadataError + ObjectManifest option" where
  "key_manifest st b k =
     (case active_object_id st b k of None \<Rightarrow> Inr None | Some oid \<Rightarrow> load_manifest_by_object_id st oid)"

definition commit_conditionals ::
  "(string \<Rightarrow> ETagCondition option) \<Rightarrow> (string \<times> string) option \<Rightarrow> ObjectManifest option \<Rightarrow> store \<Rightarrow>
   MetadataError + unit" where
  "commit_conditionals parse_etag tr current st =
     (case tr of
        None \<Rightarrow> Inr ()
      | Some (jid, _) \<Rightarrow>
          (case transfer jid st of
             None \<Rightarrow> Inl (Sqlite ''Query returned no rows'')
           | Some j \<Rightarrow> (case tj_conditionals j of
                None \<Rightarrow> Inr ()
              | Some c \<Rightarrow> enforce_write_conditionals_snapshot parse_etag c current)))"

definition commit_quota ::
  "string \<Rightarrow> JournalDetails \<Rightarrow> ObjectManifest \<Rightarrow> store \<Rightarrow> MetadataError + unit" where
  "commit_quota completion_job journal m st =
     (if exists_where (\<lambda>p. mj_job_id p = completion_job \<and> 0 < mj_part_number p) (multipart_jobs st)
      then Inr ()
      else (case manifest_row_of st (jd_object_id journal) of
              None \<Rightarrow> Inl (Sqlite ''Query returned no rows'')
            | Some r \<Rightarrow> enforce_account_quota_in_transaction st (om_connection_id r) (m_bucket m) (m_key m)
                          (content_length m)))"

definition open_upload :: "string \<Rightarrow> upload_row \<Rightarrow> bool" where
  "open_upload u r \<longleftrightarrow> mu_upload_id r = u \<and> mu_state r \<in> {Initiated, Uploading, Completing}"

definition commit_completion :: "string \<Rightarrow> store \<Rightarrow> MetadataError + string option" where
  "commit_completion completion_job st =
     (case find (\<lambda>p. mj_job_id p = completion_job \<and> mj_part_number p = 0) (multipart_jobs st) of
        None \<Rightarrow> Inr None
      | Some p \<Rightarrow> if exists_where (open_upload (mj_upload_id p)) (multipart_uploads st)
                  then Inr (Some (mj_upload_id p))
                  else Inl (InvalidManifest ''multipart completion session is closed''))"

text \<open>The writes of the commit, in the order of the code.\<close>

definition commit_index :: "string \<Rightarrow> string \<Rightarrow> JournalDetails \<Rightarrow> ObjectManifest \<Rightarrow> store \<Rightarrow> store" where
  "commit_index ts op journal m st =
     st\<lparr> object_manifests := update_where (\<lambda>r. om_object_id r = m_object_id m)
           (\<lambda>r. r\<lparr> om_commit_state := Committed, om_manifest := m, om_committed_at := Some ts,
                   om_tombstoned_at := None \<rparr>) (object_manifests st),
         active_objects := put_active (m_bucket m) (m_key m) (m_object_id m) ts (active_objects st),
         recovery_markers := delete_where (\<lambda>r. rm_marker_key r = staging_marker (jd_operation_id journal))
                               (recovery_markers st),
         operation_journal := update_where (\<lambda>e. oj_operation_id e = op)
           (\<lambda>e. e\<lparr> oj_state := ''committed'', oj_updated_at := ts \<rparr>) (operation_journal st) \<rparr>"

definition complete_job :: "seconds \<Rightarrow> transfer_row \<Rightarrow> transfer_row" where
  "complete_job now j =
     j\<lparr> tj_state := TCompleted, tj_error := None, tj_lease := None, tj_lease_until := 0, tj_updated_at := now \<rparr>"

definition commit_transfer_job ::
  "seconds \<Rightarrow> string \<Rightarrow> (string \<times> string) option \<Rightarrow> store \<Rightarrow> unit tx" where
  "commit_transfer_job now op tr st =
     (case tr of
        Some (jid, lease) \<Rightarrow>
          jobs_update_one (\<lambda>j. tj_id j = jid \<and> tj_lease j = Some lease \<and> tj_state j = TCommitting)
            (complete_job now) (InvalidManifest ''publication fence lost'') st
      | None \<Rightarrow> Inr ((), jobs_update (\<lambda>j. tj_operation_id j = Some op) (complete_job now) st))"

fun enqueue_parts ::
  "seconds \<Rightarrow> (string \<times> int) list \<Rightarrow> part_row list \<Rightarrow> store \<Rightarrow> MetadataError + store" where
  "enqueue_parts now retained [] st = Inr st"
| "enqueue_parts now retained (p # ps) st =
     bind_res (enqueue_part_cleanup_preserving now (pr_part p) retained st) (enqueue_parts now retained ps)"

definition close_completion ::
  "seconds \<Rightarrow> ObjectManifest \<Rightarrow> string option \<Rightarrow> store \<Rightarrow> unit tx" where
  "close_completion now m completion st =
     (case completion of
        None \<Rightarrow> Inr ((), st)
      | Some upload \<Rightarrow>
          bind_res (enqueue_parts now (map (\<lambda>c. (ck_peer_id c, ck_message_id c)) (chunks m))
                     (filter (\<lambda>p. pr_upload_id p = upload) (multipart_parts st)) st) (\<lambda>st1.
            if count_where (open_upload upload) (multipart_uploads st1) \<noteq> 1
            then Inl (InvalidManifest ''multipart completion session is closed'')
            else Inr ((), st1\<lparr>
              multipart_uploads := update_where (open_upload upload)
                (\<lambda>u. u\<lparr> mu_state := Completed, mu_session := (mu_session u)\<lparr> ms_state := Completed \<rparr> \<rparr>)
                (multipart_uploads st1),
              multipart_parts := delete_where (\<lambda>p. pr_upload_id p = upload) (multipart_parts st1) \<rparr>)))"

definition commit_manifest_inner ::
  "(string \<Rightarrow> ETagCondition option) \<Rightarrow> seconds \<Rightarrow> string \<Rightarrow> string \<Rightarrow> (string \<times> string) option \<Rightarrow>
   ObjectManifest option \<Rightarrow> store \<Rightarrow> ObjectManifest tx" where
  "commit_manifest_inner parse_etag now ts op tr published st =
     bind_res (ok_or (JournalNotFound op) (load_journal_entry st op)) (\<lambda>journal.
     bind_res (load_manifest_by_object_id st (jd_object_id journal)) (\<lambda>loaded.
     bind_res (ok_or (ManifestNotFound (jd_object_id journal)) loaded) (\<lambda>stored.
     if jd_state journal = ''committed'' \<and> commit_state stored = Committed then Inr (stored, st)
     else
       let completion_job = (case tr of Some (jid, _) \<Rightarrow> jid | None \<Rightarrow> jd_object_id journal) in
       bind_res (choose_published journal stored published) (\<lambda>m.
       bind_res (commit_fence now op tr st) (\<lambda>_.
       bind_res (key_manifest st (jd_bucket journal) (jd_key journal)) (\<lambda>current.
       bind_res (commit_conditionals parse_etag tr current st) (\<lambda>_.
       bind_res (commit_quota completion_job journal m st) (\<lambda>_.
       bind_res (commit_completion completion_job st) (\<lambda>completion.
       let m' = m\<lparr> commit_state := Committed \<rparr> in
       bind_res (commit_transfer_job now op tr (commit_index ts op journal m' st)) (\<lambda>(_, st1).
       bind_res (close_completion now m' completion st1) (\<lambda>(_, st2). Inr (m', st2))))))))))))"

definition commit_manifest ::
  "(string \<Rightarrow> ETagCondition option) \<Rightarrow> seconds \<Rightarrow> string \<Rightarrow> string \<Rightarrow> store \<Rightarrow> ObjectManifest tx" where
  "commit_manifest parse_etag now ts op = commit_manifest_inner parse_etag now ts op None None"

definition commit_transfer_manifest ::
  "(string \<Rightarrow> ETagCondition option) \<Rightarrow> seconds \<Rightarrow> string \<Rightarrow> string \<Rightarrow> string \<Rightarrow> string \<Rightarrow> ObjectManifest \<Rightarrow>
   store \<Rightarrow> ObjectManifest tx" where
  "commit_transfer_manifest parse_etag now ts op jid lease published =
     commit_manifest_inner parse_etag now ts op (Some (jid, lease)) (Some published)"

section \<open>Lookups and updates\<close>

definition get_manifest :: "string \<Rightarrow> store \<Rightarrow> MetadataError + ObjectManifest option" where
  "get_manifest oid st = load_manifest_by_object_id st oid"

definition get_active_manifest :: "string \<Rightarrow> string \<Rightarrow> store \<Rightarrow> MetadataError + ObjectManifest option" where
  "get_active_manifest b k st =
     (case active_object_id st b k of
        None \<Rightarrow> Inr None
      | Some oid \<Rightarrow>
          (case manifest_row_of st oid of
             None \<Rightarrow> Inr None
           | Some r \<Rightarrow> if om_connection_id r = active_connection_id st
                       then load_manifest_by_object_id st oid else Inr None))"

fun validate_all :: "ObjectManifest list \<Rightarrow> MetadataError + ObjectManifest list" where
  "validate_all [] = Inr []"
| "validate_all (m # ms) =
     bind_res (map_err InvalidManifest (validate m)) (\<lambda>_. bind_res (validate_all ms) (\<lambda>rest. Inr (m # rest)))"

definition list_manifests :: "store \<Rightarrow> MetadataError + ObjectManifest list" where
  "list_manifests st =
     validate_all (map om_manifest (select_order (\<lambda>r. om_connection_id r = active_connection_id st)
       (\<lambda>r. (om_created_at r, om_object_id r)) (object_manifests st)))"

definition list_journal_entries :: "store \<Rightarrow> journal_row list" where
  "list_journal_entries st =
     select_order (\<lambda>_. True) (\<lambda>e. (oj_created_at e, oj_operation_id e)) (operation_journal st)"

definition update_manifest :: "ObjectManifest \<Rightarrow> store \<Rightarrow> ObjectManifest \<times> store" where
  "update_manifest m st =
     (m, st\<lparr> object_manifests := update_where (\<lambda>r. om_object_id r = m_object_id m)
                (\<lambda>r. r\<lparr> om_commit_state := commit_state m, om_manifest := m \<rparr>) (object_manifests st) \<rparr>)"

definition update_manifest_state :: "string \<Rightarrow> string \<Rightarrow> CommitState \<Rightarrow> store \<Rightarrow> ObjectManifest tx" where
  "update_manifest_state ts oid cs st =
     bind_res (load_manifest_by_object_id st oid) (\<lambda>loaded.
     bind_res (ok_or (ManifestNotFound oid) loaded) (\<lambda>m0.
       let m = m0\<lparr> commit_state := cs \<rparr>;
           st1 = st\<lparr> object_manifests := update_where (\<lambda>r. om_object_id r = oid)
                   (\<lambda>r. r\<lparr> om_commit_state := cs, om_manifest := m \<rparr>) (object_manifests st) \<rparr>;
           st2 = (if cs = Committed
                  then st1\<lparr> active_objects := put_active (m_bucket m) (m_key m) oid ts (active_objects st1) \<rparr>
                  else st1\<lparr> active_objects := delete_where (\<lambda>a. ao_object_id a = oid) (active_objects st1) \<rparr>);
           st3 = (if cs \<noteq> RecoveryRequired
                  then st2\<lparr> recovery_markers := delete_where (\<lambda>r. rm_marker_key r = ''object:'' @ oid)
                              (recovery_markers st2) \<rparr>
                  else st2)
       in Inr (m, st3)))"

section \<open>Tombstones\<close>

definition tombstone_rows ::
  "string \<Rightarrow> (manifest_row \<Rightarrow> bool) \<Rightarrow> ObjectManifest \<Rightarrow> manifest_row list \<Rightarrow> manifest_row list" where
  "tombstone_rows ts P m =
     update_where P (\<lambda>r. r\<lparr> om_commit_state := Tombstoned, om_manifest := m, om_tombstoned_at := Some ts \<rparr>)"

definition tombstone_journal :: "string \<Rightarrow> string \<Rightarrow> string \<Rightarrow> journal_row list \<Rightarrow> journal_row list" where
  "tombstone_journal ts oid reason =
     update_where (\<lambda>e. oj_object_id e = oid)
       (\<lambda>e. e\<lparr> oj_state := ''tombstoned'', oj_error := Some reason, oj_updated_at := ts \<rparr>)"

definition tombstone_manifest_with_conditionals ::
  "seconds \<Rightarrow> string \<Rightarrow> string \<Rightarrow> string \<Rightarrow> ETagCondition option \<Rightarrow> instant option \<Rightarrow> int option \<Rightarrow> store \<Rightarrow>
   ObjectManifest tx" where
  "tombstone_manifest_with_conditionals now ts oid reason if_match if_time if_size st =
     bind_res (load_manifest_by_object_id st oid) (\<lambda>loaded.
     bind_res (ok_or (ManifestNotFound oid) loaded) (\<lambda>m0.
     bind_res (enforce_delete_conditionals_snapshot if_match if_time if_size m0) (\<lambda>_.
       let m = m0\<lparr> commit_state := Tombstoned \<rparr>;
           st1 = enqueue_manifest_cleanup now m st
       in Inr (m, st1\<lparr>
            object_manifests := tombstone_rows ts (\<lambda>r. om_object_id r = oid) m (object_manifests st1),
            active_objects := delete_where (\<lambda>a. ao_bucket a = m_bucket m \<and> ao_key a = m_key m \<and>
                                                ao_object_id a = m_object_id m) (active_objects st1),
            recovery_markers := delete_where (\<lambda>r. rm_object_id r = m_object_id m) (recovery_markers st1),
            operation_journal := tombstone_journal ts (m_object_id m) reason (operation_journal st1) \<rparr>))))"

definition expire_one :: "seconds \<Rightarrow> string \<Rightarrow> manifest_row \<Rightarrow> store \<Rightarrow> store" where
  "expire_one now ts row st =
     (let m = (om_manifest row)\<lparr> commit_state := Tombstoned \<rparr>;
          oid = om_object_id row;
          st1 = enqueue_manifest_cleanup now m st
      in st1\<lparr>
           object_manifests := tombstone_rows ts (\<lambda>r. om_object_id r = oid \<and> om_commit_state r = Committed) m
                                 (object_manifests st1),
           active_objects := delete_where (\<lambda>a. ao_object_id a = oid) (active_objects st1),
           recovery_markers := delete_where (\<lambda>r. rm_object_id r = oid) (recovery_markers st1),
           operation_journal := tombstone_journal ts oid ''object expired'' (operation_journal st1) \<rparr>)"

definition expiry_candidates :: "store \<Rightarrow> manifest_row list" where
  "expiry_candidates st =
     List.map_filter (\<lambda>a. case manifest_row_of st (ao_object_id a) of
         None \<Rightarrow> None
       | Some r \<Rightarrow> if om_commit_state r = Committed \<and> om_connection_id r = active_connection_id st
                   then Some r else None) (active_objects st)"

definition tombstone_expired_active_manifests ::
  "instant \<Rightarrow> seconds \<Rightarrow> string \<Rightarrow> store \<Rightarrow> nat \<times> store" where
  "tombstone_expired_active_manifests at now ts st =
     (let expired = filter (\<lambda>r. is_expired (om_manifest r) at) (expiry_candidates st)
      in (length expired, fold (expire_one now ts) expired st))"

definition cancel_key_jobs :: "seconds \<Rightarrow> string \<Rightarrow> string \<Rightarrow> store \<Rightarrow> store" where
  "cancel_key_jobs now b k =
     jobs_update (\<lambda>j. tj_bucket j = b \<and> tj_key j = k \<and>
                      tj_state j \<in> {TReceiving, TQueued, TRetryWait, TRecoveryRequired})
       (\<lambda>j. j\<lparr> tj_state := TCancelled, tj_lease := None, tj_lease_until := 0,
               tj_error := Some ''Superseded by deletion'', tj_updated_at := now \<rparr>)"

definition delete_active_key_in_transaction ::
  "seconds \<Rightarrow> string \<Rightarrow> string \<Rightarrow> string \<Rightarrow> string \<Rightarrow> ETagCondition option \<Rightarrow> instant option \<Rightarrow> int option \<Rightarrow>
   store \<Rightarrow> ObjectManifest option tx" where
  "delete_active_key_in_transaction now ts b k reason if_match if_time if_size st =
     (if exists_where (\<lambda>j. tj_bucket j = b \<and> tj_key j = k \<and> sending_state (tj_state j)) (transfer_jobs st)
      then Inl (InvalidManifest ''object publication in progress; retry delete'')
      else
        let st1 = cancel_key_jobs now b k st in
        case active_object_id st1 b k of
          None \<Rightarrow> Inr (None, st1)
        | Some oid \<Rightarrow>
            bind_res (load_manifest_by_object_id st1 oid) (\<lambda>loaded.
            bind_res (ok_or (ManifestNotFound oid) loaded) (\<lambda>m0.
            bind_res (enforce_delete_conditionals_snapshot if_match if_time if_size m0) (\<lambda>_.
              let m = m0\<lparr> commit_state := Tombstoned \<rparr>;
                  st2 = enqueue_manifest_cleanup now m st1
              in Inr (Some m, st2\<lparr>
                   object_manifests := tombstone_rows ts (\<lambda>r. om_object_id r = oid) m (object_manifests st2),
                   active_objects := delete_where (\<lambda>a. ao_bucket a = b \<and> ao_key a = k \<and> ao_object_id a = oid)
                                       (active_objects st2),
                   recovery_markers := delete_where (\<lambda>r. rm_object_id r = oid) (recovery_markers st2),
                   operation_journal := tombstone_journal ts oid reason (operation_journal st2) \<rparr>)))))"

definition delete_active_key ::
  "seconds \<Rightarrow> string \<Rightarrow> string \<Rightarrow> string \<Rightarrow> string \<Rightarrow> ETagCondition option \<Rightarrow> instant option \<Rightarrow> int option \<Rightarrow>
   store \<Rightarrow> ObjectManifest option tx" where
  "delete_active_key = delete_active_key_in_transaction"

definition below :: "string \<Rightarrow> string \<Rightarrow> bool" where
  "below folder k \<longleftrightarrow> take (length folder) k = folder \<and> k \<noteq> folder"

definition delete_empty_folder ::
  "seconds \<Rightarrow> string \<Rightarrow> string \<Rightarrow> string \<Rightarrow> string \<Rightarrow> store \<Rightarrow> ObjectManifest option tx" where
  "delete_empty_folder now ts b folder reason st =
     (if folder = [] \<or> last folder \<noteq> CHR ''/'' then
        Inl (InvalidManifest (''folder key must end with '' @ [CHR 0x27, CHR ''/'', CHR 0x27]))
      else if exists_where (\<lambda>a. ao_bucket a = b \<and> below folder (ao_key a)) (active_objects st) \<or>
              exists_where (\<lambda>j. tj_bucket j = b \<and> below folder (tj_key j) \<and>
                                tj_state j \<notin> {TCompleted, TCancelled, TCleaned}) (transfer_jobs st)
      then Inl (FolderNotEmpty folder)
      else delete_active_key_in_transaction now ts b folder reason None None None st)"

section \<open>Rebuilding and verifying\<close>

record RebuildReport =
  rb_committed_rows :: nat
  rb_active_rows :: nat
  rb_staged_rows :: nat
  rb_recovery_markers :: nat

record VerifyReport =
  vr_expected_active_rows :: nat
  vr_actual_active_rows :: nat
  vr_mismatched_rows :: nat
  vr_staged_rows :: nat

definition commit_order :: "manifest_row \<Rightarrow> string option \<times> string" where
  "commit_order r = (om_committed_at r, om_object_id r)"

definition rebuild_marker :: "string \<Rightarrow> journal_row \<Rightarrow> store \<Rightarrow> store" where
  "rebuild_marker ts e =
     put_marker ts \<lparr> jd_operation_id = oj_operation_id e, jd_object_id = oj_object_id e,
                     jd_bucket = oj_bucket e, jd_key = oj_key e, jd_kind = oj_kind e,
                     jd_state = oj_state e, jd_reason = Some ''pending startup reconciliation'' \<rparr>"

definition rebuild_active :: "string \<Rightarrow> manifest_row list \<Rightarrow> active_row list" where
  "rebuild_active ts rows =
     fold (\<lambda>r. put_active (om_bucket r) (om_key r) (om_object_id r) ts) rows []"

definition rebuild_index_internal :: "string \<Rightarrow> store \<Rightarrow> RebuildReport \<times> store" where
  "rebuild_index_internal ts st =
     (let staged = filter (\<lambda>e. oj_state e = ''staging'') (list_journal_entries st);
          st1 = fold (rebuild_marker ts) staged (st\<lparr> active_objects := [] \<rparr>);
          committed_rows = select_order (\<lambda>r. om_commit_state r = Committed) commit_order (object_manifests st1);
          active = rebuild_active ts committed_rows
      in (\<lparr> rb_committed_rows = length committed_rows, rb_active_rows = length active,
            rb_staged_rows = length staged, rb_recovery_markers = length staged \<rparr>,
          st1\<lparr> active_objects := active \<rparr>))"

text \<open>A \<open>HashMap\<close> keyed by \<open>(bucket, key)\<close>; the order of its entries is not observed.\<close>

definition hash_insert :: "'k \<Rightarrow> 'v \<Rightarrow> ('k \<times> 'v) list \<Rightarrow> ('k \<times> 'v) list" where
  "hash_insert k v = upsert fst (k, v) (\<lambda>_. (k, v))"

definition expected_index :: "manifest_row list \<Rightarrow> ((string \<times> string) \<times> string) list" where
  "expected_index rows =
     fold (\<lambda>r. if om_commit_state r = Committed
               then hash_insert (om_bucket r, om_key r) (om_object_id r) else (\<lambda>h. h)) rows []"

definition actual_index :: "active_row list \<Rightarrow> ((string \<times> string) \<times> string) list" where
  "actual_index rows = fold (\<lambda>a. hash_insert (ao_bucket a, ao_key a) (ao_object_id a)) rows []"

definition verify_index_internal :: "store \<Rightarrow> VerifyReport" where
  "verify_index_internal st =
     (let rows = select_order (\<lambda>_. True) commit_order (object_manifests st);
          expected = expected_index rows;
          actual = actual_index (active_objects st)
      in \<lparr> vr_expected_active_rows = length expected,
           vr_actual_active_rows = length actual,
           vr_mismatched_rows =
             length (filter (\<lambda>(key, oid). map_of actual key \<noteq> Some oid) expected) +
             length (filter (\<lambda>(key, _). map_of expected key = None) actual),
           vr_staged_rows = length (filter (\<lambda>r. om_commit_state r = Staging) rows) \<rparr>)"

section \<open>The index is a function of the manifests\<close>

lemma map_of_update_key:
  "map_of (update_where (\<lambda>x. fst x = k) (\<lambda>_. (k, v)) xs) k' =
   (if k' = k \<and> map_of xs k \<noteq> None then Some v else map_of xs k')"
  by (induction xs) (auto split: if_splits)

lemma map_of_append_one:
  "map_of (xs @ [(k, v)]) k' = (case map_of xs k' of None \<Rightarrow> if k' = k then Some v else None | Some w \<Rightarrow> Some w)"
  by (simp add: map_add_def split: option.split)

lemma map_of_hash_insert:
  "map_of (hash_insert k v xs) k' = (if k' = k then Some v else map_of xs k')"
proof (cases "\<exists>x \<in> set xs. fst x = k")
  case True
  hence "map_of xs k \<noteq> None" by (auto simp: map_of_eq_None_iff)
  thus ?thesis using True by (simp add: hash_insert_def upsert_def map_of_update_key)
next
  case False
  hence "map_of xs k = None" by (auto simp: map_of_eq_None_iff)
  thus ?thesis using False
    by (simp add: hash_insert_def upsert_def map_of_append_one del: map_of_append split: option.split)
qed

lemma distinct_upsert:
  assumes "\<And>x. key (f x) = key r \<or> key (f x) = key x" "distinct (map key rows)"
  shows "distinct (map key (upsert key r f rows))"
proof (cases "exists_where (\<lambda>x. key x = key r) rows")
  case True
  have "map key (update_where (\<lambda>x. key x = key r) f rows) = map key rows"
    using assms(1) by (intro map_update_where_same) metis
  thus ?thesis using True assms(2) by (simp add: upsert_def)
next
  case False
  thus ?thesis using assms(2) by (auto simp: upsert_def)
qed

lemma distinct_hash_insert: "distinct (map fst xs) \<Longrightarrow> distinct (map fst (hash_insert k v xs))"
  unfolding hash_insert_def by (rule distinct_upsert) simp_all

definition active_key :: "active_row \<Rightarrow> string \<times> string" where
  "active_key a = (ao_bucket a, ao_key a)"

lemma distinct_put_active:
  "distinct (map active_key rows) \<Longrightarrow> distinct (map active_key (put_active b k oid ts rows))"
  unfolding put_active_def active_key_def[abs_def] by (rule distinct_upsert) simp_all

lemma rebuild_active_snoc:
  "rebuild_active ts (rows @ [r]) =
   put_active (om_bucket r) (om_key r) (om_object_id r) ts (rebuild_active ts rows)"
  by (simp add: rebuild_active_def)

lemma distinct_rebuild_active: "distinct (map active_key (rebuild_active ts rows))"
  by (induction rows rule: rev_induct) (simp_all add: rebuild_active_def distinct_put_active)

lemma expected_index_snoc:
  "expected_index (rows @ [r]) =
   (if om_commit_state r = Committed
    then hash_insert (om_bucket r, om_key r) (om_object_id r) (expected_index rows) else expected_index rows)"
  by (simp add: expected_index_def)

lemma expected_index_lookup:
  "map_of (expected_index rows) (b, k) =
   map_option ao_object_id (find (\<lambda>a. ao_bucket a = b \<and> ao_key a = k)
     (rebuild_active ts (filter (\<lambda>r. om_commit_state r = Committed) rows)))"
proof (induction rows rule: rev_induct)
  case Nil
  thus ?case by (simp add: expected_index_def rebuild_active_def)
next
  case (snoc r rows)
  thus ?case
    by (auto simp: expected_index_snoc rebuild_active_snoc map_of_hash_insert active_key_put_active)
qed

lemma distinct_expected_index: "distinct (map fst (expected_index rows))"
  by (induction rows rule: rev_induct) (auto simp: expected_index_def distinct_hash_insert)

lemma actual_index_lookup:
  assumes "distinct (map active_key rows)"
  shows "map_of (actual_index rows) (b, k) =
    map_option ao_object_id (find (\<lambda>a. ao_bucket a = b \<and> ao_key a = k) rows)"
  using assms
proof (induction rows rule: rev_induct)
  case Nil
  thus ?case by (simp add: actual_index_def)
next
  case (snoc a rows)
  have "find (\<lambda>x. ao_bucket x = ao_bucket a \<and> ao_key x = ao_key a) rows = None"
    using snoc.prems by (auto simp: find_None_iff_all active_key_def image_iff)
  thus ?case using snoc
    by (auto simp: actual_index_def map_of_hash_insert find_append_one split: option.splits)
qed

lemma distinct_actual_index: "distinct (map fst (actual_index rows))"
  by (induction rows rule: rev_induct) (auto simp: actual_index_def distinct_hash_insert)

lemma same_lookup_same_length:
  assumes "distinct (map fst xs)" "distinct (map fst ys)" "map_of xs = map_of ys"
  shows "length xs = length ys"
proof -
  have "set (map fst xs) = set (map fst ys)" using assms(3) by (metis dom_map_of_conv_image_fst set_map)
  thus ?thesis using assms(1,2) by (metis distinct_card length_map)
qed

lemma no_mismatch:
  assumes "distinct (map fst expected)" "map_of expected = map_of actual"
  shows "filter (\<lambda>(key, oid). map_of actual key \<noteq> Some oid) expected = []"
    "filter (\<lambda>(key, _). map_of expected key = None) actual = []"
proof -
  have "map_of actual key = Some oid" if "(key, oid) \<in> set expected" for key oid
    using that assms map_of_is_SomeI by metis
  thus "filter (\<lambda>(key, oid). map_of actual key \<noteq> Some oid) expected = []"
    by (auto simp: filter_empty_conv)
  have "map_of expected key \<noteq> None" if "(key, oid) \<in> set actual" for key oid
    using that assms(2) weak_map_of_SomeI by fastforce
  thus "filter (\<lambda>(key, _). map_of expected key = None) actual = []"
    by (auto simp: filter_empty_conv)
qed

lemma rebuild_manifests [simp]:
  "object_manifests (snd (rebuild_index_internal ts st)) = object_manifests st"
proof -
  have "object_manifests (fold (rebuild_marker ts) es s) = object_manifests s" for es s
    by (induction es arbitrary: s) (simp_all add: rebuild_marker_def put_marker_def)
  thus ?thesis by (simp add: rebuild_index_internal_def Let_def)
qed

lemma rebuild_active_objects:
  "active_objects (snd (rebuild_index_internal ts st)) =
   rebuild_active ts (select_order (\<lambda>r. om_commit_state r = Committed) commit_order (object_manifests st))"
  using rebuild_manifests[of ts st] by (simp add: rebuild_index_internal_def Let_def)

text \<open>
  C28: Recovery makes the index agree with the manifests: after
  \<open>rebuild_index_internal\<close> on any database, \<open>verify_index_internal\<close> reports no
  mismatched row and as many active rows as it expects.
\<close>

theorem rebuild_then_verify_clean:
  "vr_mismatched_rows (verify_index_internal (snd (rebuild_index_internal ts st))) = 0 \<and>
   vr_actual_active_rows (verify_index_internal (snd (rebuild_index_internal ts st))) =
   vr_expected_active_rows (verify_index_internal (snd (rebuild_index_internal ts st)))"
proof -
  let ?st = "snd (rebuild_index_internal ts st)"
  let ?rows = "select_order (\<lambda>_. True) commit_order (object_manifests st)"
  let ?act = "active_objects ?st"
  have act: "?act = rebuild_active ts (filter (\<lambda>r. om_commit_state r = Committed) ?rows)"
    by (simp add: rebuild_active_objects select_order_def filter_sort)
  have "map_of (expected_index ?rows) (b, k) = map_of (actual_index ?act) (b, k)" for b k
    unfolding act expected_index_lookup[where ts = ts]
    by (rule actual_index_lookup[OF distinct_rebuild_active, symmetric])
  hence eq: "map_of (expected_index ?rows) = map_of (actual_index ?act)" by auto
  show ?thesis
    using no_mismatch[OF distinct_expected_index eq]
      same_lookup_same_length[OF distinct_expected_index distinct_actual_index eq]
    by (simp add: verify_index_internal_def Let_def)
qed

section \<open>What a commit does\<close>

lemma validate_commit_state [simp]: "validate (m\<lparr> commit_state := cs \<rparr>) = validate m"
  by (simp add: validate_def)

lemma enqueue_part_other:
  assumes "enqueue_part_cleanup_preserving now part retained st = Inr st'"
  shows "active_objects st' = active_objects st" "object_manifests st' = object_manifests st"
    "transfer_jobs st' = transfer_jobs st" "multipart_uploads st' = multipart_uploads st"
    "replica_locations st' = replica_locations st" "telegram_accounts st' = telegram_accounts st"
    "transfer_sequence st' = transfer_sequence st" "send_attempts st' = send_attempts st"
    "transfer_chunks st' = transfer_chunks st" "app_settings st' = app_settings st"
proof -
  have one: "active_objects (enqueue_target oid conn p msg kind due s) = active_objects s \<and>
      object_manifests (enqueue_target oid conn p msg kind due s) = object_manifests s \<and>
      multipart_uploads (enqueue_target oid conn p msg kind due s) = multipart_uploads s \<and>
      replica_locations (enqueue_target oid conn p msg kind due s) = replica_locations s \<and>
      telegram_accounts (enqueue_target oid conn p msg kind due s) = telegram_accounts s \<and>
      app_settings (enqueue_target oid conn p msg kind due s) = app_settings s"
    for oid conn p msg kind due s by (simp add: enqueue_target_def)
  have fold_: "active_objects (fold (\<lambda>l s. enqueue_target oid conn (loc_peer_id l) (loc_message_id l) Message due s) ls s) = active_objects s \<and>
      object_manifests (fold (\<lambda>l s. enqueue_target oid conn (loc_peer_id l) (loc_message_id l) Message due s) ls s) = object_manifests s \<and>
      multipart_uploads (fold (\<lambda>l s. enqueue_target oid conn (loc_peer_id l) (loc_message_id l) Message due s) ls s) = multipart_uploads s \<and>
      replica_locations (fold (\<lambda>l s. enqueue_target oid conn (loc_peer_id l) (loc_message_id l) Message due s) ls s) = replica_locations s \<and>
      telegram_accounts (fold (\<lambda>l s. enqueue_target oid conn (loc_peer_id l) (loc_message_id l) Message due s) ls s) = telegram_accounts s \<and>
      app_settings (fold (\<lambda>l s. enqueue_target oid conn (loc_peer_id l) (loc_message_id l) Message due s) ls s) = app_settings s"
    for oid conn due ls s by (induction ls arbitrary: s) (simp_all add: one)
  show "active_objects st' = active_objects st" "object_manifests st' = object_manifests st"
    "transfer_jobs st' = transfer_jobs st" "multipart_uploads st' = multipart_uploads st"
    "replica_locations st' = replica_locations st" "telegram_accounts st' = telegram_accounts st"
    "transfer_sequence st' = transfer_sequence st" "send_attempts st' = send_attempts st"
    "transfer_chunks st' = transfer_chunks st" "app_settings st' = app_settings st"
    using assms
    by (auto simp: enqueue_part_cleanup_preserving_def Let_def bind_res_Inr_iff fold_ one simp del: fold.simps)
qed

lemma enqueue_parts_other:
  assumes "enqueue_parts now retained ps st = Inr st'"
  shows "active_objects st' = active_objects st" "object_manifests st' = object_manifests st"
    "transfer_jobs st' = transfer_jobs st" "multipart_uploads st' = multipart_uploads st"
    "replica_locations st' = replica_locations st" "telegram_accounts st' = telegram_accounts st"
    "transfer_sequence st' = transfer_sequence st" "send_attempts st' = send_attempts st"
    "transfer_chunks st' = transfer_chunks st" "app_settings st' = app_settings st"
  using assms
  by (induction ps arbitrary: st) (auto simp: bind_res_Inr_iff enqueue_part_other)

lemma close_completion_other:
  assumes "close_completion now m completion st = Inr (u, st')"
  shows "active_objects st' = active_objects st" "object_manifests st' = object_manifests st"
    "transfer_jobs st' = transfer_jobs st" "replica_locations st' = replica_locations st"
    "telegram_accounts st' = telegram_accounts st" "transfer_sequence st' = transfer_sequence st"
    "send_attempts st' = send_attempts st" "transfer_chunks st' = transfer_chunks st"
    "app_settings st' = app_settings st"
  using assms
  by (auto simp: close_completion_def bind_res_Inr_iff enqueue_parts_other split: option.splits if_splits)

lemma commit_steps:
  assumes "commit_manifest_inner parse_etag now ts op tr published st = Inr (m', st')"
    and journal: "load_journal_entry st op = Some journal" and open_: "jd_state journal \<noteq> ''committed''"
  obtains stored m current completion st1 where
    "load_manifest_by_object_id st (jd_object_id journal) = Inr (Some stored)"
    "choose_published journal stored published = Inr m"
    "commit_fence now op tr st = Inr ()"
    "key_manifest st (jd_bucket journal) (jd_key journal) = Inr current"
    "commit_conditionals parse_etag tr current st = Inr ()"
    "commit_quota (case tr of Some (jid, _) \<Rightarrow> jid | None \<Rightarrow> jd_object_id journal) journal m st = Inr ()"
    "m' = m\<lparr> commit_state := Committed \<rparr>"
    "commit_transfer_job now op tr (commit_index ts op journal m' st) = Inr ((), st1)"
    "close_completion now m' completion st1 = Inr ((), st')"
  using assms unfolding commit_manifest_inner_def
  by (auto simp: bind_res_Inr_iff ok_or_Inr_iff Let_def)

lemma manifest_row_commit:
  assumes "load_manifest_by_object_id st oid = Inr (Some stored)" "m_object_id m = oid"
  shows "\<exists>r. manifest_row_of st oid = Some r \<and>
    manifest_row_of (commit_index ts op journal m st) oid =
      Some (r\<lparr> om_commit_state := Committed, om_manifest := m, om_committed_at := Some ts, om_tombstoned_at := None \<rparr>)"
proof -
  obtain r where r: "find (\<lambda>r. om_object_id r = oid) (object_manifests st) = Some r"
    using assms(1) by (auto simp: load_manifest_by_object_id_def split: option.splits sum.splits)
  have "om_object_id r = oid" using find_Some_mem[OF r] by simp
  moreover have "find (\<lambda>r. om_object_id r = oid) (object_manifests (commit_index ts op journal m st)) =
    map_option (\<lambda>r. if om_object_id r = m_object_id m
        then r\<lparr> om_commit_state := Committed, om_manifest := m, om_committed_at := Some ts, om_tombstoned_at := None \<rparr>
        else r) (find (\<lambda>r. om_object_id r = oid) (object_manifests st))"
    unfolding commit_index_def by (simp, rule find_update_where_same) simp
  ultimately show ?thesis using r assms(2) by (simp add: manifest_row_of_def)
qed

lemma commit_transfer_job_other:
  assumes "commit_transfer_job now op tr st = Inr (u, st')"
  shows "active_objects st' = active_objects st" "object_manifests st' = object_manifests st"
    "app_settings st' = app_settings st" "replica_locations st' = replica_locations st"
    "telegram_accounts st' = telegram_accounts st"
  using assms
  by (auto simp: commit_transfer_job_def jobs_update_one_def jobs_update_def split: option.splits if_splits)

lemma commit_transfer_steps:
  assumes "commit_transfer_manifest parse_etag now ts op jid lease published st = Inr (m', st')"
    and journal: "load_journal_entry st op = Some journal" "jd_state journal \<noteq> ''committed''"
  shows "m' = published\<lparr> commit_state := Committed \<rparr>" "validate published = Inr ()"
    and "m_object_id published = jd_object_id journal"
    and "active_objects st' = put_active (m_bucket published) (m_key published) (m_object_id published) ts
           (active_objects st)"
    and "object_manifests st' = object_manifests (commit_index ts op journal m' st)"
    and "\<exists>stored. load_manifest_by_object_id st (m_object_id published) = Inr (Some stored)"
    and "commit_fence now op (Some (jid, lease)) st = Inr ()"
    and "commit_quota jid journal published st = Inr ()"
    and "\<exists>current. key_manifest st (jd_bucket journal) (jd_key journal) = Inr current \<and>
           commit_conditionals parse_etag (Some (jid, lease)) current st = Inr ()"
    and "transfer_jobs st' = update_where
           (\<lambda>j. tj_id j = jid \<and> tj_lease j = Some lease \<and> tj_state j = TCommitting) (complete_job now)
           (transfer_jobs st)"
    and "count_where (\<lambda>j. tj_id j = jid \<and> tj_lease j = Some lease \<and> tj_state j = TCommitting)
           (transfer_jobs st) = 1"
proof -
  obtain stored m current completion st1 where c:
    "load_manifest_by_object_id st (jd_object_id journal) = Inr (Some stored)"
    "choose_published journal stored (Some published) = Inr m"
    "commit_fence now op (Some (jid, lease)) st = Inr ()"
    "key_manifest st (jd_bucket journal) (jd_key journal) = Inr current"
    "commit_conditionals parse_etag (Some (jid, lease)) current st = Inr ()"
    "commit_quota jid journal m st = Inr ()"
    "m' = m\<lparr> commit_state := Committed \<rparr>"
    "commit_transfer_job now op (Some (jid, lease)) (commit_index ts op journal m' st) = Inr ((), st1)"
    "close_completion now m' completion st1 = Inr ((), st')"
    by (rule commit_steps[OF assms(1)[unfolded commit_transfer_manifest_def] journal]) simp
  have m: "m = published" "validate published = Inr ()" "m_object_id published = jd_object_id journal"
    using c(2) by (auto simp: choose_published_def bind_res_Inr_iff map_err_Inr_iff split: if_splits)
  have idx: "active_objects (commit_index ts op journal m' st) =
      put_active (m_bucket published) (m_key published) (m_object_id published) ts (active_objects st)"
    "transfer_jobs (commit_index ts op journal m' st) = transfer_jobs st"
    by (simp_all add: commit_index_def c(7) m(1))
  show "m' = published\<lparr> commit_state := Committed \<rparr>" "validate published = Inr ()"
    "m_object_id published = jd_object_id journal"
    "commit_fence now op (Some (jid, lease)) st = Inr ()" "commit_quota jid journal published st = Inr ()"
    "\<exists>stored. load_manifest_by_object_id st (m_object_id published) = Inr (Some stored)"
    using c m by auto
  show "active_objects st' = put_active (m_bucket published) (m_key published) (m_object_id published) ts
           (active_objects st)"
    "object_manifests st' = object_manifests (commit_index ts op journal m' st)"
    using close_completion_other[OF c(9)] commit_transfer_job_other[OF c(8)] idx by simp_all
  show "\<exists>current. key_manifest st (jd_bucket journal) (jd_key journal) = Inr current \<and>
           commit_conditionals parse_etag (Some (jid, lease)) current st = Inr ()"
    using c by blast
  show "transfer_jobs st' = update_where
           (\<lambda>j. tj_id j = jid \<and> tj_lease j = Some lease \<and> tj_state j = TCommitting) (complete_job now)
           (transfer_jobs st)"
    "count_where (\<lambda>j. tj_id j = jid \<and> tj_lease j = Some lease \<and> tj_state j = TCommitting)
           (transfer_jobs st) = 1"
    using close_completion_other(3)[OF c(9)] c(8) idx(2)
    by (auto simp: commit_transfer_job_def jobs_update_one_def split: if_splits)
qed

lemma commit_fence_job:
  assumes "commit_fence now op (Some (jid, lease)) st = Inr ()"
  shows "\<exists>j \<in> set (transfer_jobs st). tj_id j = jid \<and> tj_state j = TCommitting \<and> tj_lease j = Some lease \<and>
    now \<le> tj_lease_until j \<and> tj_operation_id j = Some op \<and> \<not> older_pending st j \<and> \<not> newer_committed st j"
proof -
  obtain j where j: "transfer jid st = Some j"
    using assms by (auto simp: commit_fence_def split: option.splits)
  have "j \<in> set (transfer_jobs st)" "tj_id j = jid"
    using find_Some_mem[OF j[unfolded transfer_def]] by auto
  thus ?thesis using assms j by (intro bexI[of _ j]) (auto simp: commit_fence_def split: if_splits)
qed

text \<open>
  C7: A committed transfer is published exactly: it succeeds only for the
  holder of an unexpired lease on a job in state \<open>committing\<close>, with no older
  pending and no newer committed write of the key; afterwards the key resolves
  to the published manifest, every other key resolves as before, and the job
  is completed.
\<close>

theorem commit_publishes:
  assumes "commit_transfer_manifest parse_etag now ts op jid lease published st = Inr (m', st')"
    and "load_journal_entry st op = Some journal" "jd_state journal \<noteq> ''committed''"
  shows "(\<exists>j \<in> set (transfer_jobs st). tj_id j = jid \<and> tj_state j = TCommitting \<and> tj_lease j = Some lease \<and>
            now \<le> tj_lease_until j \<and> tj_operation_id j = Some op \<and>
            \<not> older_pending st j \<and> \<not> newer_committed st j) \<and>
         (\<exists>j \<in> set (transfer_jobs st'). tj_id j = jid \<and> tj_state j = TCompleted \<and> tj_lease j = None) \<and>
         get_manifest (m_object_id published) st' = Inr (Some (published\<lparr> commit_state := Committed \<rparr>)) \<and>
         (\<forall>b k. active_object_id st' b k =
            (if b = m_bucket published \<and> k = m_key published then Some (m_object_id published)
             else active_object_id st b k))"
proof (intro conjI allI)
  note steps = commit_transfer_steps[OF assms]
  show "active_object_id st' b k = (if b = m_bucket published \<and> k = m_key published
      then Some (m_object_id published) else active_object_id st b k)" for b k
    unfolding active_object_id_def steps(4) by (rule active_key_put_active)
  show fence: "\<exists>j \<in> set (transfer_jobs st). tj_id j = jid \<and> tj_state j = TCommitting \<and> tj_lease j = Some lease \<and>
            now \<le> tj_lease_until j \<and> tj_operation_id j = Some op \<and>
            \<not> older_pending st j \<and> \<not> newer_committed st j"
    by (rule commit_fence_job[OF steps(7)])
  obtain stored where "load_manifest_by_object_id st (m_object_id published) = Inr (Some stored)"
    using steps(6) by blast
  from manifest_row_commit[OF this, of m' ts op journal] steps(1) obtain r where
    "manifest_row_of (commit_index ts op journal m' st) (m_object_id published) =
       Some (r\<lparr> om_commit_state := Committed, om_manifest := m', om_committed_at := Some ts, om_tombstoned_at := None \<rparr>)"
    by auto
  thus "get_manifest (m_object_id published) st' = Inr (Some (published\<lparr> commit_state := Committed \<rparr>))"
    using steps(1,2,5) by (simp add: get_manifest_def load_manifest_by_object_id_def manifest_row_of_def)
  obtain j where "j \<in> set (transfer_jobs st)" "tj_id j = jid" "tj_lease j = Some lease" "tj_state j = TCommitting"
    using fence by blast
  thus "\<exists>j \<in> set (transfer_jobs st'). tj_id j = jid \<and> tj_state j = TCompleted \<and> tj_lease j = None"
    unfolding steps(10) by (auto simp: bex_update_where complete_job_def intro!: bexI[of _ j])
qed

definition empty_object :: "string \<Rightarrow> ObjectManifest" where
  "empty_object oid =
     \<lparr> schema_version = 2, commit_state = Staging, m_object_id = oid, m_bucket = ''b'', m_key = ''k'',
       version_id = None, content_length = 0, content_type = ''text'', user_metadata = [], tags = [],
       created_at = 0, expires_at = None,
       m_checksum = \<lparr> cs_algorithm = ''sha256'', whole_object = ''e'' \<rparr>,
       encryption = \<lparr> enc_enabled = False, enc_format = ''none'', enc_key_id = None \<rparr>,
       telegram = \<lparr> loc_peer_id = ''p'', loc_message_id = 9, loc_document_id = None \<rparr>, chunks = [] \<rparr>"

definition bucket_store :: store where
  "bucket_store = empty_store\<lparr> buckets := [\<lparr> bk_name = ''b'', bk_connection_id = ''legacy'',
     bk_created_at = ''t'', bk_deleted_at = None, bk_versioning_enabled = False,
     bk_object_locking_enabled = False \<rparr>] \<rparr>"

definition upload_run :: "string \<Rightarrow> store \<Rightarrow> store" where
  "upload_run oid s0 =
     (let s1 = keep s0 (begin_transfer 0 oid ''b'' ''k'' s0);
          s2 = keep s1 (stage_manifest ''t'' Put (empty_object oid) s1);
          s3 = keep s2 (queue_transfer 1 oid oid 0 s2);
          s4 = snd (claim_transfer 2 ''L'' s3)
      in keep s4 (enter_committing 3 oid ''L'' s4))"

theorem commit_publishes_witness:
  "\<exists>m' st'. commit_transfer_manifest (\<lambda>_. None) 4 ''t2'' ''o'' ''o'' ''L'' (empty_object ''o'')
       (upload_run ''o'' bucket_store) = Inr (m', st') \<and>
     active_object_id st' ''b'' ''k'' = Some ''o''"
proof -
  let ?st = "upload_run ''o'' bucket_store"
  have "case commit_transfer_manifest (\<lambda>_. None) 4 ''t2'' ''o'' ''o'' ''L'' (empty_object ''o'') ?st of
      Inl _ \<Rightarrow> False | Inr _ \<Rightarrow> True"
    by code_simp
  then obtain m' st' where c: "commit_transfer_manifest (\<lambda>_. None) 4 ''t2'' ''o'' ''o'' ''L'' (empty_object ''o'') ?st =
      Inr (m', st')"
    by (auto split: sum.splits)
  have "map_option jd_state (load_journal_entry ?st ''o'') = Some ''staging''" by code_simp
  then obtain journal where j: "load_journal_entry ?st ''o'' = Some journal" "jd_state journal \<noteq> ''committed''"
    by auto
  have "active_object_id st' ''b'' ''k'' = Some ''o''"
    using commit_publishes[OF c j] by (simp add: empty_object_def)
  thus ?thesis using c by blast
qed

section \<open>Deleting\<close>

lemma enqueue_manifest_other [simp]:
  "active_objects (enqueue_manifest_cleanup_at m due st) = active_objects st"
  "object_manifests (enqueue_manifest_cleanup_at m due st) = object_manifests st"
  "transfer_jobs (enqueue_manifest_cleanup_at m due st) = transfer_jobs st"
  "transfer_sequence (enqueue_manifest_cleanup_at m due st) = transfer_sequence st"
  "send_attempts (enqueue_manifest_cleanup_at m due st) = send_attempts st"
  "transfer_chunks (enqueue_manifest_cleanup_at m due st) = transfer_chunks st"
  "operation_journal (enqueue_manifest_cleanup_at m due st) = operation_journal st"
  "app_settings (enqueue_manifest_cleanup_at m due st) = app_settings st"
proof -
  have one: "active_objects (enqueue_target oid conn p msg kind due s) = active_objects s"
      "object_manifests (enqueue_target oid conn p msg kind due s) = object_manifests s"
      "operation_journal (enqueue_target oid conn p msg kind due s) = operation_journal s"
      "app_settings (enqueue_target oid conn p msg kind due s) = app_settings s" for oid conn p msg kind due s
    by (simp_all add: enqueue_target_def)
  note inv = fold_invariant[where xs = "chunks m"]
  show "active_objects (enqueue_manifest_cleanup_at m due st) = active_objects st"
    unfolding enqueue_manifest_cleanup_at_def Let_def
    by (auto simp: one intro!: inv[where P = "\<lambda>s. active_objects s = active_objects st"])
  show "object_manifests (enqueue_manifest_cleanup_at m due st) = object_manifests st"
    unfolding enqueue_manifest_cleanup_at_def Let_def
    by (auto simp: one intro!: inv[where P = "\<lambda>s. object_manifests s = object_manifests st"])
  show "transfer_jobs (enqueue_manifest_cleanup_at m due st) = transfer_jobs st"
    unfolding enqueue_manifest_cleanup_at_def Let_def
    by (auto intro!: inv[where P = "\<lambda>s. transfer_jobs s = transfer_jobs st"])
  show "transfer_sequence (enqueue_manifest_cleanup_at m due st) = transfer_sequence st"
    unfolding enqueue_manifest_cleanup_at_def Let_def
    by (auto intro!: inv[where P = "\<lambda>s. transfer_sequence s = transfer_sequence st"])
  show "send_attempts (enqueue_manifest_cleanup_at m due st) = send_attempts st"
    unfolding enqueue_manifest_cleanup_at_def Let_def
    by (auto intro!: inv[where P = "\<lambda>s. send_attempts s = send_attempts st"])
  show "transfer_chunks (enqueue_manifest_cleanup_at m due st) = transfer_chunks st"
    unfolding enqueue_manifest_cleanup_at_def Let_def
    by (auto intro!: inv[where P = "\<lambda>s. transfer_chunks s = transfer_chunks st"])
  show "operation_journal (enqueue_manifest_cleanup_at m due st) = operation_journal st"
    unfolding enqueue_manifest_cleanup_at_def Let_def
    by (auto simp: one intro!: inv[where P = "\<lambda>s. operation_journal s = operation_journal st"])
  show "app_settings (enqueue_manifest_cleanup_at m due st) = app_settings st"
    unfolding enqueue_manifest_cleanup_at_def Let_def
    by (auto simp: one intro!: inv[where P = "\<lambda>s. app_settings s = app_settings st"])
qed

lemma enqueue_target_jobs_update:
  "enqueue_target oid conn p msg kind due (jobs_update P f st) =
   jobs_update P f (enqueue_target oid conn p msg kind due st)"
  by (simp add: enqueue_target_def jobs_update_def)

lemma enqueue_manifest_jobs_update:
  "enqueue_manifest_cleanup_at m due (jobs_update P f st) = jobs_update P f (enqueue_manifest_cleanup_at m due st)"
proof -
  have f: "fold (\<lambda>c s. if 0 < ck_message_id c
        then enqueue_target oid conn (ck_peer_id c) (ck_message_id c) Message due s else s) cs (jobs_update P f s) =
      jobs_update P f (fold (\<lambda>c s. if 0 < ck_message_id c
        then enqueue_target oid conn (ck_peer_id c) (ck_message_id c) Message due s else s) cs s)" for oid conn cs s
    by (induction cs arbitrary: s) (simp_all add: enqueue_target_jobs_update)
  have "active_connection_id (jobs_update P f st) = active_connection_id st"
    by (simp add: active_connection_id_def jobs_update_def)
  thus ?thesis
    by (simp add: enqueue_manifest_cleanup_at_def Let_def enqueue_target_jobs_update f)
qed

lemma cancel_key_jobs_other [simp]:
  "active_object_id (cancel_key_jobs now b k st) = active_object_id st"
  "load_manifest_by_object_id (cancel_key_jobs now b k st) = load_manifest_by_object_id st"
  "active_objects (cancel_key_jobs now b k st) = active_objects st"
  "object_manifests (cancel_key_jobs now b k st) = object_manifests st"
  "operation_journal (cancel_key_jobs now b k st) = operation_journal st"
  "cleanup_targets (enqueue_manifest_cleanup_at m due (cancel_key_jobs now b k st)) =
   cleanup_targets (enqueue_manifest_cleanup_at m due st)"
  by (simp_all add: cancel_key_jobs_def enqueue_manifest_jobs_update)
    (simp_all add: jobs_update_def active_object_id_def load_manifest_by_object_id_def fun_eq_iff)



definition committed_run :: "string \<Rightarrow> string \<Rightarrow> store \<Rightarrow> store" where
  "committed_run ts oid s0 =
     (let s = upload_run oid s0
      in keep s (commit_transfer_manifest (\<lambda>_. None) 4 ts oid oid ''L'' (empty_object oid) s))"


text \<open>
  An overwrite leaves the previous version's manifest row \<open>committed\<close>.  Deleting
  the key tombstones only the active version, so the next \<open>rebuild_index\<close>
  (which runs whenever the database is opened) makes the overwritten version
  visible again.
\<close>

lemma overwritten_version_resurrected:
  "(case delete_active_key 9 ''t3'' ''b'' ''k'' ''gone'' None None None
          (committed_run ''t2'' ''o2'' (committed_run ''t1'' ''o1'' bucket_store)) of
      Inr (Some m, st') \<Rightarrow>
        m_object_id m = ''o2'' \<and> active_object_id st' ''b'' ''k'' = None \<and>
        vr_mismatched_rows (verify_index_internal st') = 1 \<and>
        active_object_id (snd (rebuild_index_internal ''t4'' st')) ''b'' ''k'' = Some ''o1''
    | _ \<Rightarrow> False)"
  by code_simp

end
