(* ===== verification/Index_Invariant.thy ===== *)
theory Index_Invariant
  imports Index
begin

text \<open>
  The invariant of the object index.  Manifest rows agree with the manifest they hold, a
  journal entry names the bucket and key of its object, and every row of \<open>active_objects\<close>
  points to a committed manifest of the same bucket and key.  A commit keeps it; the other
  operations follow in \<open>Object_Map\<close>.
\<close>

section \<open>The index invariant\<close>

definition row_matches :: "manifest_row \<Rightarrow> bool" where
  "row_matches r \<longleftrightarrow>
     m_object_id (om_manifest r) = om_object_id r \<and> m_bucket (om_manifest r) = om_bucket r \<and>
     m_key (om_manifest r) = om_key r \<and> commit_state (om_manifest r) = om_commit_state r"

definition active_ok :: "manifest_row list \<Rightarrow> active_row \<Rightarrow> bool" where
  "active_ok rows a \<longleftrightarrow>
     (\<exists>r \<in> set rows. om_object_id r = ao_object_id a \<and> om_bucket r = ao_bucket a \<and> om_key r = ao_key a \<and>
        om_commit_state r = Committed)"

definition journal_ok :: "manifest_row list \<Rightarrow> journal_row \<Rightarrow> bool" where
  "journal_ok rows e \<longleftrightarrow>
     jd_object_id (oj_details e) = oj_operation_id e \<and>
     (\<forall>r \<in> set rows. om_object_id r = oj_operation_id e \<longrightarrow>
        om_bucket r = jd_bucket (oj_details e) \<and> om_key r = jd_key (oj_details e))"

definition index_wf :: "store \<Rightarrow> bool" where
  "index_wf st \<longleftrightarrow>
     distinct (map om_object_id (object_manifests st)) \<and>
     distinct (map active_key (active_objects st)) \<and>
     list_all row_matches (object_manifests st) \<and>
     list_all (active_ok (object_manifests st)) (active_objects st) \<and>
     list_all (journal_ok (object_manifests st)) (operation_journal st)"

lemma index_wf_cong:
  assumes "object_manifests st' = object_manifests st" "active_objects st' = active_objects st"
    "operation_journal st' = operation_journal st"
  shows "index_wf st' = index_wf st"
  using assms by (simp add: index_wf_def)

lemma row_unique:
  "index_wf st \<Longrightarrow> r \<in> set (object_manifests st) \<Longrightarrow> r' \<in> set (object_manifests st) \<Longrightarrow>
   om_object_id r = om_object_id r' \<Longrightarrow> r = r'"
  using distinct_key_eq[of om_object_id "object_manifests st" r r'] by (simp add: index_wf_def)

lemma manifest_row_of_mem:
  assumes "manifest_row_of st oid = Some r"
  shows "r \<in> set (object_manifests st)" "om_object_id r = oid"
  using find_Some_mem[OF assms[unfolded manifest_row_of_def]] by auto

lemma manifest_row_of_eq:
  assumes "index_wf st" "r \<in> set (object_manifests st)"
  shows "manifest_row_of st (om_object_id r) = Some r"
  unfolding manifest_row_of_def
  using find_distinct_key[of om_object_id "object_manifests st" r] assms by (simp add: index_wf_def)

text \<open>Replacing the manifest in one row, with the active rows that remain valid.\<close>

definition keeps_identity :: "(manifest_row \<Rightarrow> bool) \<Rightarrow> (manifest_row \<Rightarrow> manifest_row) \<Rightarrow> bool" where
  "keeps_identity P f \<longleftrightarrow>
     (\<forall>r. P r \<longrightarrow> om_object_id (f r) = om_object_id r \<and> om_bucket (f r) = om_bucket r \<and> om_key (f r) = om_key r)"

lemma journal_ok_update:
  assumes "keeps_identity P f" "journal_ok rows e"
  shows "journal_ok (update_where P f rows) e"
  using assms unfolding journal_ok_def keeps_identity_def
  by (auto simp: mem_update_where split: if_splits)

lemma active_ok_update:
  assumes "active_ok rows a" "keeps_identity P f"
    and "\<And>r. r \<in> set rows \<Longrightarrow> P r \<Longrightarrow> om_object_id r = ao_object_id a \<Longrightarrow> om_commit_state (f r) = Committed"
  shows "active_ok (update_where P f rows) a"
proof -
  obtain r where r: "r \<in> set rows" "om_object_id r = ao_object_id a" "om_bucket r = ao_bucket a"
      "om_key r = ao_key a" "om_commit_state r = Committed"
    using assms(1) by (auto simp: active_ok_def)
  have "om_commit_state (if P r then f r else r) = Committed" using assms(3)[OF r(1)] r by simp
  thus ?thesis unfolding active_ok_def bex_update_where
    using r assms(2) by (intro bexI[OF _ r(1)]) (auto simp: keeps_identity_def)
qed

lemma row_matches_update:
  assumes "list_all row_matches rows" "\<And>r. r \<in> set rows \<Longrightarrow> P r \<Longrightarrow> row_matches r \<Longrightarrow> row_matches (f r)"
  shows "list_all row_matches (update_where P f rows)"
  using assms by (induction rows) auto

lemma index_wf_update:
  assumes wf: "index_wf st"
    and keeps: "keeps_identity P f"
    and rows: "\<And>r. r \<in> set (object_manifests st) \<Longrightarrow> P r \<Longrightarrow> row_matches r \<Longrightarrow> row_matches (f r)"
    and manifests: "object_manifests st' = update_where P f (object_manifests st)"
    and active: "distinct (map active_key (active_objects st'))"
      "\<And>a. a \<in> set (active_objects st') \<Longrightarrow> active_ok (update_where P f (object_manifests st)) a"
    and journal: "map oj_details (operation_journal st') = map oj_details (operation_journal st)"
      "map oj_operation_id (operation_journal st') = map oj_operation_id (operation_journal st)"
  shows "index_wf st'"
proof -
  have ids: "map om_object_id (update_where P f (object_manifests st)) = map om_object_id (object_manifests st)"
    using keeps by (auto simp: keeps_identity_def intro!: map_update_where_same)
  have "journal_ok (update_where P f (object_manifests st)) e" if e: "e \<in> set (operation_journal st')" for e
  proof -
    obtain i where i: "i < length (operation_journal st')" "e = operation_journal st' ! i"
      using e by (auto simp: in_set_conv_nth)
    have len: "length (operation_journal st') = length (operation_journal st)"
      using journal(1) by (metis length_map)
    let ?e0 = "operation_journal st ! i"
    have "oj_details e = oj_details ?e0" "oj_operation_id e = oj_operation_id ?e0"
      using i len journal by (metis nth_map)+
    moreover have "journal_ok (update_where P f (object_manifests st)) ?e0"
      using wf i len by (auto simp: index_wf_def list_all_iff intro!: journal_ok_update[OF keeps])
    ultimately show ?thesis by (simp add: journal_ok_def)
  qed
  thus ?thesis
    using wf active row_matches_update[of "object_manifests st" P f] rows ids
    by (auto simp: index_wf_def manifests list_all_iff)
qed

section \<open>Every operation keeps it\<close>

lemma active_rows_put:
  "a \<in> set (put_active b k oid ts rows) \<Longrightarrow>
   (ao_bucket a = b \<and> ao_key a = k \<and> ao_object_id a = oid) \<or>
   (a \<in> set rows \<and> \<not> (ao_bucket a = b \<and> ao_key a = k))"
  by (auto simp: put_active_def upsert_def mem_update_where split: if_splits)
    (drule arg_cong[of _ _ ao_object_id], simp)

lemma index_wf_active_row:
  assumes "index_wf st" "a \<in> set (active_objects st)"
  shows "active_ok (object_manifests st) a"
  using assms by (simp add: index_wf_def list_all_iff)

lemma other_key_other_object:
  assumes wf: "index_wf st" and a: "a \<in> set (active_objects st)"
    and r: "r \<in> set (object_manifests st)" "\<not> (ao_bucket a = om_bucket r \<and> ao_key a = om_key r)"
  shows "ao_object_id a \<noteq> om_object_id r"
proof
  assume eq: "ao_object_id a = om_object_id r"
  obtain r' where r': "r' \<in> set (object_manifests st)" "om_object_id r' = ao_object_id a"
      "om_bucket r' = ao_bucket a" "om_key r' = ao_key a"
    using index_wf_active_row[OF wf a] by (auto simp: active_ok_def)
  have "r' = r" using row_unique[OF wf r'(1) r(1)] r'(2) eq by simp
  thus False using r' r(2) by simp
qed

lemma journal_entry_row:
  assumes wf: "index_wf st" and j: "load_journal_entry st op = Some journal"
    and r: "r \<in> set (object_manifests st)" "om_object_id r = jd_object_id journal"
  shows "om_bucket r = jd_bucket journal" "om_key r = jd_key journal"
proof -
  obtain e where e: "find (\<lambda>e. oj_operation_id e = op) (operation_journal st) = Some e" "oj_details e = journal"
    using j by (auto simp: load_journal_entry_def)
  have "journal_ok (object_manifests st) e"
    using find_Some_mem[OF e(1)] wf by (simp add: index_wf_def list_all_iff)
  thus "om_bucket r = jd_bucket journal" "om_key r = jd_key journal"
    using e(2) r by (auto simp: journal_ok_def)
qed

lemma commit_transfer_journal:
  assumes "commit_transfer_job now op tr st = Inr (u, st')"
  shows "operation_journal st' = operation_journal st"
  using assms
  by (auto simp: commit_transfer_job_def jobs_update_one_def jobs_update_def split: option.splits if_splits)

lemma enqueue_parts_journal:
  "enqueue_parts now retained ps st = Inr st' \<Longrightarrow> operation_journal st' = operation_journal st"
proof (induction ps arbitrary: st)
  case (Cons p ps)
  have one: "operation_journal (enqueue_target oid conn q msg kind due s) = operation_journal s"
    for oid conn q msg kind due s by (simp add: enqueue_target_def)
  have fold_: "operation_journal (fold (\<lambda>l s. enqueue_target oid conn (loc_peer_id l) (loc_message_id l) Message due s) ls s)
      = operation_journal s" for oid conn due ls s
    by (induction ls arbitrary: s) (simp_all add: one)
  have "operation_journal s = operation_journal st" if "enqueue_part_cleanup_preserving now (pr_part p) retained st = Inr s" for s
    using that by (auto simp: enqueue_part_cleanup_preserving_def Let_def bind_res_Inr_iff fold_ one simp del: fold.simps)
  thus ?case using Cons by (auto simp: bind_res_Inr_iff)
qed simp

lemma close_completion_journal:
  "close_completion now m completion st = Inr (u, st') \<Longrightarrow> operation_journal st' = operation_journal st"
  by (auto simp: close_completion_def bind_res_Inr_iff enqueue_parts_journal split: option.splits if_splits)

lemma index_wf_commit_index:
  assumes wf: "index_wf st" and j: "load_journal_entry st op = Some journal"
    and ids: "m_object_id m = jd_object_id journal" "m_bucket m = jd_bucket journal" "m_key m = jd_key journal"
      "commit_state m = Committed"
    and row: "manifest_row_of st (jd_object_id journal) = Some r"
  shows "index_wf (commit_index ts op journal m st)"
proof -
  let ?P = "\<lambda>r. om_object_id r = m_object_id m"
  let ?f = "\<lambda>r. r\<lparr> om_commit_state := Committed, om_manifest := m, om_committed_at := Some ts, om_tombstoned_at := None \<rparr>"
  have keeps: "keeps_identity ?P ?f" by (simp add: keeps_identity_def)
  have r: "r \<in> set (object_manifests st)" "om_object_id r = m_object_id m"
    using manifest_row_of_mem[OF row] ids(1) by simp_all
  have key: "om_bucket x = m_bucket m" "om_key x = m_key m"
    if "x \<in> set (object_manifests st)" "om_object_id x = m_object_id m" for x
    using journal_entry_row[OF wf j that(1)] that(2) ids by simp_all
  show ?thesis
  proof (rule index_wf_update[OF wf keeps])
    show "row_matches (?f x)" if "x \<in> set (object_manifests st)" "?P x" "row_matches x" for x
      using key[of x] that ids(4) by (simp add: row_matches_def)
    show "object_manifests (commit_index ts op journal m st) = update_where ?P ?f (object_manifests st)"
      by (simp add: commit_index_def)
    show "distinct (map active_key (active_objects (commit_index ts op journal m st)))"
      using wf by (simp add: commit_index_def distinct_put_active index_wf_def)
    show "map oj_details (operation_journal (commit_index ts op journal m st)) = map oj_details (operation_journal st)"
      "map oj_operation_id (operation_journal (commit_index ts op journal m st)) = map oj_operation_id (operation_journal st)"
      by (simp_all add: commit_index_def map_update_where_same)
    fix a assume "a \<in> set (active_objects (commit_index ts op journal m st))"
    hence "(ao_bucket a = m_bucket m \<and> ao_key a = m_key m \<and> ao_object_id a = m_object_id m) \<or>
        a \<in> set (active_objects st)"
      by (auto simp: commit_index_def dest!: active_rows_put)
    thus "active_ok (update_where ?P ?f (object_manifests st)) a"
    proof
      assume "ao_bucket a = m_bucket m \<and> ao_key a = m_key m \<and> ao_object_id a = m_object_id m"
      thus ?thesis unfolding active_ok_def bex_update_where
        using r key[OF r] by (intro bexI[OF _ r(1)]) auto
    next
      assume "a \<in> set (active_objects st)"
      thus ?thesis using index_wf_active_row[OF wf] keeps by (intro active_ok_update) auto
    qed
  qed
qed

lemma index_wf_commit:
  assumes wf: "index_wf st"
    and c: "commit_transfer_manifest parse_etag now ts op jid lease published st = Inr (m', st')"
    and j: "load_journal_entry st op = Some journal" "jd_state journal \<noteq> ''committed''"
  shows "index_wf st'"
proof -
  obtain stored m current completion st1 where s:
    "load_manifest_by_object_id st (jd_object_id journal) = Inr (Some stored)"
    "choose_published journal stored (Some published) = Inr m"
    "commit_fence now op (Some (jid, lease)) st = Inr ()"
    "key_manifest st (jd_bucket journal) (jd_key journal) = Inr current"
    "commit_conditionals parse_etag (Some (jid, lease)) current st = Inr ()"
    "commit_quota jid journal m st = Inr ()"
    "m' = m\<lparr> commit_state := Committed \<rparr>"
    "commit_transfer_job now op (Some (jid, lease)) (commit_index ts op journal m' st) = Inr ((), st1)"
    "close_completion now m' completion st1 = Inr ((), st')"
    by (rule commit_steps[OF c[unfolded commit_transfer_manifest_def] j]) simp
  have ids: "m_object_id m' = jd_object_id journal" "m_bucket m' = jd_bucket journal" "m_key m' = jd_key journal"
      "commit_state m' = Committed"
    using s(2,7) by (auto simp: choose_published_def bind_res_Inr_iff map_err_Inr_iff split: if_splits)
  obtain r where "manifest_row_of st (jd_object_id journal) = Some r"
    using s(1) by (auto simp: load_manifest_by_object_id_def manifest_row_of_def split: option.splits sum.splits)
  hence "index_wf (commit_index ts op journal m' st)" by (rule index_wf_commit_index[OF wf j(1) ids])
  moreover have "index_wf st' = index_wf (commit_index ts op journal m' st)"
    using close_completion_other[OF s(9)] commit_transfer_job_other[OF s(8)]
      close_completion_journal[OF s(9)] commit_transfer_journal[OF s(8)]
    by (intro index_wf_cong) simp_all
  ultimately show ?thesis by simp
qed

end
