(* ===== verification/Encoding.thy ===== *)
theory Encoding
  imports Manifest
begin

text \<open>
  Byte encodings: fixed-width big-endian integers, UTF-8 text, and the input of the
  composite checksum of a multipart object (\<open>object_format.rs\<close>), with the lemmas
  that they can be read back.
\<close>

text \<open>
  The composite checksum hashes the number, size and checksum of every part; texts
  are prefixed with their length.  \<open>as_bytes\<close> is the UTF-8 encoding.
\<close>

fun to_be_bytes :: "nat \<Rightarrow> nat \<Rightarrow> byte list" where
  "to_be_bytes 0 n = []"
| "to_be_bytes (Suc w) n = to_be_bytes w (n div 256) @ [n mod 256]"

definition utf8_char :: "char \<Rightarrow> byte list" where
  "utf8_char c = (let n = of_char c in if n < 128 then [n] else [192 + n div 64, 128 + n mod 64])"

definition as_bytes :: "string \<Rightarrow> byte list" where
  "as_bytes s = concat (map utf8_char s)"

definition update_checksum_component :: "string \<Rightarrow> byte list" where
  "update_checksum_component v = to_be_bytes 8 (length (as_bytes v)) @ as_bytes v"

definition MULTIPART_CHECKSUM_ALGORITHM :: string where
  "MULTIPART_CHECKSUM_ALGORITHM = ''sha256-parts-v1''"

definition composite_seed :: "byte list" where
  "composite_seed = as_bytes ''telegram-s3-multipart-sha256-v1'' @ [0]"

definition composite_part :: "nat \<Rightarrow> nat \<Rightarrow> ObjectChecksum \<Rightarrow> byte list" where
  "composite_part number len c =
     to_be_bytes 4 number @ to_be_bytes 8 len @
     update_checksum_component (cs_algorithm c) @ update_checksum_component (whole_object c)"

section \<open>The composite checksum is unambiguous\<close>

lemma length_to_be_bytes [simp]: "length (to_be_bytes w n) = w"
  by (induction w arbitrary: n) auto

lemma to_be_bytes_inject:
  "a < 256 ^ w \<Longrightarrow> b < 256 ^ w \<Longrightarrow> to_be_bytes w a = to_be_bytes w b \<Longrightarrow> a = b"
proof (induction w arbitrary: a b)
  case (Suc w)
  have "to_be_bytes w (a div 256) = to_be_bytes w (b div 256)" "a mod 256 = b mod 256"
    using Suc.prems(3) by simp_all
  moreover have "a div 256 < 256 ^ w" "b div 256 < 256 ^ w"
    using Suc.prems(1,2) by (simp_all add: less_mult_imp_div_less mult.commute)
  ultimately have "a div 256 = b div 256" using Suc.IH by blast
  thus ?case using \<open>a mod 256 = b mod 256\<close> by (metis div_mult_mod_eq)
qed simp

lemma utf8_char_prefix:
  assumes "utf8_char c @ xs = utf8_char d @ ys"
  shows "c = d \<and> xs = ys"
proof -
  let ?n = "of_char c :: nat" and ?k = "of_char d :: nat"
  have lt: "?n < 256" "?k < 256" by (simp_all add: of_char_of)
  have "?n = ?k \<and> xs = ys"
  proof (cases "?n < 128"; cases "?k < 128")
    assume "\<not> ?n < 128" "\<not> ?k < 128"
    hence "?n div 64 = ?k div 64" "?n mod 64 = ?k mod 64" "xs = ys"
      using assms by (simp_all add: utf8_char_def Let_def)
    thus ?thesis by (metis div_mult_mod_eq)
  qed (use assms lt in \<open>auto simp: utf8_char_def Let_def\<close>)
  thus ?thesis by simp
qed

lemma utf8_char_nonempty [simp]: "utf8_char c \<noteq> []"
  by (simp add: utf8_char_def Let_def)

lemma as_bytes_inject: "as_bytes s = as_bytes t \<Longrightarrow> s = t"
proof (induction s arbitrary: t)
  case Nil
  thus ?case by (cases t) (auto simp: as_bytes_def)
next
  case (Cons c s)
  then obtain d t' where t: "t = d # t'" by (cases t) (auto simp: as_bytes_def)
  have "utf8_char c @ as_bytes s = utf8_char d @ as_bytes t'" using Cons.prems t by (simp add: as_bytes_def)
  thus ?case using utf8_char_prefix[of c "as_bytes s" d "as_bytes t'"] Cons.IH t by simp
qed

definition short_text :: "string \<Rightarrow> bool" where "short_text s \<longleftrightarrow> length (as_bytes s) < 256 ^ 8"

lemma checksum_component_prefix:
  assumes "update_checksum_component s @ xs = update_checksum_component t @ ys" "short_text s" "short_text t"
  shows "s = t \<and> xs = ys"
proof -
  have "to_be_bytes 8 (length (as_bytes s)) = to_be_bytes 8 (length (as_bytes t)) \<and>
      as_bytes s @ xs = as_bytes t @ ys"
    using assms(1) by (simp add: update_checksum_component_def)
  moreover have "length (as_bytes s) = length (as_bytes t)"
    using calculation to_be_bytes_inject[of "length (as_bytes s)" 8 "length (as_bytes t)"] assms(2,3)
    unfolding short_text_def by blast
  ultimately show ?thesis using as_bytes_inject by auto
qed

definition hashed_part_ok :: "nat \<times> nat \<times> ObjectChecksum \<Rightarrow> bool" where
  "hashed_part_ok = (\<lambda>(n, len, c). n < 256 ^ 4 \<and> len < 256 ^ 8 \<and> short_text (cs_algorithm c) \<and>
     short_text (whole_object c))"

lemma composite_part_prefix:
  assumes eq: "composite_part n len c @ xs = composite_part n' len' c' @ ys"
    and ok: "hashed_part_ok (n, len, c)" "hashed_part_ok (n', len', c')"
  shows "n = n' \<and> len = len' \<and> c = c' \<and> xs = ys"
proof -
  let ?a = "update_checksum_component (cs_algorithm c)" and ?a' = "update_checksum_component (cs_algorithm c')"
  let ?w = "update_checksum_component (whole_object c)" and ?w' = "update_checksum_component (whole_object c')"
  have "to_be_bytes 4 n = to_be_bytes 4 n' \<and> to_be_bytes 8 len = to_be_bytes 8 len' \<and>
      ?a @ ?w @ xs = ?a' @ ?w' @ ys"
    using eq by (simp add: composite_part_def)
  hence nums: "n = n'" "len = len'" and rest: "?a @ ?w @ xs = ?a' @ ?w' @ ys"
    using to_be_bytes_inject[of n 4 n'] to_be_bytes_inject[of len 8 len'] ok
    by (auto simp: hashed_part_ok_def simp del: numeral_eq_Suc)
  have alg: "cs_algorithm c = cs_algorithm c'" "?w @ xs = ?w' @ ys"
    using checksum_component_prefix[OF rest] ok by (simp_all add: hashed_part_ok_def)
  have "whole_object c = whole_object c' \<and> xs = ys"
    using checksum_component_prefix[OF alg(2)] ok by (auto simp: hashed_part_ok_def)
  thus ?thesis using nums alg(1) by (simp add: ObjectChecksum.equality)
qed

lemma composite_part_nonempty [simp]: "composite_part n len c \<noteq> []"
proof
  assume "composite_part n len c = []"
  hence "length (composite_part n len c) = 0" by simp
  thus False by (simp add: composite_part_def)
qed

definition composite_input :: "(nat \<times> nat \<times> ObjectChecksum) list \<Rightarrow> byte list" where
  "composite_input xs = composite_seed @ concat (map (\<lambda>(n, len, c). composite_part n len c) xs)"

lemma composite_input_inject:
  assumes "composite_input xs = composite_input ys"
    and "list_all hashed_part_ok xs" "list_all hashed_part_ok ys"
  shows "xs = ys"
proof -
  have "concat (map (\<lambda>(n, len, c). composite_part n len c) xs) =
      concat (map (\<lambda>(n, len, c). composite_part n len c) ys)" using assms(1) by (simp add: composite_input_def)
  thus ?thesis using assms(2,3)
  proof (induction xs arbitrary: ys)
    case Nil
    thus ?case by (cases ys) auto
  next
    case (Cons x xs)
    then obtain y ys' where ys: "ys = y # ys'" by (cases ys) (auto split: prod.splits)
    obtain n len c n' len' c' where xy: "x = (n, len, c)" "y = (n', len', c')" by (metis prod_cases3)
    let ?rest = "\<lambda>zs. concat (map (\<lambda>(n, len, c). composite_part n len c) zs)"
    have "composite_part n len c @ ?rest xs = composite_part n' len' c' @ ?rest ys'"
      using Cons.prems(1) ys xy by simp
    moreover have "hashed_part_ok (n, len, c)" "hashed_part_ok (n', len', c')"
      using Cons.prems(2,3) ys xy by simp_all
    ultimately have eq: "n = n' \<and> len = len' \<and> c = c' \<and> ?rest xs = ?rest ys'"
      by (rule composite_part_prefix)
    have "xs = ys'" by (rule Cons.IH) (use eq Cons.prems(2,3) ys in simp_all)
    thus ?case using eq xy ys by simp
  qed
qed

text \<open>
  C37: The byte string that the composite checksum hashes determines the list of parts it
  was computed from: two different lists of part numbers, sizes and checksums never
  hash the same input, so a collision of composite checksums is a collision of SHA-256.
\<close>

theorem composite_input_injective:
  assumes "list_all hashed_part_ok xs" "list_all hashed_part_ok ys" "xs \<noteq> ys"
  shows "composite_input xs \<noteq> composite_input ys"
  using composite_input_inject[of xs ys] assms by blast

theorem composite_input_injective_witness:
  "composite_input [(1, 2, \<lparr> cs_algorithm = ''a'', whole_object = ''bc'' \<rparr>)] \<noteq>
   composite_input [(1, 2, \<lparr> cs_algorithm = ''ab'', whole_object = ''c'' \<rparr>)]"
  by (rule composite_input_injective)
    (simp_all add: hashed_part_ok_def short_text_def as_bytes_def utf8_char_def)

end
