(* ===== verification/Multipart.thy ===== *)
theory Multipart
  imports Index_Invariant Encoding
begin

text \<open>
  Multipart uploads: the session and part tables (\<open>metadata/multipart.rs\<close>), the
  publication of a part and the abort of a session (\<open>durable.rs\<close>), and the
  completion, which composes the manifest of the object from the manifests of its
  parts without copying a payload (\<open>object_format.rs\<close>).
\<close>

record MultipartPartPlan =
  pp_part_number :: nat
  pp_offset :: nat
  pp_size :: nat
  pp_checksum :: string
  pp_e_tag :: string

record MultipartCompletionPlan =
  cp_upload_id :: uuid
  cp_object_id :: uuid
  cp_bucket :: string
  cp_key :: string
  cp_content_type :: string
  cp_checksum_algorithm :: string
  cp_content_length :: nat
  cp_parts :: "MultipartPartPlan list"

section \<open>Sessions and parts\<close>

definition create_multipart_session :: "string \<Rightarrow> MultipartSession \<Rightarrow> store \<Rightarrow> MultipartSession \<times> store" where
  "create_multipart_session ts s st =
     (let row = \<lparr> mu_upload_id = ms_upload_id s, mu_connection_id = active_connection_id st,
                  mu_bucket = ms_bucket s, mu_key = ms_key s, mu_state = ms_state s, mu_session = s,
                  mu_updated_at = ts \<rparr>
      in (s, st\<lparr> multipart_uploads := upsert mu_upload_id row (\<lambda>_. row) (multipart_uploads st) \<rparr>))"

definition get_multipart_session :: "uuid \<Rightarrow> store \<Rightarrow> MultipartSession option" where
  "get_multipart_session u st = map_option mu_session (find (\<lambda>r. mu_upload_id r = u) (multipart_uploads st))"

definition list_multipart_sessions :: "string option \<Rightarrow> string option \<Rightarrow> store \<Rightarrow> MultipartSession list" where
  "list_multipart_sessions bucket prefix st =
     map mu_session (select_order
       (\<lambda>r. mu_state r \<in> {Initiated, Uploading, Completing, MRecoveryRequired} \<and>
            (case bucket of None \<Rightarrow> True | Some b \<Rightarrow> mu_bucket r = b) \<and>
            (case prefix of None \<Rightarrow> True | Some p \<Rightarrow> sql_like (p @ ''%'') (mu_key r)))
       (\<lambda>r. (mu_key r, mu_upload_id r)) (multipart_uploads st))"

definition update_multipart_session_state ::
  "string \<Rightarrow> instant \<Rightarrow> uuid \<Rightarrow> MultipartState \<Rightarrow> store \<Rightarrow> MultipartSession tx" where
  "update_multipart_session_state ts utc u state st =
     (case get_multipart_session u st of
        None \<Rightarrow> Inl (MultipartSessionNotFound u)
      | Some s \<Rightarrow>
          let s' = s\<lparr> ms_state := state, ms_updated_at := utc \<rparr> in
          Inr (s', st\<lparr> multipart_uploads := update_where (\<lambda>r. mu_upload_id r = u)
                 (\<lambda>r. r\<lparr> mu_state := state, mu_session := s', mu_updated_at := ts \<rparr>)
                 (multipart_uploads st) \<rparr>))"

text \<open>Deleting a session cascades to its parts (foreign key of \<open>multipart_parts\<close>).\<close>

definition delete_multipart_session :: "uuid \<Rightarrow> store \<Rightarrow> store" where
  "delete_multipart_session u st =
     st\<lparr> multipart_uploads := delete_where (\<lambda>r. mu_upload_id r = u) (multipart_uploads st),
         multipart_parts := delete_where (\<lambda>p. pr_upload_id p = u) (multipart_parts st) \<rparr>"

definition put_part_row :: "uuid \<Rightarrow> MultipartPart \<Rightarrow> store \<Rightarrow> store" where
  "put_part_row u part st =
     st\<lparr> multipart_parts := upsert (\<lambda>p. (pr_upload_id p, pr_part_number p))
           \<lparr> pr_upload_id = u, pr_part_number = mp_part_number part, pr_part = part \<rparr>
           (\<lambda>p. p\<lparr> pr_part := part \<rparr>) (multipart_parts st) \<rparr>"

definition put_multipart_part :: "string \<Rightarrow> MultipartPart \<Rightarrow> store \<Rightarrow> MultipartPart tx" where
  "put_multipart_part ts part st =
     (let u = mp_upload_id part in
      if \<not> exists_where (\<lambda>r. mu_upload_id r = u) (multipart_uploads st)
      then Inl (Sqlite ''FOREIGN KEY constraint failed'')
      else let st1 = put_part_row u part st in
        Inr (part, st1\<lparr> multipart_uploads := update_where (\<lambda>r. mu_upload_id r = u)
               (\<lambda>r. r\<lparr> mu_state := (if mu_state r = Initiated then Uploading else mu_state r),
                       mu_updated_at := ts \<rparr>) (multipart_uploads st1) \<rparr>))"

definition list_multipart_parts :: "uuid \<Rightarrow> store \<Rightarrow> MultipartPart list" where
  "list_multipart_parts u st =
     map pr_part (select_order (\<lambda>p. pr_upload_id p = u) pr_part_number (multipart_parts st))"

definition get_multipart_part :: "uuid \<Rightarrow> nat \<Rightarrow> store \<Rightarrow> MultipartPart option" where
  "get_multipart_part u n st =
     map_option pr_part (find (\<lambda>p. pr_upload_id p = u \<and> pr_part_number p = n) (multipart_parts st))"

definition delete_multipart_parts :: "uuid \<Rightarrow> store \<Rightarrow> store" where
  "delete_multipart_parts u st =
     st\<lparr> multipart_parts := delete_where (\<lambda>p. pr_upload_id p = u) (multipart_parts st) \<rparr>"

definition multipart_part_progress :: "uuid \<Rightarrow> store \<Rightarrow> nat \<times> nat" where
  "multipart_part_progress u st =
     (let numbers = remdups (map mj_part_number
            (filter (\<lambda>m. mj_upload_id m = u \<and> 0 < mj_part_number m) (multipart_jobs st)))
      in (length numbers,
          length (filter (\<lambda>n. exists_where (\<lambda>p. pr_upload_id p = u \<and> pr_part_number p = n)
                                (multipart_parts st)) numbers)))"

section \<open>Jobs of a session\<close>

definition session_jobs :: "uuid \<Rightarrow> (nat \<Rightarrow> bool) \<Rightarrow> store \<Rightarrow> string list" where
  "session_jobs u N st =
     map mj_job_id (filter (\<lambda>m. mj_upload_id m = u \<and> N (mj_part_number m)) (multipart_jobs st))"

definition latest_completion :: "uuid \<Rightarrow> store \<Rightarrow> transfer_row option" where
  "latest_completion u st =
     (case rev (select_order (\<lambda>j. tj_id j \<in> set (session_jobs u (\<lambda>n. n = 0) st)) tj_sequence
                  (transfer_jobs st)) of
        [] \<Rightarrow> None | j # _ \<Rightarrow> Some j)"

definition multipart_completion_job :: "uuid \<Rightarrow> store \<Rightarrow> string option" where
  "multipart_completion_job u st = map_option tj_id (latest_completion u st)"

definition missing_part_job :: "uuid \<Rightarrow> TransferState set \<Rightarrow> store \<Rightarrow> bool" where
  "missing_part_job u states st =
     exists_where (\<lambda>m. mj_upload_id m = u \<and> 0 < mj_part_number m \<and>
         get_multipart_part u (mj_part_number m) st = None \<and>
         exists_where (\<lambda>j. tj_id j = mj_job_id m \<and> tj_state j \<in> states) (transfer_jobs st))
       (multipart_jobs st)"

definition multipart_activity_state :: "uuid \<Rightarrow> store \<Rightarrow> string option" where
  "multipart_activity_state u st =
     (let completion = map_option tj_state (latest_completion u st) in
      if completion \<in> {Some TRecoveryRequired, Some TReceptionFailed} then Some ''recovery_required''
      else if completion \<in> {Some TReceiving, Some TQueued, Some TRetryWait, Some TUploading, Some TCommitting}
        then Some ''completing''
      else if missing_part_job u {TRecoveryRequired, TReceptionFailed} st then Some ''recovery_required''
      else if missing_part_job u {TReceiving} st then Some ''receiving''
      else if missing_part_job u {TRetryWait} st then Some ''retry_wait''
      else if missing_part_job u {TQueued, TUploading, TCommitting} st then Some ''uploading''
      else None)"

definition active_multipart_part_transfer :: "uuid \<Rightarrow> nat \<Rightarrow> store \<Rightarrow> transfer_row option" where
  "active_multipart_part_transfer u n st =
     select_first (\<lambda>j. tj_id j \<in> set (session_jobs u (\<lambda>k. k = n) st) \<and>
         tj_state j \<in> {TReceiving, TQueued, TRetryWait, TUploading, TCommitting, TRecoveryRequired})
       tj_sequence (transfer_jobs st)"

text \<open>
  Queueing a completion: it fails while an earlier completion may still publish,
  and otherwise supersedes every earlier one.
\<close>

definition unsafe_completion :: "store \<Rightarrow> transfer_row \<Rightarrow> bool" where
  "unsafe_completion st j \<longleftrightarrow>
     sending_state (tj_state j) \<or> (tj_state j = TRecoveryRequired \<and> unresolved st (tj_id j))"

definition supersedable_completion :: "store \<Rightarrow> transfer_row \<Rightarrow> bool" where
  "supersedable_completion st j \<longleftrightarrow>
     tj_state j \<in> {TReceiving, TQueued, TRetryWait, TReceptionFailed, TCancelled} \<or>
     (tj_state j = TRecoveryRequired \<and> \<not> unresolved st (tj_id j))"

definition supersede :: "seconds \<Rightarrow> string \<Rightarrow> transfer_row \<Rightarrow> transfer_row" where
  "supersede now why j =
     j\<lparr> tj_state := TSuperseded, tj_lease := None, tj_lease_until := 0, tj_error := Some why,
        tj_updated_at := now \<rparr>"

definition insert_multipart_job :: "multipart_job_row \<Rightarrow> store \<Rightarrow> unit tx" where
  "insert_multipart_job row st =
     (if exists_where (\<lambda>m. mj_job_id m = mj_job_id row) (multipart_jobs st)
      then Inl (Sqlite ''UNIQUE constraint failed: multipart_jobs.job_id'')
      else Inr ((), st\<lparr> multipart_jobs := multipart_jobs st @ [row] \<rparr>))"

definition queue_multipart_completion ::
  "seconds \<Rightarrow> string \<Rightarrow> instant \<Rightarrow> string \<Rightarrow> string \<Rightarrow> uuid \<Rightarrow> store \<Rightarrow> unit tx" where
  "queue_multipart_completion now ts utc jid op u st =
     (case get_multipart_session u st of
        None \<Rightarrow> Inl (MultipartSessionNotFound u)
      | Some s \<Rightarrow>
        if ms_state s \<notin> {Initiated, Uploading, Completing}
        then Inl (InvalidManifest ''multipart completion session is closed'')
        else
          let others = set (session_jobs u (\<lambda>n. n = 0) st) - {jid} in
          if exists_where (\<lambda>j. tj_id j \<in> others \<and> unsafe_completion st j) (transfer_jobs st)
          then Inl (InvalidManifest ''an earlier multipart completion still needs Telegram reconciliation'')
          else
            bind_res (jobs_update_one (receiving jid)
                (\<lambda>j. j\<lparr> tj_operation_id := Some op, tj_chunks_total := 0, tj_state := TQueued,
                        tj_updated_at := now, tj_lease_until := 0 \<rparr>)
                (InvalidManifest ''multipart completion cannot be queued'')
                (jobs_update (\<lambda>j. tj_id j \<in> others \<and> supersedable_completion st j)
                   (supersede now ''Superseded by metadata-only multipart completion'') st)) (\<lambda>(_, st1).
            bind_res (insert_multipart_job
                \<lparr> mj_job_id = jid, mj_upload_id = u, mj_part_number = 0, mj_expected_checksum = None \<rparr> st1)
              (\<lambda>(_, st2).
                Inr ((), st2\<lparr> multipart_uploads := update_where (\<lambda>r. mu_upload_id r = u)
                  (\<lambda>r. r\<lparr> mu_state := Completing,
                          mu_session := s\<lparr> ms_state := Completing, ms_updated_at := utc \<rparr>,
                          mu_updated_at := ts \<rparr>) (multipart_uploads st2) \<rparr>))))"

section \<open>Publishing a part, aborting a session\<close>

definition part_of_manifest :: "instant \<Rightarrow> uuid \<Rightarrow> nat \<Rightarrow> ObjectManifest \<Rightarrow> MultipartPart" where
  "part_of_manifest utc u n m =
     \<lparr> mp_upload_id = u, mp_part_number = n, mp_size = content_length m,
       mp_checksum = whole_object (m_checksum m), mp_e_tag = whole_object (m_checksum m),
       mp_telegram = telegram m, mp_manifest = Some m, mp_created_at = utc \<rparr>"

definition release_old_part :: "seconds \<Rightarrow> uuid \<Rightarrow> nat \<Rightarrow> store \<Rightarrow> MetadataError + store" where
  "release_old_part now u n st =
     (case get_multipart_part u n st of None \<Rightarrow> Inr st | Some old \<Rightarrow> enqueue_part_cleanup now old st)"

text \<open>
  A duplicate of the part is discarded only when none of its send attempts may
  have reached Telegram.
\<close>

definition sent_something :: "store \<Rightarrow> string \<Rightarrow> bool" where
  "sent_something st jid =
     exists_where (\<lambda>a. sa_job a = jid \<and> sa_state a \<in> {Sending, Unknown, Checkpointed}) (send_attempts st)"

definition supersede_duplicates :: "seconds \<Rightarrow> uuid \<Rightarrow> nat \<Rightarrow> string \<Rightarrow> store \<Rightarrow> store" where
  "supersede_duplicates now u n jid st =
     (let others = set (session_jobs u (\<lambda>k. k = n) st) - {jid} in
      jobs_update (\<lambda>j. tj_id j \<in> others \<and>
          tj_state j \<in> {TReceiving, TQueued, TRetryWait, TRecoveryRequired} \<and> \<not> sent_something st (tj_id j))
        (supersede now ''Superseded by successful multipart part publication'') st)"

definition discard_objects :: "string set \<Rightarrow> store \<Rightarrow> store" where
  "discard_objects oids st =
     delete_manifests (\<lambda>m. om_object_id m \<in> oids)
       (st\<lparr> recovery_markers := delete_where (\<lambda>m. rm_object_id m \<in> oids) (recovery_markers st),
            operation_journal := delete_where (\<lambda>e. oj_object_id e \<in> oids) (operation_journal st) \<rparr>)"

definition superseded_objects :: "uuid \<Rightarrow> nat \<Rightarrow> string \<Rightarrow> store \<Rightarrow> string set" where
  "superseded_objects u n jid st =
     tj_object_id ` set (filter (\<lambda>j. tj_id j \<in> set (session_jobs u (\<lambda>k. k = n) st) \<and> tj_id j \<noteq> jid \<and>
       tj_state j = TSuperseded) (transfer_jobs st))"

definition finish_part_job ::
  "(string \<Rightarrow> ETagCondition option) \<Rightarrow> seconds \<Rightarrow> string \<Rightarrow> instant \<Rightarrow> string \<Rightarrow> string \<Rightarrow> uuid \<Rightarrow> nat \<Rightarrow>
   store \<Rightarrow> unit tx" where
  "finish_part_job parse_etag now ts utc jid lease u n st =
     (if n = 0 then
        bind_res (ok_or (InvalidManifest ''completion operation missing'')
                   (Option.bind (transfer jid st) tj_operation_id)) (\<lambda>op.
        bind_res (commit_manifest parse_etag now ts op st) (\<lambda>(_, st1). Inr ((), st1)))
      else
        bind_res (ok_or (Sqlite ''Query returned no rows'') (manifest_row_of st jid)) (\<lambda>row.
        if \<not> exists_where (\<lambda>r. mu_upload_id r = u \<and> mu_state r \<in> {Initiated, Uploading}) (multipart_uploads st)
        then Inl (InvalidManifest ''multipart session is closed'')
        else
          bind_res (release_old_part now u n st) (\<lambda>st1.
          bind_res (jobs_update_one (\<lambda>j. tj_id j = jid \<and> tj_lease j = Some lease \<and> tj_state j = TCommitting)
              (\<lambda>j. j\<lparr> tj_state := TCompleted, tj_lease := None, tj_error := None \<rparr>)
              (InvalidManifest ''part lease lost'')
              (put_part_row u (part_of_manifest utc u n (om_manifest row)) st1)) (\<lambda>(_, st2).
          let st3 = supersede_duplicates now u n jid st2 in
          Inr ((), discard_objects {jid} (discard_objects (superseded_objects u n jid st3) st3))))))"

definition abort_parts :: "seconds \<Rightarrow> uuid \<Rightarrow> store \<Rightarrow> unit tx" where
  "abort_parts now u st =
     (let jobs = set (session_jobs u (\<lambda>_. True) st) in
      if exists_where (\<lambda>j. tj_id j \<in> jobs \<and> sending_state (tj_state j)) (transfer_jobs st)
      then Inl (InvalidManifest ''multipart publication in progress; retry abort'')
      else
        bind_res (enqueue_parts now [] (filter (\<lambda>p. pr_upload_id p = u) (multipart_parts st)) st) (\<lambda>st1.
        Inr ((), delete_multipart_session u (delete_multipart_parts u
          (jobs_update (\<lambda>j. tj_id j \<in> jobs \<and> tj_state j \<notin> {TCompleted, TCleaned})
             (\<lambda>j. j\<lparr> tj_state := TCancelled, tj_lease := None \<rparr>) st1)))))"

section \<open>Completion\<close>

text \<open>The loop over the chunks of one part: the composed chunk and the next offset.\<close>

definition compose_chunk :: "uuid \<Rightarrow> nat \<Rightarrow> nat \<Rightarrow> ChunkRef \<Rightarrow> ChunkRef" where
  "compose_chunk oid order off c =
     (case payload_identity c oid of (src, src_order) \<Rightarrow>
        \<lparr> ck_order = order, ck_offset = off, ck_size = ck_size c, ck_checksum = ck_checksum c,
          ck_peer_id = ck_peer_id c, ck_message_id = ck_message_id c, ck_document_id = ck_document_id c,
          source_object_id = Some src, source_chunk_order = Some src_order, replicas = replicas c \<rparr>)"

fun compose_chunks ::
  "nat \<Rightarrow> uuid \<Rightarrow> ChunkRef list \<Rightarrow> ChunkRef list \<times> nat \<Rightarrow> ObjectFormatError + ChunkRef list \<times> nat" where
  "compose_chunks number oid [] acc = Inr acc"
| "compose_chunks number oid (c # cs) (out, off) =
     (if blank (ck_peer_id c) \<or> ck_message_id c \<le> 0
      then Inl (InvalidPlan (''multipart part '' @ show_nat number @ '' has an unpublished chunk''))
      else if u32_modulus \<le> length out
      then Inl (InvalidPlan ''multipart object contains too many chunks'')
      else (case checked_add_u64 off (ck_size c) of
              None \<Rightarrow> Inl (InvalidPlan ''multipart content length overflow'')
            | Some off' \<Rightarrow> compose_chunks number oid cs (out @ [compose_chunk oid (length out) off c], off')))"

record composition =
  co_chunks :: "ChunkRef list"
  co_offset :: nat
  co_previous :: nat
  co_encryption :: "EncryptionInfo option"
  co_hash :: "byte list"

datatype compose_error = Rejected ObjectFormatError | LegacyFraming

definition checked_part ::
  "MultipartPartPlan \<Rightarrow> MultipartPart option \<Rightarrow> nat \<Rightarrow> EncryptionInfo option \<Rightarrow> compose_error + ObjectManifest" where
  "checked_part plan stored previous enc =
     (if pp_part_number plan \<le> previous
      then Inl (Rejected (InvalidPlan ''multipart parts must be unique and ordered by part number''))
      else case stored of
        None \<Rightarrow> Inl (Rejected (InvalidPlan ''missing multipart part''))
      | Some p \<Rightarrow>
        if mp_e_tag p \<noteq> pp_e_tag plan then Inl (Rejected (InvalidPlan ''multipart ETag mismatch''))
        else (case mp_manifest p of
          None \<Rightarrow> Inl LegacyFraming
        | Some m \<Rightarrow> bind_res (map_err (\<lambda>e. Rejected (InvalidPlan e)) (validate m)) (\<lambda>_.
            if mp_size p \<noteq> pp_size plan \<or> content_length m \<noteq> mp_size p \<or> mp_checksum p \<noteq> pp_checksum plan \<or>
               whole_object (m_checksum m) \<noteq> mp_checksum p
            then Inl (Rejected (InvalidPlan ''multipart part metadata changed during completion''))
            else if enc \<noteq> None \<and> enc \<noteq> Some (encryption m)
            then Inl (Rejected (InvalidPlan ''multipart parts use incompatible encryption metadata''))
            else Inr m)))"

text \<open>The loop over the parts; the stored size was just checked to be the manifest's content length.\<close>

fun compose_parts ::
  "(nat \<Rightarrow> MultipartPart option) \<Rightarrow> MultipartPartPlan list \<Rightarrow> composition \<Rightarrow> compose_error + composition" where
  "compose_parts stored [] co = Inr co"
| "compose_parts stored (plan # plans) co =
     bind_res (checked_part plan (stored (pp_part_number plan)) (co_previous co) (co_encryption co)) (\<lambda>m.
     bind_res (map_err Rejected (compose_chunks (pp_part_number plan) (m_object_id m) (chunks m)
                 (co_chunks co, co_offset co))) (\<lambda>(out, off).
     compose_parts stored plans
       \<lparr> co_chunks = out, co_offset = off, co_previous = pp_part_number plan,
         co_encryption = Some (encryption m),
         co_hash = co_hash co @ composite_part (pp_part_number plan) (content_length m) (m_checksum m) \<rparr>))"

definition empty_composition :: composition where
  "empty_composition =
     \<lparr> co_chunks = [], co_offset = 0, co_previous = 0, co_encryption = None, co_hash = composite_seed \<rparr>"

definition stored_parts_by_number :: "MultipartPart list \<Rightarrow> nat \<Rightarrow> MultipartPart option" where
  "stored_parts_by_number parts = map_of (rev (map (\<lambda>p. (mp_part_number p, p)) parts))"

definition rejected :: "string \<Rightarrow> compose_error" where
  "rejected why = Rejected (InvalidPlan why)"

definition completion_manifest ::
  "(byte list \<Rightarrow> string) \<Rightarrow> instant \<Rightarrow> ObjectFormatError + string \<Rightarrow> MultipartSession \<Rightarrow>
   MultipartPart list \<Rightarrow> MultipartCompletionPlan \<Rightarrow> compose_error + ObjectManifest" where
  "completion_manifest sha256_hex utc chat session parts plan =
     (if cp_parts plan = [] then Inl (rejected ''multipart completion requires at least one part'')
      else if cp_object_id plan \<noteq> cp_upload_id plan
        then Inl (rejected ''multipart completion object id must match the upload id'')
      else if cp_checksum_algorithm plan \<noteq> ms_checksum_algorithm session
        then Inl (rejected ''multipart checksum algorithm changed during completion'')
      else
        bind_res (compose_parts (stored_parts_by_number parts) (cp_parts plan) empty_composition) (\<lambda>co.
        if co_offset co \<noteq> cp_content_length plan
        then Inl (rejected (''multipart content length mismatch: expected '' @ show_nat (cp_content_length plan) @
                   '', composed '' @ show_nat (co_offset co)))
        else
          bind_res (ok_or (rejected ''multipart completion has no encryption metadata'') (co_encryption co)) (\<lambda>enc.
          bind_res (map_err Rejected chat) (\<lambda>peer.
          let m = \<lparr> schema_version = MANIFEST_SCHEMA_VERSION, commit_state = Staging,
                    m_object_id = cp_object_id plan, m_bucket = cp_bucket plan, m_key = cp_key plan,
                    version_id = Some (cp_object_id plan), content_length = co_offset co,
                    content_type = cp_content_type plan, user_metadata = [], tags = [], created_at = utc,
                    expires_at = ms_expires_at session,
                    m_checksum = \<lparr> cs_algorithm = MULTIPART_CHECKSUM_ALGORITHM,
                                   whole_object = sha256_hex (co_hash co) \<rparr>,
                    encryption = enc,
                    telegram = \<lparr> loc_peer_id = peer, loc_message_id = 0,
                                 loc_document_id = Some (''local:'' @ cp_object_id plan @ '':manifest'') \<rparr>,
                    chunks = co_chunks co \<rparr>
          in bind_res (map_err rejected (validate m)) (\<lambda>_. Inr m)))))"

text \<open>
  Queueing the composed manifest.  The file system is a parameter: the error of
  creating the staging directory and of writing the manifest file, if any, and
  whether the directory could be removed again.
\<close>

record staging_io =
  io_create_dir :: "string option"
  io_write_manifest :: "string option"
  io_removed :: bool

definition io_result :: "string option \<Rightarrow> ObjectFormatError + unit" where
  "io_result e = (case e of None \<Rightarrow> Inr () | Some t \<Rightarrow> Inl (OF_Io t))"

definition in_tx :: "'a tx \<Rightarrow> ObjectFormatError + 'a \<times> store" where
  "in_tx r = map_err Metadata r"

text \<open>Each statement of the closure commits its own transaction, so the state survives its error.\<close>

definition queue_completion ::
  "(ObjectManifest \<Rightarrow> nat) \<Rightarrow> staging_io \<Rightarrow> seconds \<Rightarrow> string \<Rightarrow> instant \<Rightarrow> nat \<Rightarrow> uuid \<Rightarrow> string \<Rightarrow>
   ObjectManifest \<Rightarrow> store \<Rightarrow> (ObjectFormatError + string) \<times> store" where
  "queue_completion json_len io now ts utc budget u jid m st =
     (case io_result (io_create_dir io) of
        Inl e \<Rightarrow> (Inl e, st)
      | Inr _ \<Rightarrow> (case in_tx (reserve_staging now jid (json_len m) budget st) of
        Inl e \<Rightarrow> (Inl e, st)
      | Inr (_, st1) \<Rightarrow> (case io_result (io_write_manifest io) of
        Inl e \<Rightarrow> (Inl e, st1)
      | Inr _ \<Rightarrow> (case in_tx (stage_manifest ts Put m st1) of
        Inl e \<Rightarrow> (Inl e, st1)
      | Inr (op, st2) \<Rightarrow> (case in_tx (queue_multipart_completion now ts utc jid op u st2) of
        Inl e \<Rightarrow> (Inl e, st2)
      | Inr (_, st3) \<Rightarrow> (case transfer jid st3 of
        None \<Rightarrow> (Inl (InvalidPlan ''queued multipart completion missing''), st3)
      | Some j \<Rightarrow> (Inr (tj_id j), st3)))))))"

datatype completion_outcome = AlreadyCompleted ObjectManifest | WaitFor string

definition complete_multipart_upload ::
  "(byte list \<Rightarrow> string) \<Rightarrow> (ObjectManifest \<Rightarrow> nat) \<Rightarrow> staging_io \<Rightarrow> seconds \<Rightarrow> string \<Rightarrow> instant \<Rightarrow> nat \<Rightarrow>
   ObjectFormatError + string \<Rightarrow> MultipartCompletionPlan \<Rightarrow> store \<Rightarrow>
   (ObjectFormatError + completion_outcome) \<times> store" where
  "complete_multipart_upload sha256_hex json_len io now ts utc budget chat plan st =
     (let u = cp_upload_id plan in
      case get_multipart_session u st of
        None \<Rightarrow> (Inl (InvalidPlan (''upload not found: '' @ u)), st)
      | Some s \<Rightarrow>
        if ms_bucket s \<noteq> cp_bucket plan \<or> ms_key s \<noteq> cp_key plan
        then (Inl (InvalidPlan ''multipart completion target mismatch''), st)
        else if ms_state s = Completed then
          (bind_res (map_err Metadata (get_active_manifest (cp_bucket plan) (cp_key plan) st)) (\<lambda>m.
             map_err InvalidPlan (map_sum id AlreadyCompleted
               (ok_or ''completed multipart object is not visible'' m))), st)
        else if ms_state s = Completing then
          (map_sum InvalidPlan WaitFor (ok_or ''multipart completion job is missing; recovery is required''
             (multipart_completion_job u st)), st)
        else if ms_state s \<in> {Aborted, Quarantined, MRecoveryRequired}
        then (Inl (InvalidPlan ''multipart upload is not completable''), st)
        else (case completion_manifest sha256_hex utc chat s (list_multipart_parts u st) plan of
            Inl (Rejected e) \<Rightarrow> (Inl e, st)
          | Inl LegacyFraming \<Rightarrow>
              (case update_multipart_session_state ts utc u MRecoveryRequired st of
                 Inl e \<Rightarrow> (Inl (Metadata e), st)
               | Inr (_, st1) \<Rightarrow>
                   (Inl (InvalidPlan ''legacy multipart framing requires recovery or source re-upload''), st1))
          | Inr m \<Rightarrow>
              (case begin_transfer now (cp_object_id plan) (cp_bucket plan) (cp_key plan) st of
                 Inl e \<Rightarrow> (Inl (Metadata e), st)
               | Inr (jid, st1) \<Rightarrow>
                   (case queue_completion json_len io now ts utc budget u jid m st1 of
                      (Inr j, st2) \<Rightarrow> (Inr (WaitFor j), st2)
                    | (Inl e, st2) \<Rightarrow>
                        (Inl e, snd (fail_reception now jid (io_removed io)
                           ''Multipart completion could not be durably queued'' st2))))))"

section \<open>What completion composes\<close>

text \<open>What a chunk stands for: the identity its payload was sealed under, its size, checksum and locations.\<close>

definition payload_at :: "uuid \<Rightarrow> ChunkRef \<Rightarrow> (uuid \<times> nat) \<times> nat \<times> string \<times> string \<times> int \<times> ChunkReplica list" where
  "payload_at oid c = (payload_identity c oid, ck_size c, ck_checksum c, ck_peer_id c, ck_message_id c, replicas c)"

definition payload :: "ObjectManifest \<Rightarrow> ChunkRef \<Rightarrow>
    (uuid \<times> nat) \<times> nat \<times> string \<times> string \<times> int \<times> ChunkReplica list" where
  "payload m = payload_at (m_object_id m)"

lemma payload_compose_chunk [simp]: "payload_at any (compose_chunk oid order off c) = payload_at oid c"
  by (simp add: payload_at_def compose_chunk_def payload_identity_def split: prod.splits)

lemma compose_chunk_fields [simp]:
  "ck_offset (compose_chunk oid order off c) = off" "ck_size (compose_chunk oid order off c) = ck_size c"
  "ck_message_id (compose_chunk oid order off c) = ck_message_id c"
  by (simp_all add: compose_chunk_def split: prod.splits)

lemma compose_chunks_sound:
  assumes "compose_chunks number oid cs (out, off) = Inr (out', off')"
  shows "\<exists>new. out' = out @ new \<and> map (payload_at any) new = map (payload_at oid) cs \<and>
    off' = off + total_size cs \<and> total_size new = total_size cs \<and>
    ((\<forall>c \<in> set cs. 0 < ck_size c) \<longrightarrow> contiguous_from off new) \<and>
    (\<forall>c \<in> set new. 0 < ck_message_id c)"
  using assms
proof (induction cs arbitrary: out off)
  case (Cons c cs)
  let ?c = "compose_chunk oid (length out) off c"
  have step: "compose_chunks number oid cs (out @ [?c], off + ck_size c) = Inr (out', off')"
      "0 < ck_message_id c"
    using Cons.prems by (auto simp: checked_add_u64_def split: if_splits)
  obtain new where new: "out' = (out @ [?c]) @ new" "map (payload_at any) new = map (payload_at oid) cs"
      "off' = off + ck_size c + total_size cs" "total_size new = total_size cs"
      "(\<forall>c \<in> set cs. 0 < ck_size c) \<longrightarrow> contiguous_from (off + ck_size c) new"
      "\<forall>c \<in> set new. 0 < ck_message_id c"
    using Cons.IH[OF step(1)] by blast
  show ?case by (rule exI[of _ "?c # new"]) (use new step(2) in auto)
qed simp

definition part_for :: "(nat \<Rightarrow> MultipartPart option) \<Rightarrow> MultipartPartPlan \<Rightarrow> ObjectManifest \<Rightarrow> bool" where
  "part_for stored plan m \<longleftrightarrow>
     (\<exists>p. stored (pp_part_number plan) = Some p \<and> mp_manifest p = Some m \<and> mp_e_tag p = pp_e_tag plan \<and>
          validate m = Inr () \<and> content_length m = pp_size plan \<and> whole_object (m_checksum m) = pp_checksum plan)"

lemma checked_part_sound:
  assumes "checked_part plan (stored (pp_part_number plan)) previous enc = Inr m"
  shows "part_for stored plan m" "previous < pp_part_number plan"
  using assms
  by (auto simp: checked_part_def part_for_def result_simps split: if_splits option.splits)

lemma contiguous_sizes: "contiguous_from off cs \<Longrightarrow> c \<in> set cs \<Longrightarrow> 0 < ck_size c"
  by (induction cs arbitrary: off) auto

definition hashed_parts :: "MultipartPartPlan list \<Rightarrow> ObjectManifest list \<Rightarrow> (nat \<times> nat \<times> ObjectChecksum) list" where
  "hashed_parts plans ms =
     map (\<lambda>(plan, m). (pp_part_number plan, content_length m, m_checksum m)) (zip plans ms)"

lemma compose_parts_sound:
  assumes "compose_parts stored plans co = Inr co'"
    and "contiguous_from 0 (co_chunks co)" "total_size (co_chunks co) = co_offset co"
  shows "\<exists>ms. list_all2 (part_for stored) plans ms \<and>
    map (payload_at any) (co_chunks co') =
      map (payload_at any) (co_chunks co) @ concat (map (\<lambda>m. map (payload m) (chunks m)) ms) \<and>
    contiguous_from 0 (co_chunks co') \<and> total_size (co_chunks co') = co_offset co' \<and>
    co_offset co' = co_offset co + sum_list (map pp_size plans) \<and>
    co_hash co' = co_hash co @ concat (map (\<lambda>(n, len, c). composite_part n len c) (hashed_parts plans ms)) \<and>
    sorted_wrt (<) (co_previous co # map pp_part_number plans)"
  using assms
proof (induction plans arbitrary: co)
  case (Cons plan plans)
  obtain m out off where step: "checked_part plan (stored (pp_part_number plan)) (co_previous co) (co_encryption co) = Inr m"
      "compose_chunks (pp_part_number plan) (m_object_id m) (chunks m) (co_chunks co, co_offset co) = Inr (out, off)"
      "compose_parts stored plans
         \<lparr> co_chunks = out, co_offset = off, co_previous = pp_part_number plan,
           co_encryption = Some (encryption m),
           co_hash = co_hash co @ composite_part (pp_part_number plan) (content_length m) (m_checksum m) \<rparr> = Inr co'"
    using Cons.prems(1) by (auto simp: result_simps split: prod.splits)
  note part = checked_part_sound[of plan stored, OF step(1)]
  have valid: "contiguous_from 0 (chunks m)" "total_size (chunks m) = pp_size plan"
    using part(1) validate_contiguous[of m] by (auto simp: part_for_def)
  obtain new where new: "out = co_chunks co @ new" "map (payload_at any) new = map (payload_at (m_object_id m)) (chunks m)"
      "off = co_offset co + total_size (chunks m)" "total_size new = total_size (chunks m)"
      "contiguous_from (co_offset co) new"
    using compose_chunks_sound[OF step(2), of any] contiguous_sizes[OF valid(1)] by blast
  obtain ms where ms: "list_all2 (part_for stored) plans ms"
      "map (payload_at any) (co_chunks co') = map (payload_at any) out @ concat (map (\<lambda>m. map (payload m) (chunks m)) ms)"
      "contiguous_from 0 (co_chunks co')" "total_size (co_chunks co') = co_offset co'"
      "co_offset co' = off + sum_list (map pp_size plans)"
      "co_hash co' = co_hash co @ composite_part (pp_part_number plan) (content_length m) (m_checksum m) @
         concat (map (\<lambda>(n, len, c). composite_part n len c) (hashed_parts plans ms))"
      "sorted_wrt (<) (pp_part_number plan # map pp_part_number plans)"
    using Cons.IH[OF step(3)] new Cons.prems(2,3) by (auto simp: contiguous_from_append)
  show ?case
    by (intro exI[of _ "m # ms"]) (use ms new part valid in \<open>auto simp: payload_def hashed_parts_def\<close>)
qed (simp add: hashed_parts_def)

text \<open>
  C11: A completion that is accepted composes the object from exactly the parts of
  the plan, in increasing part order: its chunks are the chunks of the parts' own
  manifests, each still bound to the identity it was sealed under and to the same
  remote messages, laid end to end without a gap, and its length is the sum of the
  part sizes.  No payload is copied or lost.  Its checksum is the hash of the part
  numbers, sizes and checksums.
\<close>

theorem completion_composes:
  assumes "completion_manifest sha256_hex utc chat session parts plan = Inr m"
  shows "\<exists>ms. list_all2 (part_for (stored_parts_by_number parts)) (cp_parts plan) ms \<and>
    map (payload m) (chunks m) = concat (map (\<lambda>pm. map (payload pm) (chunks pm)) ms) \<and>
    contiguous_from 0 (chunks m) \<and> content_length m = sum_list (map pp_size (cp_parts plan)) \<and>
    sorted_wrt (<) (map pp_part_number (cp_parts plan)) \<and> validate m = Inr () \<and>
    whole_object (m_checksum m) = sha256_hex (composite_input (hashed_parts (cp_parts plan) ms))"
proof -
  obtain co where co: "compose_parts (stored_parts_by_number parts) (cp_parts plan) empty_composition = Inr co"
      "chunks m = co_chunks co" "content_length m = co_offset co" "validate m = Inr ()"
      "whole_object (m_checksum m) = sha256_hex (co_hash co)"
    using assms by (auto simp: completion_manifest_def result_simps Let_def split: if_splits)
  show ?thesis
    using compose_parts_sound[OF co(1), of "m_object_id m"] co(2-)
    by (auto simp: empty_composition_def payload_def composite_input_def)
qed

definition example_parts :: "MultipartPart list" where
  "example_parts =
     [part_of_manifest 0 ''u'' 1 (example_manifest ''p1'' ''k'' [example_chunk 0 0 3 8]),
      part_of_manifest 0 ''u'' 2 (example_manifest ''p2'' ''k'' [example_chunk 0 0 2 9])]"

definition part_plan :: "MultipartPart \<Rightarrow> MultipartPartPlan" where
  "part_plan p = \<lparr> pp_part_number = mp_part_number p, pp_offset = 0, pp_size = mp_size p,
                   pp_checksum = mp_checksum p, pp_e_tag = mp_e_tag p \<rparr>"

definition example_session :: MultipartSession where
  "example_session =
     \<lparr> ms_upload_id = ''u'', ms_bucket = ''b'', ms_key = ''k'', ms_version_id = Some ''u'',
       ms_content_type = ''t'', ms_checksum_algorithm = ''sha256'', ms_expires_at = None,
       ms_state = Initiated, ms_created_at = 0, ms_updated_at = 0 \<rparr>"

definition example_plan :: MultipartCompletionPlan where
  "example_plan =
     \<lparr> cp_upload_id = ''u'', cp_object_id = ''u'', cp_bucket = ''b'', cp_key = ''k'', cp_content_type = ''t'',
       cp_checksum_algorithm = ''sha256'', cp_content_length = 5, cp_parts = map part_plan example_parts \<rparr>"

theorem completion_composes_witness:
  "\<exists>m. completion_manifest (\<lambda>_. ''h'') 0 (Inr ''peer'') example_session example_parts example_plan = Inr m \<and>
       content_length m = 5 \<and> contiguous_from 0 (chunks m)"
proof -
  obtain m where m: "completion_manifest (\<lambda>_. ''h'') 0 (Inr ''peer'') example_session example_parts example_plan = Inr m"
    by (simp add: completion_manifest_def example_plan_def example_parts_def part_plan_def part_of_manifest_def
        example_session_def stored_parts_by_number_def checked_part_def empty_composition_def compose_chunk_def
        payload_identity_def Let_def MULTIPART_CHECKSUM_ALGORITHM_def MANIFEST_SCHEMA_VERSION_def example_simps)
  show ?thesis using m completion_composes[OF m]
    by (auto simp: example_plan_def example_parts_def part_plan_def part_of_manifest_def example_simps)
qed

section \<open>Scheduling the messages of parts\<close>

text \<open>Enqueueing changes only the outbox, keeps its rows, and adds rows for the given locations only.\<close>

definition outbox_only :: "store \<Rightarrow> store \<Rightarrow> bool" where
  "outbox_only st st' \<longleftrightarrow>
     (\<exists>ts n. st' = st\<lparr> cleanup_targets := ts, cleanup_sequence := n \<rparr>)"

lemma outbox_only_refl [simp]: "outbox_only st st"
  unfolding outbox_only_def by (intro exI[of _ "cleanup_targets st"] exI[of _ "cleanup_sequence st"]) simp

lemma outbox_only_trans: "outbox_only a b \<Longrightarrow> outbox_only b c \<Longrightarrow> outbox_only a c"
  unfolding outbox_only_def by (elim exE) (hypsubst, simp, intro exI, rule refl)

lemma outbox_only_fields:
  assumes "outbox_only st st'"
  shows "transfer_jobs st' = transfer_jobs st" "multipart_jobs st' = multipart_jobs st"
    "multipart_parts st' = multipart_parts st" "multipart_uploads st' = multipart_uploads st"
    "send_attempts st' = send_attempts st" "transfer_chunks st' = transfer_chunks st"
    "transfer_sequence st' = transfer_sequence st" "object_manifests st' = object_manifests st"
    "active_objects st' = active_objects st" "operation_journal st' = operation_journal st"
  using assms by (auto simp: outbox_only_def)

definition scheduled :: "store \<Rightarrow> string \<times> int \<Rightarrow> bool" where
  "scheduled st l \<longleftrightarrow> (\<exists>t \<in> set (cleanup_targets st). (ct_peer_id t, ct_message_id t) = l)"

lemma scheduled_target:
  "scheduled (enqueue_target oid conn peer msg kind due st) l \<longleftrightarrow> l = (peer, msg) \<or> scheduled st l"
  by (auto simp: enqueue_target_def scheduled_def)

lemma outbox_only_target: "outbox_only st (enqueue_target oid conn peer msg kind due st)"
  by (cases "exists_where (\<lambda>r. ct_peer_id r = peer \<and> ct_message_id r = msg) (cleanup_targets st)")
    (auto simp: enqueue_target_def outbox_only_def simp del: exists_where_iff
      intro: exI[of _ "cleanup_targets st"] exI[of _ "cleanup_sequence st"])

abbreviation enqueue_locations ::
  "string \<Rightarrow> string \<Rightarrow> seconds \<Rightarrow> TelegramLocation list \<Rightarrow> store \<Rightarrow> store" where
  "enqueue_locations oid conn due \<equiv>
     fold (\<lambda>l s. enqueue_target oid conn (loc_peer_id l) (loc_message_id l) Message due s)"

lemma scheduled_locations:
  "scheduled (enqueue_locations oid conn due ls st) l \<longleftrightarrow>
   l \<in> (\<lambda>l. (loc_peer_id l, loc_message_id l)) ` set ls \<or> scheduled st l"
  by (induction ls arbitrary: st) (auto simp: scheduled_target)

lemma outbox_only_locations: "outbox_only st (enqueue_locations oid conn due ls st)"
  by (induction ls arbitrary: st) (auto intro: outbox_only_trans outbox_only_target)

text \<open>The remote messages of a part, and its evidence row.\<close>

definition part_evidence :: "MultipartPart \<Rightarrow> string \<times> int" where
  "part_evidence p =
     (evidence_peer (case mp_manifest p of Some m \<Rightarrow> m_object_id m | None \<Rightarrow> mp_upload_id p), 0)"

definition part_messages :: "(string \<times> int) list \<Rightarrow> MultipartPart \<Rightarrow> (string \<times> int) set" where
  "part_messages retained p =
     insert (loc_peer_id (mp_telegram p), loc_message_id (mp_telegram p))
       (case mp_manifest p of
          None \<Rightarrow> {} | Some m \<Rightarrow> (\<lambda>c. (ck_peer_id c, ck_message_id c)) ` set (chunks m) - set retained)"

lemma enqueue_part_effect:
  assumes "enqueue_part_cleanup_preserving now p retained st = Inr st'"
  shows "outbox_only st st'"
    "scheduled st' l \<longleftrightarrow> l = part_evidence p \<or> l \<in> part_messages retained p \<or> scheduled st l"
proof -
  let ?oid = "case mp_manifest p of Some m \<Rightarrow> m_object_id m | None \<Rightarrow> mp_upload_id p"
  let ?ls = "mp_telegram p # (case mp_manifest p of None \<Rightarrow> []
      | Some m \<Rightarrow> map chunk_location (filter (\<lambda>c. (ck_peer_id c, ck_message_id c) \<notin> set retained) (chunks m)))"
  obtain due where st': "st' = enqueue_locations ?oid (active_connection_id st) due ?ls
      (enqueue_target ?oid (active_connection_id st) (evidence_peer ?oid) 0 Evidence due st)"
    using assms by (auto simp: enqueue_part_cleanup_preserving_def Let_def result_simps)
  show "outbox_only st st'"
    unfolding st' by (rule outbox_only_trans[OF outbox_only_target outbox_only_locations])
  have "(\<lambda>l. (loc_peer_id l, loc_message_id l)) ` set ?ls = part_messages retained p"
    by (cases "mp_manifest p") (auto simp: part_messages_def chunk_location_def image_image)
  thus "scheduled st' l \<longleftrightarrow> l = part_evidence p \<or> l \<in> part_messages retained p \<or> scheduled st l"
    unfolding st' scheduled_locations scheduled_target by (auto simp: part_evidence_def)
qed

lemma enqueue_parts_effect:
  assumes "enqueue_parts now retained ps st = Inr st'"
  shows "outbox_only st st' \<and>
    (scheduled st' l \<longleftrightarrow>
       (\<exists>p \<in> set ps. l = part_evidence (pr_part p) \<or> l \<in> part_messages retained (pr_part p)) \<or> scheduled st l)"
  using assms
proof (induction ps arbitrary: st)
  case (Cons p ps)
  obtain st1 where st1: "enqueue_part_cleanup_preserving now (pr_part p) retained st = Inr st1"
      "enqueue_parts now retained ps st1 = Inr st'"
    using Cons.prems by (auto simp: result_simps)
  show ?case
    using Cons.IH[OF st1(2)] enqueue_part_effect[OF st1(1)] outbox_only_trans[of st st1 st'] by auto
qed simp

section \<open>Publishing, aborting and completing\<close>

lemma count_where_one_mem: "count_where P xs = 1 \<Longrightarrow> \<exists>x \<in> set xs. P x"
  using count_where_pos[of P xs] by auto

lemma queue_completion_steps:
  assumes q: "queue_multipart_completion now ts utc jid op u st = Inr (r, st')"
  obtains s where "get_multipart_session u st = Some s"
    and "\<forall>x \<in> set (transfer_jobs st). tj_id x \<in> set (session_jobs u (\<lambda>n. n = 0) st) \<longrightarrow>
      tj_id x = jid \<or> \<not> unsafe_completion st x"
    and "count_where (receiving jid) (transfer_jobs (jobs_update
        (\<lambda>j. tj_id j \<in> set (session_jobs u (\<lambda>n. n = 0) st) - {jid} \<and> supersedable_completion st j)
        (supersede now ''Superseded by metadata-only multipart completion'') st)) = 1"
    and "transfer_jobs st' = update_where (receiving jid)
        (\<lambda>j. j\<lparr> tj_operation_id := Some op, tj_chunks_total := 0, tj_state := TQueued,
                tj_updated_at := now, tj_lease_until := 0 \<rparr>)
        (transfer_jobs (jobs_update
          (\<lambda>j. tj_id j \<in> set (session_jobs u (\<lambda>n. n = 0) st) - {jid} \<and> supersedable_completion st j)
          (supersede now ''Superseded by metadata-only multipart completion'') st))"
    and "multipart_jobs st' = multipart_jobs st @
        [\<lparr> mj_job_id = jid, mj_upload_id = u, mj_part_number = 0, mj_expected_checksum = None \<rparr>]"
    and "multipart_uploads st' = update_where (\<lambda>r. mu_upload_id r = u)
        (\<lambda>r. r\<lparr> mu_state := Completing, mu_session := s\<lparr> ms_state := Completing, ms_updated_at := utc \<rparr>,
               mu_updated_at := ts \<rparr>) (multipart_uploads st)"
  using q unfolding queue_multipart_completion_def Let_def
  by (auto simp: result_simps insert_multipart_job_def jobs_update_one_def jobs_update_def
      split: option.splits if_splits)

text \<open>
  C25: When a completion is queued, no other completion job of the session can still
  publish: every other one is terminal.  The new job is queued and the session is
  \<open>completing\<close>.
\<close>

theorem completion_is_exclusive:
  assumes q: "queue_multipart_completion now ts utc jid op u st = Inr (r, st')"
    and j: "j \<in> set (transfer_jobs st')" "tj_id j \<in> set (session_jobs u (\<lambda>n. n = 0) st')"
  shows "(tj_id j \<noteq> jid \<longrightarrow> terminal_state (tj_state j)) \<and>
    (\<exists>new \<in> set (transfer_jobs st'). tj_id new = jid \<and> tj_state new = TQueued) \<and>
    jid \<in> set (session_jobs u (\<lambda>n. n = 0) st') \<and>
    (\<forall>s. get_multipart_session u st' = Some s \<longrightarrow> ms_state s = Completing)"
proof -
  let ?others = "set (session_jobs u (\<lambda>n. n = 0) st) - {jid}"
  let ?f = "\<lambda>j. j\<lparr> tj_operation_id := Some op, tj_chunks_total := 0, tj_state := TQueued,
      tj_updated_at := now, tj_lease_until := 0 \<rparr>"
  let ?g = "supersede now ''Superseded by metadata-only multipart completion''"
  let ?st1 = "jobs_update (\<lambda>j. tj_id j \<in> ?others \<and> supersedable_completion st j) ?g st"
  obtain s where s: "get_multipart_session u st = Some s"
    and safe: "\<forall>x \<in> set (transfer_jobs st). tj_id x \<in> set (session_jobs u (\<lambda>n. n = 0) st) \<longrightarrow>
        tj_id x = jid \<or> \<not> unsafe_completion st x"
    and one: "count_where (receiving jid) (transfer_jobs ?st1) = 1"
    and jobs: "transfer_jobs st' = update_where (receiving jid) ?f (transfer_jobs ?st1)"
    and links: "multipart_jobs st' = multipart_jobs st @
        [\<lparr> mj_job_id = jid, mj_upload_id = u, mj_part_number = 0, mj_expected_checksum = None \<rparr>]"
    and ups: "multipart_uploads st' = update_where (\<lambda>r. mu_upload_id r = u)
        (\<lambda>r. r\<lparr> mu_state := Completing, mu_session := s\<lparr> ms_state := Completing, ms_updated_at := utc \<rparr>,
               mu_updated_at := ts \<rparr>) (multipart_uploads st)"
    by (rule queue_completion_steps[OF q])
  have members: "set (session_jobs u (\<lambda>n. n = 0) st') = insert jid (set (session_jobs u (\<lambda>n. n = 0) st))"
    by (auto simp: session_jobs_def links)
  have terminal: "terminal_state (tj_state j)" if "tj_id j \<noteq> jid"
  proof -
    have "j \<in> set (transfer_jobs ?st1)"
      using j(1)[unfolded jobs]
    proof (cases rule: update_where_cases)
      case (changed x)
      thus ?thesis using that by (simp add: receiving_def)
    qed simp
    hence "j \<in> set (update_where (\<lambda>j. tj_id j \<in> ?others \<and> supersedable_completion st j) ?g (transfer_jobs st))"
      by simp
    thus ?thesis
    proof (cases rule: update_where_cases)
      case (changed x)
      thus ?thesis by (simp add: supersede_def terminal_state_def)
    next
      case same
      moreover have "\<not> unsafe_completion st j" using same(1) safe j(2) members that by auto
      ultimately show ?thesis using j(2) members that
        by (cases "tj_state j") (auto simp: supersedable_completion_def unsafe_completion_def
            terminal_state_def sending_state_def)
    qed
  qed
  obtain x where "x \<in> set (transfer_jobs ?st1)" "receiving jid x" using count_where_one_mem[OF one] by blast
  hence new: "?f x \<in> set (transfer_jobs st')" "tj_id (?f x) = jid" "tj_state (?f x) = TQueued"
    unfolding jobs mem_update_where by (auto simp: receiving_def simp del: jobs_update_other)
  obtain z where z: "find (\<lambda>r. mu_upload_id r = u) (multipart_uploads st) = Some z" "s = mu_session z"
    using s by (auto simp: get_multipart_session_def)
  hence "mu_upload_id z = u" using find_Some_mem[OF z(1)] by simp
  hence session: "get_multipart_session u st' = Some (s\<lparr> ms_state := Completing, ms_updated_at := utc \<rparr>)"
    using z by (simp add: get_multipart_session_def ups find_update_where_same)
  show ?thesis
    by (intro conjI impI bexI[of _ "?f x"]) (use terminal new session members in simp_all)
qed

lemma get_part_put_part_row:
  "get_multipart_part u' k (put_part_row u part st) =
   (if u' = u \<and> k = mp_part_number part then Some part else get_multipart_part u' k st)"
proof -
  have rows: "multipart_parts (put_part_row u part st) = upsert (\<lambda>p. (pr_upload_id p, pr_part_number p))
      \<lparr> pr_upload_id = u, pr_part_number = mp_part_number part, pr_part = part \<rparr>
      (\<lambda>p. p\<lparr> pr_part := part \<rparr>) (multipart_parts st)"
    by (simp add: put_part_row_def)
  have "find (\<lambda>p. (pr_upload_id p, pr_part_number p) = (u', k)) (multipart_parts (put_part_row u part st)) =
    (if (u', k) = (u, mp_part_number part)
     then (case find (\<lambda>p. (pr_upload_id p, pr_part_number p) = (u', k)) (multipart_parts st) of
             None \<Rightarrow> Some \<lparr> pr_upload_id = u, pr_part_number = mp_part_number part, pr_part = part \<rparr>
           | Some z \<Rightarrow> Some (z\<lparr> pr_part := part \<rparr>))
     else find (\<lambda>p. (pr_upload_id p, pr_part_number p) = (u', k)) (multipart_parts st))"
    unfolding rows by (subst find_upsert) simp_all
  thus ?thesis by (auto simp: get_multipart_part_def split: option.splits)
qed

lemma get_part_cong: "multipart_parts st' = multipart_parts st \<Longrightarrow> get_multipart_part u k st' = get_multipart_part u k st"
  by (simp add: get_multipart_part_def)

lemma release_old_part_effect:
  assumes "release_old_part now u n st = Inr st1"
  shows "outbox_only st st1"
    "get_multipart_part u n st = Some old \<Longrightarrow> l \<in> part_messages [] old \<Longrightarrow> scheduled st1 l"
  using assms enqueue_part_effect[of now _ "[]" st st1]
  by (auto simp: release_old_part_def enqueue_part_cleanup_def split: option.splits)

lemma discard_objects_other [simp]:
  "transfer_jobs (discard_objects oids st) = transfer_jobs st"
  "multipart_parts (discard_objects oids st) = multipart_parts st"
  "multipart_uploads (discard_objects oids st) = multipart_uploads st"
  "multipart_jobs (discard_objects oids st) = multipart_jobs st"
  "cleanup_targets (discard_objects oids st) = cleanup_targets st"
  "send_attempts (discard_objects oids st) = send_attempts st"
  "transfer_chunks (discard_objects oids st) = transfer_chunks st"
  "transfer_sequence (discard_objects oids st) = transfer_sequence st"
  by (simp_all add: discard_objects_def delete_manifests_def Let_def)

lemma manifest_row_discarded: "oid \<in> oids \<Longrightarrow> manifest_row_of (discard_objects oids st) oid = None"
  by (auto simp: manifest_row_of_def discard_objects_def delete_manifests_def Let_def find_None_iff mem_delete_where)

lemma finish_part_steps:
  assumes f: "finish_part_job parse_etag now ts utc jid lease u n st = Inr (r, st')" and n: "0 < n"
  obtains row st1 st2 st3 where "manifest_row_of st jid = Some row" "release_old_part now u n st = Inr st1"
    "count_where (\<lambda>j. tj_id j = jid \<and> tj_lease j = Some lease \<and> tj_state j = TCommitting) (transfer_jobs st) = 1"
    "st2 = jobs_update (\<lambda>j. tj_id j = jid \<and> tj_lease j = Some lease \<and> tj_state j = TCommitting)
        (\<lambda>j. j\<lparr> tj_state := TCompleted, tj_lease := None, tj_error := None \<rparr>)
        (put_part_row u (part_of_manifest utc u n (om_manifest row)) st1)"
    "st3 = supersede_duplicates now u n jid st2"
    "st' = discard_objects {jid} (discard_objects (superseded_objects u n jid st3) st3)"
proof -
  obtain row st1 where a: "manifest_row_of st jid = Some row" "release_old_part now u n st = Inr st1"
    and b: "bind_res (jobs_update_one (\<lambda>j. tj_id j = jid \<and> tj_lease j = Some lease \<and> tj_state j = TCommitting)
              (\<lambda>j. j\<lparr> tj_state := TCompleted, tj_lease := None, tj_error := None \<rparr>)
              (InvalidManifest ''part lease lost'')
              (put_part_row u (part_of_manifest utc u n (om_manifest row)) st1)) (\<lambda>(_, st2).
          let st3 = supersede_duplicates now u n jid st2 in
          Inr ((), discard_objects {jid} (discard_objects (superseded_objects u n jid st3) st3))) = Inr (r, st')"
    using f n unfolding finish_part_job_def by (auto simp: result_simps simp del: exists_where_iff split: if_splits)
  have "transfer_jobs (put_part_row u (part_of_manifest utc u n (om_manifest row)) st1) = transfer_jobs st"
    using outbox_only_fields(1)[OF release_old_part_effect(1)[OF a(2)]] by (simp add: put_part_row_def)
  with b show ?thesis
    by (intro that[OF a _ refl refl]) (simp_all add: jobs_update_one_def Let_def split: if_splits)
qed

lemma jobs_update_tables [simp]:
  "multipart_parts (jobs_update P f st) = multipart_parts st"
  "multipart_uploads (jobs_update P f st) = multipart_uploads st"
  "multipart_jobs (jobs_update P f st) = multipart_jobs st"
  "cleanup_targets (jobs_update P f st) = cleanup_targets st"
  "object_manifests (jobs_update P f st) = object_manifests st"
  by (simp_all add: jobs_update_def)

lemma scheduled_cong: "cleanup_targets st' = cleanup_targets st \<Longrightarrow> scheduled st' l = scheduled st l"
  by (simp add: scheduled_def)

text \<open>
  C26: Publishing a part makes exactly that part visible, built from the staged manifest
  of its job, leaves every other part of every session alone, completes the job, drops
  the staged manifest, and schedules every message of the part it replaces for cleanup.
\<close>

theorem finish_part_publishes:
  assumes f: "finish_part_job parse_etag now ts utc jid lease u n st = Inr (r, st')" and n: "0 < n"
  shows "(\<exists>row. manifest_row_of st jid = Some row \<and>
      get_multipart_part u n st' = Some (part_of_manifest utc u n (om_manifest row))) \<and>
    (\<forall>u' k. (u', k) \<noteq> (u, n) \<longrightarrow> get_multipart_part u' k st' = get_multipart_part u' k st) \<and>
    (\<exists>j \<in> set (transfer_jobs st'). tj_id j = jid \<and> tj_state j = TCompleted) \<and>
    manifest_row_of st' jid = None \<and>
    (\<forall>old l. get_multipart_part u n st = Some old \<and> l \<in> part_messages [] old \<longrightarrow> scheduled st' l)"
proof -
  let ?P = "\<lambda>j. tj_id j = jid \<and> tj_lease j = Some lease \<and> tj_state j = TCommitting"
  let ?f = "\<lambda>j. j\<lparr> tj_state := TCompleted, tj_lease := None, tj_error := None \<rparr>"
  obtain row st1 st2 st3 where row: "manifest_row_of st jid = Some row"
    and st1: "release_old_part now u n st = Inr st1" and one: "count_where ?P (transfer_jobs st) = 1"
    and st2_def: "st2 = jobs_update ?P ?f (put_part_row u (part_of_manifest utc u n (om_manifest row)) st1)"
    and st3_def: "st3 = supersede_duplicates now u n jid st2"
    and end_: "st' = discard_objects {jid} (discard_objects (superseded_objects u n jid st3) st3)"
    by (rule finish_part_steps[OF f n])
  let ?part = "part_of_manifest utc u n (om_manifest row)"
  have old: "outbox_only st st1" by (rule release_old_part_effect(1)[OF st1])
  have "get_multipart_part u' k st' = get_multipart_part u' k (put_part_row u ?part st1)" for u' k
    by (rule get_part_cong) (simp add: end_ st3_def supersede_duplicates_def Let_def st2_def)
  moreover have "get_multipart_part u' k st1 = get_multipart_part u' k st" for u' k
    using outbox_only_fields(3)[OF old] by (rule get_part_cong)
  ultimately have parts: "get_multipart_part u' k st' =
      (if u' = u \<and> k = n then Some ?part else get_multipart_part u' k st)" for u' k
    by (simp add: get_part_put_part_row part_of_manifest_def)
  obtain x where x: "x \<in> set (transfer_jobs st)" "?P x" using count_where_one_mem[OF one] by blast
  have "transfer_jobs st2 = update_where ?P ?f (transfer_jobs st)"
    using outbox_only_fields(1)[OF old] by (simp add: st2_def put_part_row_def)
  hence "?f x \<in> set (transfer_jobs st2)" using x by (auto simp: mem_update_where)
  hence "?f x \<in> set (transfer_jobs st3)"
    using x(2) by (auto simp: st3_def supersede_duplicates_def Let_def mem_update_where intro!: bexI[of _ "?f x"])
  hence job: "\<exists>j \<in> set (transfer_jobs st'). tj_id j = jid \<and> tj_state j = TCompleted"
    using x(2) by (intro bexI[of _ "?f x"]) (simp_all add: end_)
  have "scheduled st' l = scheduled st1 l" for l
    by (rule scheduled_cong) (simp add: end_ st3_def supersede_duplicates_def Let_def st2_def put_part_row_def)
  hence sched: "\<forall>old l. get_multipart_part u n st = Some old \<and> l \<in> part_messages [] old \<longrightarrow> scheduled st' l"
    using release_old_part_effect(2)[OF st1] by blast
  have "manifest_row_of st' jid = None" unfolding end_ by (rule manifest_row_discarded) simp
  with parts job sched row show ?thesis by (intro conjI exI[of _ row]) auto
qed

text \<open>
  C27: An abort that succeeds removes the session and all its parts, leaves no job of the
  session able to publish, and schedules every message of every part for cleanup; it
  touches no part of another session.
\<close>

theorem abort_schedules_every_part:
  assumes "abort_parts now u st = Inr (r, st')"
  shows "get_multipart_session u st' = None \<and> list_multipart_parts u st' = [] \<and>
    (\<forall>p \<in> set (multipart_parts st). pr_upload_id p = u \<longrightarrow>
       (\<forall>l \<in> part_messages [] (pr_part p). scheduled st' l)) \<and>
    (\<forall>j \<in> set (transfer_jobs st'). tj_id j \<in> set (session_jobs u (\<lambda>_. True) st') \<longrightarrow> terminal_state (tj_state j)) \<and>
    (\<forall>u' k. u' \<noteq> u \<longrightarrow> get_multipart_part u' k st' = get_multipart_part u' k st)"
proof -
  let ?jobs = "set (session_jobs u (\<lambda>_. True) st)"
  let ?P = "\<lambda>j. tj_id j \<in> ?jobs \<and> tj_state j \<notin> {TCompleted, TCleaned}"
  let ?f = "\<lambda>j. j\<lparr> tj_state := TCancelled, tj_lease := None \<rparr>"
  let ?parts = "filter (\<lambda>p. pr_upload_id p = u) (multipart_parts st)"
  obtain st1 where st1: "enqueue_parts now [] ?parts st = Inr st1"
    and st': "st' = delete_multipart_session u (delete_multipart_parts u (jobs_update ?P ?f st1))"
    using assms unfolding abort_parts_def Let_def
    by (auto simp: result_simps simp del: exists_where_iff split: if_splits)
  note eff = enqueue_parts_effect[OF st1]
  note same = outbox_only_fields[OF conjunct1[OF eff]]
  have "scheduled st' l = scheduled st1 l" for l
    by (rule scheduled_cong) (simp add: st' delete_multipart_session_def delete_multipart_parts_def)
  hence sched: "\<forall>p \<in> set (multipart_parts st). pr_upload_id p = u \<longrightarrow>
       (\<forall>l \<in> part_messages [] (pr_part p). scheduled st' l)"
    using eff by auto
  have gone: "get_multipart_session u st' = None" "list_multipart_parts u st' = []"
    by (auto simp: st' get_multipart_session_def list_multipart_parts_def delete_multipart_session_def
        delete_multipart_parts_def find_None_iff mem_delete_where select_order_def filter_empty_conv)
  have other: "get_multipart_part u' k st' = get_multipart_part u' k st" if "u' \<noteq> u" for u' k
  proof -
    have "find (\<lambda>p. pr_upload_id p = u' \<and> pr_part_number p = k) (delete_where (\<lambda>p. pr_upload_id p = u) ps) =
        find (\<lambda>p. pr_upload_id p = u' \<and> pr_part_number p = k) ps" for ps :: "part_row list"
      using that by (induction ps) (auto simp: delete_where_def)
    thus ?thesis by (simp add: get_multipart_part_def st' delete_multipart_session_def delete_multipart_parts_def same)
  qed
  have jobs: "terminal_state (tj_state j)"
    if "j \<in> set (transfer_jobs st')" "tj_id j \<in> set (session_jobs u (\<lambda>_. True) st')" for j
  proof -
    have "j \<in> set (update_where ?P ?f (transfer_jobs st))" "tj_id j \<in> ?jobs"
      using that by (simp_all add: st' delete_multipart_session_def delete_multipart_parts_def same session_jobs_def)
    thus ?thesis by (cases rule: update_where_cases) (auto simp: terminal_state_def)
  qed
  show ?thesis using gone sched jobs other by blast
qed

text \<open>
  C12: Committing a completion schedules the messages of the parts for cleanup but never a
  message the completed object refers to: the payload of its chunks stays where it is.
  Parts are published in messages of their own, apart from the payload.
\<close>

theorem completion_keeps_payload:
  assumes c: "commit_transfer_manifest parse_etag now ts op jid lease published st = Inr (m, st')"
    and j: "load_journal_entry st op = Some journal" "jd_state journal \<noteq> ''committed''"
    and own: "\<forall>p \<in> set (multipart_parts st). \<forall>c \<in> set (chunks m).
      (loc_peer_id (mp_telegram (pr_part p)), loc_message_id (mp_telegram (pr_part p))) \<noteq>
        (ck_peer_id c, ck_message_id c)"
    and k: "k \<in> set (chunks m)" "0 < ck_message_id k"
  shows "scheduled st' (ck_peer_id k, ck_message_id k) = scheduled st (ck_peer_id k, ck_message_id k)"
proof -
  let ?l = "(ck_peer_id k, ck_message_id k)"
  obtain stored m0 current completion st1 where s:
    "load_manifest_by_object_id st (jd_object_id journal) = Inr (Some stored)"
    "choose_published journal stored (Some published) = Inr m0"
    "commit_fence now op (Some (jid, lease)) st = Inr ()"
    "key_manifest st (jd_bucket journal) (jd_key journal) = Inr current"
    "commit_conditionals parse_etag (Some (jid, lease)) current st = Inr ()"
    "commit_quota jid journal m0 st = Inr ()"
    "m = m0\<lparr> commit_state := Committed \<rparr>"
    "commit_transfer_job now op (Some (jid, lease)) (commit_index ts op journal m st) = Inr ((), st1)"
    "close_completion now m completion st1 = Inr ((), st')"
    by (rule commit_steps[OF c[unfolded commit_transfer_manifest_def] j]) simp
  have same: "scheduled st1 ?l = scheduled st ?l" "multipart_parts st1 = multipart_parts st"
    using s(8) by (auto simp: commit_transfer_job_def jobs_update_one_def jobs_update_def commit_index_def
        scheduled_def split: if_splits)
  show ?thesis
  proof (cases completion)
    case None
    thus ?thesis using s(9) same by (simp add: close_completion_def)
  next
    case (Some u)
    let ?retained = "map (\<lambda>c. (ck_peer_id c, ck_message_id c)) (chunks m)"
    let ?parts = "filter (\<lambda>p. pr_upload_id p = u) (multipart_parts st1)"
    obtain st2 where st2: "enqueue_parts now ?retained ?parts st1 = Inr st2" "cleanup_targets st' = cleanup_targets st2"
      using s(9) by (auto simp: close_completion_def Some result_simps split: if_splits)
    have "?l \<noteq> part_evidence (pr_part p) \<and> ?l \<notin> part_messages ?retained (pr_part p)"
      if "p \<in> set (multipart_parts st)" for p
      using bspec[OF bspec[OF own that] k(1)] k
      by (auto simp: part_evidence_def part_messages_def split: option.splits)
    hence "scheduled st2 ?l = scheduled st1 ?l"
      using enqueue_parts_effect[OF st2(1), of ?l] same(2) by auto
    thus ?thesis using same(1) scheduled_cong[OF st2(2)] by simp
  qed
qed

section \<open>A session from start to end\<close>

lemma Inr_cases: "(case r of Inl _ \<Rightarrow> False | Inr x \<Rightarrow> P x) \<Longrightarrow> \<exists>x. r = Inr x \<and> P x"
  by (cases r) auto

definition session_run :: store where
  "session_run = snd (create_multipart_session ''t'' example_session bucket_store)"

definition part_job :: "string \<Rightarrow> nat \<Rightarrow> store \<Rightarrow> store" where
  "part_job oid n s0 =
     (let s1 = upload_run oid s0
      in keep s1 (insert_multipart_job
           \<lparr> mj_job_id = oid, mj_upload_id = ''u'', mj_part_number = n, mj_expected_checksum = None \<rparr> s1))"

definition published_part :: "string \<Rightarrow> nat \<Rightarrow> store \<Rightarrow> store" where
  "published_part oid n s0 =
     (let s = part_job oid n s0 in keep s (finish_part_job (\<lambda>_. None) 4 ''t'' 0 oid ''L'' ''u'' n s))"

definition completion_job :: "string \<Rightarrow> store \<Rightarrow> store" where
  "completion_job jid s0 = keep s0 (begin_transfer 5 jid ''b'' ''k'' s0)"

theorem finish_part_publishes_witness:
  "\<exists>r st'. finish_part_job (\<lambda>_. None) 4 ''t'' 0 ''p2'' ''L'' ''u'' 1 (part_job ''p2'' 1 (published_part ''p1'' 1 session_run)) =
       Inr (r, st') \<and> scheduled st' (''p'', 9)"
proof -
  let ?st = "part_job ''p2'' 1 (published_part ''p1'' 1 session_run)"
  have "case finish_part_job (\<lambda>_. None) 4 ''t'' 0 ''p2'' ''L'' ''u'' 1 ?st of Inl _ \<Rightarrow> False | Inr _ \<Rightarrow> True"
    by code_simp
  then obtain r st' where f: "finish_part_job (\<lambda>_. None) 4 ''t'' 0 ''p2'' ''L'' ''u'' 1 ?st = Inr (r, st')"
    by (auto split: sum.splits)
  have "map_option mp_telegram (get_multipart_part ''u'' 1 ?st) =
      Some \<lparr> loc_peer_id = ''p'', loc_message_id = 9, loc_document_id = None \<rparr>"
    by code_simp
  then obtain old where old: "get_multipart_part ''u'' 1 ?st = Some old" "(''p'', 9) \<in> part_messages [] old"
    by (auto simp: part_messages_def)
  show ?thesis using f finish_part_publishes[OF f] old by auto
qed

theorem abort_schedules_every_part_witness:
  "\<exists>r st'. abort_parts 9 ''u'' (published_part ''p1'' 1 session_run) = Inr (r, st') \<and>
     list_multipart_parts ''u'' (published_part ''p1'' 1 session_run) \<noteq> [] \<and>
     list_multipart_parts ''u'' st' = [] \<and> get_multipart_session ''u'' st' = None"
proof -
  let ?st = "published_part ''p1'' 1 session_run"
  have "case abort_parts 9 ''u'' ?st of Inl _ \<Rightarrow> False | Inr _ \<Rightarrow> True" by code_simp
  then obtain r st' where a: "abort_parts 9 ''u'' ?st = Inr (r, st')" by (auto split: sum.splits)
  have "length (list_multipart_parts ''u'' ?st) = 1" by code_simp
  thus ?thesis using a abort_schedules_every_part[OF a] by (intro exI[of _ r] exI[of _ st']) auto
qed

text \<open>A part with one chunk, the completion of the session, and its commit.\<close>

definition chunked_part :: ObjectManifest where
  "chunked_part = example_manifest ''p1'' ''k'' [example_chunk 0 0 3 8]"

definition chunked_session :: store where
  "chunked_session =
     (let s1 = keep session_run (begin_transfer 0 ''p1'' ''b'' ''k'' session_run);
          s2 = keep s1 (stage_manifest ''t'' Put chunked_part s1);
          s3 = keep s2 (insert_multipart_job
            \<lparr> mj_job_id = ''p1'', mj_upload_id = ''u'', mj_part_number = 1, mj_expected_checksum = None \<rparr> s2);
          s4 = keep s3 (queue_transfer 1 ''p1'' ''p1'' 1 s3);
          s5 = snd (claim_transfer 2 ''L'' s4);
          s6 = keep s5 (enter_committing 3 ''p1'' ''L'' s5)
      in keep s6 (finish_part_job (\<lambda>_. None) 4 ''t'' 0 ''p1'' ''L'' ''u'' 1 s6))"

definition chunked_plan :: MultipartCompletionPlan where
  "chunked_plan = example_plan\<lparr> cp_content_length := 3,
     cp_parts := map part_plan (list_multipart_parts ''u'' chunked_session) \<rparr>"

definition completed_upload :: "(ObjectFormatError + completion_outcome) \<times> store" where
  "completed_upload =
     complete_multipart_upload (\<lambda>_. ''h'') (\<lambda>_. 10)
       \<lparr> io_create_dir = None, io_write_manifest = None, io_removed = True \<rparr>
       5 ''t'' 0 1000 (Inr ''peer'') chunked_plan chunked_session"

definition committing_upload :: store where
  "committing_upload =
     (let s = snd (claim_transfer 6 ''L'' (snd completed_upload)) in keep s (enter_committing 7 ''u'' ''L'' s))"

definition composed_object :: ObjectManifest where
  "composed_object =
     (case completion_manifest (\<lambda>_. ''h'') 0 (Inr ''peer'') example_session
             (list_multipart_parts ''u'' chunked_session) chunked_plan of
        Inr m \<Rightarrow> m | Inl _ \<Rightarrow> chunked_part)"

theorem completion_keeps_payload_witness:
  "\<exists>m st'. commit_transfer_manifest (\<lambda>_. None) 8 ''t2'' ''u'' ''u'' ''L'' composed_object committing_upload =
       Inr (m, st') \<and> map ck_message_id (chunks m) = [8] \<and>
     scheduled st' (''p'', 8) = scheduled committing_upload (''p'', 8)"
proof -
  have "case commit_transfer_manifest (\<lambda>_. None) 8 ''t2'' ''u'' ''u'' ''L'' composed_object committing_upload of
      Inl _ \<Rightarrow> False
    | Inr (m, _) \<Rightarrow> map (\<lambda>c. (ck_peer_id c, ck_message_id c)) (chunks m) = [(''p'', 8)]"
    by code_simp
  then obtain m st' where c: "commit_transfer_manifest (\<lambda>_. None) 8 ''t2'' ''u'' ''u'' ''L'' composed_object
        committing_upload = Inr (m, st')"
      and ch: "map (\<lambda>c. (ck_peer_id c, ck_message_id c)) (chunks m) = [(''p'', 8)]"
    by (auto split: sum.splits)
  have "map_option jd_state (load_journal_entry committing_upload ''u'') = Some ''staging''" by code_simp
  then obtain journal where j: "load_journal_entry committing_upload ''u'' = Some journal"
      "jd_state journal \<noteq> ''committed''" by auto
  obtain k where k: "chunks m = [k]" "ck_peer_id k = ''p''" "ck_message_id k = 8" using ch by auto
  have "map (\<lambda>p. (loc_peer_id (mp_telegram (pr_part p)), loc_message_id (mp_telegram (pr_part p))))
      (multipart_parts committing_upload) = [(''p'', 7)]" by code_simp
  hence own: "\<forall>p \<in> set (multipart_parts committing_upload). \<forall>c \<in> set (chunks m).
      (loc_peer_id (mp_telegram (pr_part p)), loc_message_id (mp_telegram (pr_part p))) \<noteq>
        (ck_peer_id c, ck_message_id c)"
    using k by auto
  have "scheduled st' (ck_peer_id k, ck_message_id k) = scheduled committing_upload (ck_peer_id k, ck_message_id k)"
    by (rule completion_keeps_payload[OF c j own]) (use k in simp_all)
  thus ?thesis using c k by auto
qed

definition two_completions :: store where
  "two_completions =
     (let s1 = completion_job ''c1'' session_run;
          s2 = keep s1 (queue_multipart_completion 6 ''t'' 0 ''c1'' ''c1'' ''u'' s1)
      in completion_job ''c2'' s2)"

theorem completion_is_exclusive_witness:
  "\<exists>r st' j. queue_multipart_completion 7 ''t'' 0 ''c2'' ''c2'' ''u'' two_completions = Inr (r, st') \<and>
     j \<in> set (transfer_jobs st') \<and> tj_id j = ''c1'' \<and> terminal_state (tj_state j)"
proof -
  have "case queue_multipart_completion 7 ''t'' 0 ''c2'' ''c2'' ''u'' two_completions of
      Inl _ \<Rightarrow> False
    | Inr (_, st') \<Rightarrow> map tj_id (transfer_jobs st') = [''c1'', ''c2''] \<and>
        session_jobs ''u'' (\<lambda>n. n = 0) st' = [''c1'', ''c2'']"
    by code_simp
  then obtain r st' where q: "queue_multipart_completion 7 ''t'' 0 ''c2'' ''c2'' ''u'' two_completions = Inr (r, st')"
      and ids: "map tj_id (transfer_jobs st') = [''c1'', ''c2'']" "session_jobs ''u'' (\<lambda>n. n = 0) st' = [''c1'', ''c2'']"
    by (auto split: sum.splits)
  obtain j where j: "j \<in> set (transfer_jobs st')" "tj_id j = ''c1''"
    using ids(1) by (cases "transfer_jobs st'") auto
  have "tj_id j \<in> set (session_jobs ''u'' (\<lambda>n. n = 0) st')" using j(2) ids(2) by simp
  from completion_is_exclusive[OF q j(1) this] show ?thesis using q j by auto
qed

end
