(* ===== verification/Buckets.thy ===== *)
theory Buckets
  imports Multipart
begin

text \<open>
  Buckets (\<open>metadata/buckets.rs\<close> and the wrappers of \<open>object_format.rs\<close>): creation,
  deletion, lookup and the listing of the active objects of a bucket.  Time columns
  are their RFC 3339 text.
\<close>

record BucketRecord =
  br_name :: string
  br_created_at :: string
  br_deleted_at :: "string option"
  br_versioning_enabled :: bool
  br_object_locking_enabled :: bool

definition record_of_row :: "bucket_row \<Rightarrow> BucketRecord" where
  "record_of_row r =
     \<lparr> br_name = bk_name r, br_created_at = bk_created_at r, br_deleted_at = bk_deleted_at r,
       br_versioning_enabled = bk_versioning_enabled r,
       br_object_locking_enabled = bk_object_locking_enabled r \<rparr>"

definition create_bucket_row :: "string \<Rightarrow> BucketRecord \<Rightarrow> store \<Rightarrow> BucketRecord tx" where
  "create_bucket_row ts b st =
     (if blank (br_name b) then Inl (InvalidManifest ''bucket name is required'')
      else
        let row = \<lparr> bk_name = br_name b, bk_connection_id = active_connection_id st, bk_created_at = ts,
                    bk_deleted_at = None, bk_versioning_enabled = br_versioning_enabled b,
                    bk_object_locking_enabled = br_object_locking_enabled b \<rparr>
        in (case find (\<lambda>r. bk_name r = br_name b) (buckets st) of
              None \<Rightarrow> Inr (record_of_row row, st\<lparr> buckets := buckets st @ [row] \<rparr>)
            | Some r \<Rightarrow>
                if bk_deleted_at r = None then Inl (BucketAlreadyExists (bk_name r))
                else Inr (record_of_row row,
                       st\<lparr> buckets := update_where (\<lambda>r. bk_name r = br_name b) (\<lambda>_. row) (buckets st) \<rparr>)))"

definition load_bucket_record :: "store \<Rightarrow> string \<Rightarrow> bool \<Rightarrow> BucketRecord option" where
  "load_bucket_record st name include_deleted =
     map_option record_of_row
       (find (\<lambda>r. bk_name r = name \<and> (include_deleted \<or> bk_deleted_at r = None) \<and>
                  bk_connection_id r = active_connection_id st) (buckets st))"

definition get_bucket :: "string \<Rightarrow> store \<Rightarrow> BucketRecord option" where
  "get_bucket name st = load_bucket_record st name False"

definition bucket_exists :: "string \<Rightarrow> store \<Rightarrow> bool" where
  "bucket_exists name st \<longleftrightarrow> get_bucket name st \<noteq> None"

definition list_buckets :: "store \<Rightarrow> BucketRecord list" where
  "list_buckets st =
     map record_of_row (select_order
       (\<lambda>r. bk_deleted_at r = None \<and> bk_connection_id r = active_connection_id st) bk_name (buckets st))"

definition delete_bucket_row :: "string \<Rightarrow> string \<Rightarrow> store \<Rightarrow> unit tx" where
  "delete_bucket_row ts name st =
     (let live = (\<lambda>r. bk_name r = name \<and> bk_deleted_at r = None \<and> bk_connection_id r = active_connection_id st) in
      if exists_where (\<lambda>j. tj_bucket j = name \<and> tj_state j \<notin> {TCompleted, TCancelled, TCleaned}) (transfer_jobs st)
      then Inl (BucketNotEmpty name)
      else if 0 < count_where (\<lambda>a. ao_bucket a = name) (active_objects st) \<or>
              0 < count_where (\<lambda>m. om_bucket m = name \<and>
                    om_commit_state m \<in> {Committed, Staging, Orphaned, RecoveryRequired}) (object_manifests st)
      then Inl (BucketNotEmpty name)
      else if count_where live (buckets st) = 0 then Inl (BucketNotFound name)
      else Inr ((), st\<lparr> buckets := update_where live (\<lambda>r. r\<lparr> bk_deleted_at := Some ts \<rparr>) (buckets st) \<rparr>))"

text \<open>
  The listing joins the active objects with their manifests in key order; the prefix
  is a \<open>LIKE\<close> pattern, so it matches without regard to ASCII case and its \<open>%\<close> and
  \<open>_\<close> are wildcards.
\<close>

definition list_bucket_rows :: "string \<Rightarrow> string option \<Rightarrow> store \<Rightarrow> ObjectManifest list" where
  "list_bucket_rows name prefix st =
     List.map_filter (\<lambda>a.
         case manifest_row_of st (ao_object_id a) of
           None \<Rightarrow> None
         | Some r \<Rightarrow> if om_connection_id r = active_connection_id st then Some (om_manifest r) else None)
       (select_order (\<lambda>a. ao_bucket a = name \<and>
            (case prefix of None \<Rightarrow> True | Some p \<Rightarrow> sql_like (p @ ''%'') (ao_key a)))
          (\<lambda>a. (ao_key a, ao_object_id a)) (active_objects st))"

definition list_bucket_manifests ::
  "string \<Rightarrow> string option \<Rightarrow> store \<Rightarrow> MetadataError + ObjectManifest list" where
  "list_bucket_manifests name prefix st = validate_all (list_bucket_rows name prefix st)"

section \<open>The object service\<close>

definition RESERVED_BUCKET_NAMES :: "string list" where
  "RESERVED_BUCKET_NAMES = [''_public'', ''_admin'']"

definition connection_removal_in_progress :: "store \<Rightarrow> bool" where
  "connection_removal_in_progress st =
     exists_where (\<lambda>r. cr_state r \<in> {RPending, RRunning, RRemoteCleanupPending}) (removal_jobs st)"

definition ensure_connection_not_removing :: "store \<Rightarrow> ObjectFormatError + unit" where
  "ensure_connection_not_removing st =
     (if connection_removal_in_progress st
      then Inl (InvalidPlan ''Telegram connection removal is in progress'') else Inr ())"

definition create_bucket :: "string \<Rightarrow> string \<Rightarrow> store \<Rightarrow> ObjectFormatError + BucketRecord \<times> store" where
  "create_bucket ts name st =
     (if name \<in> set RESERVED_BUCKET_NAMES
      then Inl (InvalidBucketName (name @ '' is reserved for an internal HTTP route''))
      else bind_res (ensure_connection_not_removing st) (\<lambda>_.
        map_err Metadata (create_bucket_row ts
          \<lparr> br_name = name, br_created_at = ts, br_deleted_at = None, br_versioning_enabled = False,
            br_object_locking_enabled = False \<rparr> st)))"

text \<open>Expired objects are tombstoned one by one; each is its own transaction.\<close>

fun tombstone_all :: "seconds \<Rightarrow> string \<Rightarrow> ObjectManifest list \<Rightarrow> store \<Rightarrow> (MetadataError + unit) \<times> store" where
  "tombstone_all now ts [] st = (Inr (), st)"
| "tombstone_all now ts (m # ms) st =
     (case tombstone_manifest_with_conditionals now ts (m_object_id m) ''object expired'' None None None st of
        Inl e \<Rightarrow> (Inl e, st)
      | Inr (_, st1) \<Rightarrow> tombstone_all now ts ms st1)"

definition delete_bucket :: "seconds \<Rightarrow> string \<Rightarrow> instant \<Rightarrow> string \<Rightarrow> store \<Rightarrow> (ObjectFormatError + unit) \<times> store" where
  "delete_bucket now ts utc name st =
     (case list_bucket_manifests name None st of
        Inl e \<Rightarrow> (Inl (Metadata e), st)
      | Inr ms \<Rightarrow>
          (case tombstone_all now ts (filter (\<lambda>m. is_expired m utc) ms) st of
             (Inl e, st1) \<Rightarrow> (Inl (Metadata e), st1)
           | (Inr _, st1) \<Rightarrow>
               (case delete_bucket_row ts name st1 of
                  Inl e \<Rightarrow> (Inl (Metadata e), st1)
                | Inr (_, st2) \<Rightarrow> (Inr (), st2))))"

text \<open>
  Visible objects: not expired, and not while the object is being re-chunked.
  \<open>rechunk_locked\<close> is the lookup in \<open>rechunk_locks\<close>.
\<close>

definition visible_manifest ::
  "(string \<Rightarrow> bool) \<Rightarrow> instant \<Rightarrow> string \<Rightarrow> string \<Rightarrow> store \<Rightarrow> ObjectFormatError + ObjectManifest option" where
  "visible_manifest rechunk_locked utc name key st =
     bind_res (map_err Metadata (get_active_manifest name key st)) (\<lambda>m.
       case m of
         None \<Rightarrow> Inr None
       | Some m \<Rightarrow>
           if is_expired m utc then Inr None
           else if rechunk_locked (m_object_id m)
           then Inl (InvalidRead ''object is being re-chunked; try again later'')
           else Inr (Some m))"

definition visible_bucket_manifests ::
  "instant \<Rightarrow> string \<Rightarrow> string option \<Rightarrow> store \<Rightarrow> ObjectFormatError + ObjectManifest list" where
  "visible_bucket_manifests utc name prefix st =
     map_sum Metadata (filter (\<lambda>m. \<not> is_expired m utc)) (list_bucket_manifests name prefix st)"

text \<open>\<open>parse_uuid\<close> is \<open>Uuid::parse_str\<close>, with the text of its error.\<close>

definition get_manifest_by_version ::
  "(string \<Rightarrow> string + uuid) \<Rightarrow> instant \<Rightarrow> string \<Rightarrow> string \<Rightarrow> string \<Rightarrow> store \<Rightarrow> ObjectFormatError + ObjectManifest option" where
  "get_manifest_by_version parse_uuid utc name key version st =
     bind_res (map_err InvalidPlan (parse_uuid version)) (\<lambda>oid.
     bind_res (map_err Metadata (get_manifest oid st)) (\<lambda>m. Inr (
       case m of
         None \<Rightarrow> None
       | Some m \<Rightarrow> if m_bucket m = name \<and> m_key m = key \<and> \<not> is_expired m utc then Some m else None)))"

section \<open>Properties\<close>

lemma bex_update_where_split:
  "(\<exists>x \<in> set (update_where P f xs). Q x) \<longleftrightarrow>
   (\<exists>x \<in> set xs. P x \<and> Q (f x)) \<or> (\<exists>x \<in> set xs. \<not> P x \<and> Q x)"
  by (induction xs) auto

lemma create_bucket_row_visible:
  assumes "create_bucket_row ts b st = Inr (r, st')"
  shows "bucket_exists n st' \<longleftrightarrow> n = br_name b \<or> bucket_exists n st"
proof -
  let ?row = "\<lparr> bk_name = br_name b, bk_connection_id = active_connection_id st, bk_created_at = ts,
      bk_deleted_at = None, bk_versioning_enabled = br_versioning_enabled b,
      bk_object_locking_enabled = br_object_locking_enabled b \<rparr>"
  let ?live = "\<lambda>n r. bk_name r = n \<and> bk_deleted_at r = None \<and> bk_connection_id r = active_connection_id st"
  have exists: "bucket_exists k s \<longleftrightarrow> (\<exists>r \<in> set (buckets s). ?live k r)"
    if "active_connection_id s = active_connection_id st" for s k
    using that find_None_iff[of "?live k" "buckets s"]
    by (auto simp: bucket_exists_def get_bucket_def load_bucket_record_def)
  have conn: "active_connection_id (st\<lparr> buckets := bs \<rparr>) = active_connection_id st" for bs
    by (simp add: active_connection_id_def)
  consider "st' = st\<lparr> buckets := buckets st @ [?row] \<rparr>"
    | r0 where "st' = st\<lparr> buckets := update_where (\<lambda>r. bk_name r = br_name b) (\<lambda>_. ?row) (buckets st) \<rparr>"
        "r0 \<in> set (buckets st)" "bk_name r0 = br_name b"
    using assms(1) by (auto simp: create_bucket_row_def Let_def dest: find_Some_mem split: if_splits option.splits)
  thus ?thesis
  proof cases
    case 1
    thus ?thesis by (auto simp: exists conn)
  next
    case 2
    thus ?thesis by (cases "n = br_name b") (auto simp: exists conn bex_update_where_split)
  qed
qed

text \<open>
  C32: A bucket is deleted only when nothing in it can become visible again: no active
  object, no manifest that is not tombstoned, no transfer that could still publish.
  Afterwards it does not exist, every other bucket still does, and its name can be
  created again.
\<close>

theorem delete_bucket_is_final:
  assumes d: "delete_bucket_row ts n st = Inr (u, st')" and names: "distinct (map bk_name (buckets st))"
    and n: "\<not> blank n"
  shows "\<not> bucket_exists n st' \<and> (\<forall>k. k \<noteq> n \<longrightarrow> bucket_exists k st' = bucket_exists k st) \<and>
    (\<forall>k. active_object_id st' n k = None) \<and>
    (\<forall>m \<in> set (object_manifests st'). om_bucket m = n \<longrightarrow> om_commit_state m = Tombstoned) \<and>
    (\<forall>j \<in> set (transfer_jobs st'). tj_bucket j = n \<longrightarrow> tj_state j \<in> {TCompleted, TCancelled, TCleaned}) \<and>
    (\<exists>r st2. create_bucket_row ts' \<lparr> br_name = n, br_created_at = ts', br_deleted_at = None,
        br_versioning_enabled = False, br_object_locking_enabled = False \<rparr> st' = Inr (r, st2) \<and> bucket_exists n st2)"
proof -
  let ?conn = "active_connection_id st"
  let ?live = "\<lambda>r. bk_name r = n \<and> bk_deleted_at r = None \<and> bk_connection_id r = ?conn"
  have jobs: "\<forall>j \<in> set (transfer_jobs st). tj_bucket j = n \<longrightarrow> tj_state j \<in> {TCompleted, TCancelled, TCleaned}"
    and act: "\<forall>a \<in> set (active_objects st). ao_bucket a \<noteq> n"
    and rows: "\<forall>m \<in> set (object_manifests st). om_bucket m = n \<longrightarrow>
        om_commit_state m \<notin> {Committed, Staging, Orphaned, RecoveryRequired}"
    and some: "\<exists>r \<in> set (buckets st). ?live r"
    and st': "st' = st\<lparr> buckets := update_where ?live (\<lambda>r. r\<lparr> bk_deleted_at := Some ts \<rparr>) (buckets st) \<rparr>"
    using d by (auto simp: delete_bucket_row_def Let_def count_where_def filter_empty_conv split: if_splits)
  have conn: "active_connection_id st' = ?conn" by (simp add: st' active_connection_id_def)
  have exists: "bucket_exists k s \<longleftrightarrow> (\<exists>r \<in> set (buckets s). bk_name r = k \<and> bk_deleted_at r = None \<and> bk_connection_id r = ?conn)"
    if "active_connection_id s = ?conn" for s k
    using that find_None_iff[of "\<lambda>r. bk_name r = k \<and> bk_deleted_at r = None \<and> bk_connection_id r = ?conn" "buckets s"]
    by (auto simp: bucket_exists_def get_bucket_def load_bucket_record_def)
  have gone: "\<not> bucket_exists n st'" unfolding exists[OF conn] by (auto simp: st' bex_update_where_split)
  have other: "bucket_exists k st' = bucket_exists k st" if "k \<noteq> n" for k
    unfolding exists[OF conn] exists[OF refl] using that by (auto simp: st' bex_update_where_split)
  obtain r where r: "r \<in> set (buckets st)" "?live r" using some by blast
  let ?r = "r\<lparr> bk_deleted_at := Some ts \<rparr>"
  have "?r \<in> set (buckets st')" using r by (auto simp: st' mem_update_where)
  moreover have "distinct (map bk_name (buckets st'))"
    using names by (simp add: st' distinct_map_update_where)
  ultimately have found: "find (\<lambda>x. bk_name x = n) (buckets st') = Some ?r"
    using find_distinct_key[of bk_name "buckets st'" ?r] r(2) by simp
  let ?b = "\<lparr> br_name = n, br_created_at = ts', br_deleted_at = None, br_versioning_enabled = False,
      br_object_locking_enabled = False \<rparr>"
  obtain x st2 where c: "create_bucket_row ts' ?b st' = Inr (x, st2)"
    using n found by (simp add: create_bucket_row_def Let_def)
  have again: "bucket_exists n st2"
    using create_bucket_row_visible[OF c] by simp
  have "om_commit_state m = Tombstoned" if "m \<in> set (object_manifests st')" "om_bucket m = n" for m
    using rows that by (cases "om_commit_state m") (auto simp: st')
  moreover have "active_object_id st' n k = None" for k
    using act by (auto simp: active_object_id_def st' find_None_iff)
  ultimately show ?thesis using gone other jobs c again by (auto simp: st')
qed

theorem delete_bucket_is_final_witness:
  "\<exists>u st'. delete_bucket_row ''t'' ''b'' bucket_store = Inr (u, st') \<and> bucket_exists ''b'' bucket_store \<and>
     \<not> bucket_exists ''b'' st'"
proof -
  have "case delete_bucket_row ''t'' ''b'' bucket_store of Inl _ \<Rightarrow> False | Inr _ \<Rightarrow> True" by code_simp
  then obtain u st' where d: "delete_bucket_row ''t'' ''b'' bucket_store = Inr (u, st')" by (auto split: sum.splits)
  have "distinct (map bk_name (buckets bucket_store))" "\<not> blank ''b''" "bucket_exists ''b'' bucket_store" by code_simp+
  thus ?thesis using d delete_bucket_is_final[OF d] by auto
qed

text \<open>
  A bucket in which an object was ever overwritten cannot be deleted: the overwritten
  version keeps its \<open>committed\<close> manifest row after the key itself is deleted.
\<close>

lemma overwritten_bucket_never_empty:
  "(case delete_active_key 9 ''t3'' ''b'' ''k'' ''gone'' None None None
          (committed_run ''t2'' ''o2'' (committed_run ''t1'' ''o1'' bucket_store)) of
      Inr (_, st') \<Rightarrow> active_objects st' = [] \<and> fst (delete_bucket 10 ''t4'' 10 ''b'' st') = Inl (Metadata (BucketNotEmpty ''b''))
    | Inl _ \<Rightarrow> False)"
  by code_simp

text \<open>A prefix with a wildcard, or in another case, lists keys that do not start with it.\<close>

lemma prefix_is_a_pattern:
  "list_bucket_manifests ''b'' (Some ''K'') (committed_run ''t1'' ''o1'' bucket_store) = Inr [(empty_object ''o1'')\<lparr> commit_state := Committed \<rparr>]"
  "list_bucket_manifests ''b'' (Some ''_'') (committed_run ''t1'' ''o1'' bucket_store) = Inr [(empty_object ''o1'')\<lparr> commit_state := Committed \<rparr>]"
  by code_simp+

end
