(* ===== verification/S3_Listing.thy ===== *)
theory S3_Listing
  imports Buckets
begin

text \<open>
  \<open>ListObjects\<close> and \<open>ListObjectsV2\<close> (\<open>s3_server.rs\<close>): one page of the listing of a
  bucket with common prefixes, and the walk of a client over the pages.
\<close>

record s3_object =
  so_key :: string
  so_last_modified :: instant
  so_size :: int
  so_e_tag :: string

record ListedBucketPage =
  lp_objects :: "s3_object list"
  lp_common_prefixes :: "string list"
  lp_is_truncated :: bool
  lp_next_marker :: "string option"
  lp_key_count :: nat

definition object_entry :: "ObjectManifest \<Rightarrow> s3_object" where
  "object_entry m =
     \<lparr> so_key = m_key m, so_last_modified = created_at m, so_size = u64_as_i64 (content_length m),
       so_e_tag = whole_object (m_checksum m) \<rparr>"

text \<open>\<open>str::find\<close>: the text up to and including the first occurrence of a pattern.\<close>

fun upto_pattern :: "string \<Rightarrow> string \<Rightarrow> string option" where
  "upto_pattern pat [] = (if pat = [] then Some [] else None)"
| "upto_pattern pat (c # cs) =
     (if take (length pat) (c # cs) = pat then Some pat else map_option ((#) c) (upto_pattern pat cs))"

definition strip_prefix :: "string \<Rightarrow> string \<Rightarrow> string option" where
  "strip_prefix p s = (if take (length p) s = p then Some (drop (length p) s) else None)"

definition common_prefix :: "string \<Rightarrow> string option \<Rightarrow> string \<Rightarrow> string option" where
  "common_prefix prefix delimiter key =
     (case delimiter of
        None \<Rightarrow> None
      | Some d \<Rightarrow>
          let relative = (case strip_prefix prefix key of None \<Rightarrow> key | Some r \<Rightarrow> r)
          in map_option ((@) prefix) (upto_pattern d relative))"

text \<open>The loop that merges objects and prefixes: results, last key, and what is left.\<close>

fun page_loop ::
  "nat \<Rightarrow> s3_object list \<Rightarrow> string list \<Rightarrow> string option \<Rightarrow>
   s3_object list \<times> string list \<times> string option \<times> s3_object list \<times> string list" where
  "page_loop 0 objs prefs last_key = ([], [], last_key, objs, prefs)"
| "page_loop (Suc n) [] [] last_key = ([], [], last_key, [], [])"
| "page_loop (Suc n) (ob # objs) [] last_key =
     (case page_loop n objs [] (Some (so_key ob)) of (ro, rp, k, os, ps) \<Rightarrow> (ob # ro, rp, k, os, ps))"
| "page_loop (Suc n) [] (p # prefs) last_key =
     (case page_loop n [] prefs (Some p) of (ro, rp, k, os, ps) \<Rightarrow> (ro, p # rp, k, os, ps))"
| "page_loop (Suc n) (ob # objs) (p # prefs) last_key =
     (if so_key ob < p
      then (case page_loop n objs (p # prefs) (Some (so_key ob)) of (ro, rp, k, os, ps) \<Rightarrow> (ob # ro, rp, k, os, ps))
      else (case page_loop n (ob # objs) prefs (Some p) of (ro, rp, k, os, ps) \<Rightarrow> (ro, p # rp, k, os, ps)))"

definition next_marker_of :: "string option \<Rightarrow> s3_object list \<Rightarrow> string list \<Rightarrow> string option" where
  "next_marker_of last_key objs prefs =
     (case last_key of
        Some k \<Rightarrow> Some k
      | None \<Rightarrow> (case (objs, prefs) of
          (ob # _, p # _) \<Rightarrow> Some (if so_key ob < p then so_key ob else p)
        | (ob # _, []) \<Rightarrow> Some (so_key ob)
        | ([], p # _) \<Rightarrow> Some p
        | ([], []) \<Rightarrow> None))"

definition listed_objects :: "string \<Rightarrow> string option \<Rightarrow> ObjectManifest list \<Rightarrow> s3_object list" where
  "listed_objects prefix delimiter ms =
     map object_entry (filter (\<lambda>m. common_prefix prefix delimiter (m_key m) = None) ms)"

definition listed_prefixes :: "string \<Rightarrow> string option \<Rightarrow> ObjectManifest list \<Rightarrow> string list" where
  "listed_prefixes prefix delimiter ms =
     sort (remdups (List.map_filter (\<lambda>m. common_prefix prefix delimiter (m_key m)) ms))"

definition nonempty :: "string option \<Rightarrow> string option" where
  "nonempty s = (if s = Some [] then None else s)"

definition page_of ::
  "string \<Rightarrow> string option \<Rightarrow> string option \<Rightarrow> nat \<Rightarrow> ObjectManifest list \<Rightarrow> ListedBucketPage" where
  "page_of prefix delimiter resume_after max_keys manifests =
     (let ms = sort_key (\<lambda>m. (m_key m, m_object_id m)) manifests;
          delimiter = nonempty delimiter;
          after = (\<lambda>k. case nonempty resume_after of None \<Rightarrow> True | Some marker \<Rightarrow> marker < k);
          objs = filter (\<lambda>ob. after (so_key ob)) (listed_objects prefix delimiter ms);
          prefs = filter after (listed_prefixes prefix delimiter ms);
          (ro, rp, last_key, os, ps) = page_loop max_keys objs prefs None;
          truncated = (0 < max_keys \<and> (os \<noteq> [] \<or> ps \<noteq> []))
      in \<lparr> lp_objects = ro, lp_common_prefixes = rp, lp_is_truncated = truncated,
           lp_next_marker = (if truncated then next_marker_of last_key os ps else None),
           lp_key_count = length ro + length rp \<rparr>)"

definition list_bucket_page ::
  "instant \<Rightarrow> string \<Rightarrow> string \<Rightarrow> string option \<Rightarrow> string option \<Rightarrow> nat \<Rightarrow> store \<Rightarrow>
   ObjectFormatError + ListedBucketPage" where
  "list_bucket_page utc bucket prefix delimiter resume_after max_keys st =
     map_sum id (page_of prefix delimiter resume_after max_keys)
       (visible_bucket_manifests utc bucket (Some prefix) st)"

text \<open>
  The handlers clamp \<open>max-keys\<close> and choose the resume point; \<open>max_keys\<close> is a signed
  32-bit field of the request.
\<close>

definition clamp_max_keys :: "int option \<Rightarrow> nat" where
  "clamp_max_keys m = nat (max 0 (min 1000 (case m of None \<Rightarrow> 1000 | Some n \<Rightarrow> n)))"

datatype list_error = ListNoSuchBucket | ListFailed ObjectFormatError

definition list_objects ::
  "instant \<Rightarrow> string \<Rightarrow> string option \<Rightarrow> string option \<Rightarrow> string option \<Rightarrow> int option \<Rightarrow> store \<Rightarrow>
   list_error + ListedBucketPage" where
  "list_objects utc bucket prefix delimiter marker max_keys st =
     (if \<not> bucket_exists bucket st then Inl ListNoSuchBucket
      else map_err ListFailed (list_bucket_page utc bucket (case prefix of None \<Rightarrow> [] | Some p \<Rightarrow> p) delimiter
             marker (clamp_max_keys max_keys) st))"

definition resume_point :: "string option \<Rightarrow> string option \<Rightarrow> string option" where
  "resume_point token start_after =
     (case (token, start_after) of
        (Some t, Some s) \<Rightarrow> Some (max t s)
      | (Some t, None) \<Rightarrow> Some t
      | (None, Some s) \<Rightarrow> Some s
      | (None, None) \<Rightarrow> None)"

definition list_objects_v2 ::
  "instant \<Rightarrow> string \<Rightarrow> string option \<Rightarrow> string option \<Rightarrow> string option \<Rightarrow> string option \<Rightarrow> int option \<Rightarrow> store \<Rightarrow>
   list_error + ListedBucketPage" where
  "list_objects_v2 utc bucket prefix delimiter token start_after max_keys st =
     (if \<not> bucket_exists bucket st then Inl ListNoSuchBucket
      else map_err ListFailed (list_bucket_page utc bucket (case prefix of None \<Rightarrow> [] | Some p \<Rightarrow> p) delimiter
             (resume_point token start_after) (clamp_max_keys max_keys) st))"

section \<open>The merge loop\<close>

text \<open>Entries of a listing in key order: an object or a common prefix.\<close>

type_synonym list_entry = "s3_object + string"

definition entry_key :: "list_entry \<Rightarrow> string" where
  "entry_key = case_sum so_key id"

fun merge_entries :: "s3_object list \<Rightarrow> string list \<Rightarrow> list_entry list" where
  "merge_entries [] [] = []"
| "merge_entries (ob # objs) [] = Inl ob # merge_entries objs []"
| "merge_entries [] (p # prefs) = Inr p # merge_entries [] prefs"
| "merge_entries (ob # objs) (p # prefs) =
     (if so_key ob < p then Inl ob # merge_entries objs (p # prefs)
      else Inr p # merge_entries (ob # objs) prefs)"

definition objects_of :: "list_entry list \<Rightarrow> s3_object list" where
  "objects_of es = List.map_filter (case_sum Some (\<lambda>_. None)) es"

definition prefixes_of :: "list_entry list \<Rightarrow> string list" where
  "prefixes_of es = List.map_filter (case_sum (\<lambda>_. None) Some) es"

lemma entry_simps [simp]:
  "entry_key (Inl ob) = so_key ob" "entry_key (Inr p) = p"
  "objects_of [] = []" "objects_of (Inl ob # es) = ob # objects_of es" "objects_of (Inr p # es) = objects_of es"
  "prefixes_of [] = []" "prefixes_of (Inl ob # es) = prefixes_of es" "prefixes_of (Inr p # es) = p # prefixes_of es"
  by (simp_all add: entry_key_def objects_of_def prefixes_of_def List.map_filter_simps)

lemma objects_of_append [simp]:
  "objects_of (xs @ ys) = objects_of xs @ objects_of ys" "prefixes_of (xs @ ys) = prefixes_of xs @ prefixes_of ys"
  by (induction xs) (auto simp: objects_of_def prefixes_of_def List.map_filter_simps split: sum.splits)

lemma merge_entries_split [simp]:
  "objects_of (merge_entries objs prefs) = objs" "prefixes_of (merge_entries objs prefs) = prefs"
  by (induction objs prefs rule: merge_entries.induct) auto

lemma set_merge_entries: "set (merge_entries objs prefs) = Inl ` set objs \<union> Inr ` set prefs"
  by (induction objs prefs rule: merge_entries.induct) auto

lemma merge_entries_sorted:
  assumes "sorted_wrt (<) (map so_key objs)" "sorted_wrt (<) prefs" "so_key ` set objs \<inter> set prefs = {}"
  shows "sorted_wrt (<) (map entry_key (merge_entries objs prefs))"
  using assms
proof (induction objs prefs rule: merge_entries.induct)
  case (4 ob objs p prefs)
  show ?case
  proof (cases "so_key ob < p")
    case True
    have "\<forall>e \<in> set (merge_entries objs (p # prefs)). so_key ob < entry_key e"
      using True "4.prems" by (auto simp: set_merge_entries dest: less_trans)
    thus ?thesis using "4.IH"(1)[OF True] "4.prems" True by auto
  next
    case False
    hence lt: "p < so_key ob" using "4.prems"(3) by force
    have "\<forall>e \<in> set (merge_entries (ob # objs) prefs). p < entry_key e"
      using lt "4.prems" by (auto simp: set_merge_entries dest: less_trans)
    thus ?thesis using "4.IH"(2)[OF False] "4.prems" False by auto
  qed
qed (auto simp: set_merge_entries)

lemma page_loop_merge:
  "page_loop n objs prefs last_key =
     (let es = merge_entries objs prefs; page = take n es; rest = drop n es in
      (objects_of page, prefixes_of page, if page = [] then last_key else Some (entry_key (last page)),
       objects_of rest, prefixes_of rest))"
proof (induction n objs prefs last_key rule: page_loop.induct)
  case (5 n ob objs p prefs last_key)
  show ?case
    by (cases "so_key ob < p") (use "5.IH" in \<open>auto simp: Let_def split: prod.splits\<close>)
qed (auto simp: Let_def split: prod.splits)

section \<open>Walking over the pages\<close>

lemma strict_sorted_unique:
  fixes f :: "'a \<Rightarrow> 'b :: linorder"
  assumes "sorted_wrt (<) (map f xs)" "sorted_wrt (<) (map f ys)" "set xs = set ys"
  shows "xs = ys"
proof -
  have s: "sorted (map f xs)" "distinct (map f xs)" "sorted (map f ys)" "distinct (map f ys)"
    using assms(1,2) by (simp_all add: strict_sorted_iff)
  moreover have "inj_on f (set xs \<union> set ys)" using s(2) assms(3) by (simp add: distinct_map)
  ultimately show ?thesis using assms(3) by (intro map_sorted_distinct_set_unique)
qed

lemma sorted_wrt_map_filter: "sorted_wrt R (map f xs) \<Longrightarrow> sorted_wrt R (map f (filter P xs))"
  by (induction xs) auto

lemma merge_entries_filter:
  assumes "sorted_wrt (<) (map so_key objs)" "sorted_wrt (<) prefs" "so_key ` set objs \<inter> set prefs = {}"
  shows "merge_entries (filter (\<lambda>ob. P (so_key ob)) objs) (filter P prefs) =
    filter (\<lambda>e. P (entry_key e)) (merge_entries objs prefs)"
proof (rule strict_sorted_unique[where f = entry_key])
  show "sorted_wrt (<) (map entry_key (merge_entries (filter (\<lambda>ob. P (so_key ob)) objs) (filter P prefs)))"
    using assms sorted_wrt_map_filter[OF assms(1)] sorted_wrt_filter[OF assms(2)]
    by (intro merge_entries_sorted) auto
  show "sorted_wrt (<) (map entry_key (filter (\<lambda>e. P (entry_key e)) (merge_entries objs prefs)))"
    using merge_entries_sorted[OF assms] by (rule sorted_wrt_map_filter)
  show "set (merge_entries (filter (\<lambda>ob. P (so_key ob)) objs) (filter P prefs)) =
      set (filter (\<lambda>e. P (entry_key e)) (merge_entries objs prefs))"
    by (auto simp: set_merge_entries)
qed

lemma resume_after_page:
  assumes sorted: "sorted_wrt (<) (map f (xs :: 'a list))" and rest: "rest = filter (\<lambda>e. m < f e) xs \<or> rest = xs"
    and page: "take n rest \<noteq> []"
  shows "filter (\<lambda>e. f (last (take n rest)) < (f e :: 'b :: linorder)) xs = drop n rest"
proof (rule strict_sorted_unique[where f = f])
  let ?k = "f (last (take n rest))"
  have srt: "sorted_wrt (<) (map f rest)" using rest sorted sorted_wrt_map_filter[OF sorted] by auto
  show "sorted_wrt (<) (map f (filter (\<lambda>e. ?k < f e) xs))" by (rule sorted_wrt_map_filter[OF sorted])
  have split: "sorted_wrt (<) (map f (take n rest) @ map f (drop n rest))"
    using srt by (metis append_take_drop_id map_append)
  thus "sorted_wrt (<) (map f (drop n rest))" by (simp add: sorted_wrt_append)
  have mem: "last (take n rest) \<in> set (take n rest)" using page by simp
  have after: "?k < f e" if "e \<in> set (drop n rest)" for e
    using split mem that by (auto simp: sorted_wrt_append)
  have upto: "f e \<le> ?k" if "e \<in> set (take n rest)" for e
  proof -
    obtain ys where ys: "take n rest = ys @ [last (take n rest)]" using page by (metis append_butlast_last_id)
    have "sorted_wrt (<) (map f (ys @ [last (take n rest)]))"
      using split ys by (metis sorted_wrt_append map_append)
    moreover have "e \<in> set ys \<or> e = last (take n rest)" using that ys by (metis in_set_conv_decomp Un_iff set_append set_ConsD set_empty empty_iff list.set(1) insertE list.simps(15))
    ultimately show ?thesis by (auto simp: sorted_wrt_append)
  qed
  have inrest: "e \<in> set rest" if "e \<in> set xs" "?k < f e" for e
  proof -
    have "last (take n rest) \<in> set rest" using mem by (meson in_set_takeD)
    hence "rest = xs \<or> m < ?k" using rest by auto
    thus ?thesis using rest that by auto
  qed
  have cover: "set rest = set (take n rest) \<union> set (drop n rest)" by (metis append_take_drop_id set_append)
  show "set (filter (\<lambda>e. ?k < f e) xs) = set (drop n rest)"
  proof (intro set_eqI iffI)
    fix e assume "e \<in> set (filter (\<lambda>e. ?k < f e) xs)"
    thus "e \<in> set (drop n rest)" using inrest[of e] upto[of e] cover by auto
  next
    fix e assume e: "e \<in> set (drop n rest)"
    hence "e \<in> set xs" using rest by (auto dest: in_set_dropD)
    thus "e \<in> set (filter (\<lambda>e. ?k < f e) xs)" using after[OF e] by simp
  qed
qed

text \<open>A client that asks for page after page, with fuel for the number of requests.\<close>

fun walk_pages ::
  "(string option \<Rightarrow> ListedBucketPage) \<Rightarrow> nat \<Rightarrow> string option \<Rightarrow> (s3_object list \<times> string list) option" where
  "walk_pages page 0 resume = None"
| "walk_pages page (Suc fuel) resume =
     (let p = page resume in
      if lp_is_truncated p
      then map_option (\<lambda>(os, ps). (lp_objects p @ os, lp_common_prefixes p @ ps))
             (walk_pages page fuel (lp_next_marker p))
      else Some (lp_objects p, lp_common_prefixes p))"

lemma upto_pattern_idem: "d \<noteq> [] \<Longrightarrow> upto_pattern d s = Some r \<Longrightarrow> upto_pattern d r = Some r \<and> r \<noteq> []"
proof (induction d s arbitrary: r rule: upto_pattern.induct)
  case (2 d c cs)
  show ?case
  proof (cases "take (length d) (c # cs) = d")
    case True
    then obtain e es where "d = e # es" using "2.prems"(1) by (cases d) auto
    thus ?thesis using True "2.prems" by auto
  next
    case False
    then obtain r' where r': "upto_pattern d cs = Some r'" "r = c # r'" using "2.prems" by auto
    have len: "take (length r') cs = r'" if "upto_pattern d cs = Some r'" for cs r'
      using that by (induction d cs arbitrary: r' rule: upto_pattern.induct) (auto split: if_splits)
    have pre: "take (length r') cs = r'" by (rule len[OF r'(1)])
    have "take (length d) (c # r') \<noteq> d"
    proof
      assume eq: "take (length d) (c # r') = d"
      hence "length d \<le> Suc (length r')" by (metis length_take min_def length_Cons nat_le_linear)
      hence "take (length d) (c # cs) = take (length d) (c # take (length r') cs)"
        by (cases "length d") (auto simp: min_def)
      thus False using False eq pre by simp
    qed
    thus ?thesis using "2.IH"[OF False "2.prems"(1) r'(1)] r'(2) by simp
  qed
qed (auto split: if_splits)

lemma prefix_is_no_object:
  assumes "common_prefix prefix (nonempty d) key = Some p"
  shows "common_prefix prefix (nonempty d) p = Some p" "p \<noteq> []"
proof -
  obtain d' where d': "nonempty d = Some d'" "d' \<noteq> []"
    using assms by (cases "nonempty d") (auto simp: common_prefix_def nonempty_def split: if_splits)
  obtain r where r: "upto_pattern d' (case strip_prefix prefix key of None \<Rightarrow> key | Some r \<Rightarrow> r) = Some r" "p = prefix @ r"
    using assms by (auto simp: common_prefix_def d'(1) Let_def)
  note r' = upto_pattern_idem[OF d'(2) r(1)]
  show "common_prefix prefix (nonempty d) p = Some p" "p \<noteq> []"
    using r' r(2) by (auto simp: common_prefix_def d'(1) strip_prefix_def)
qed

definition listing :: "string \<Rightarrow> string option \<Rightarrow> ObjectManifest list \<Rightarrow> list_entry list" where
  "listing prefix delimiter ms =
     (let ms' = sort_key (\<lambda>m. (m_key m, m_object_id m)) ms; d = nonempty delimiter
      in merge_entries (listed_objects prefix d ms') (listed_prefixes prefix d ms'))"

lemma map_filter_set: "x \<in> set (List.map_filter f xs) \<longleftrightarrow> (\<exists>y \<in> set xs. f y = Some x)"
  by (induction xs) (auto simp: List.map_filter_simps split: option.splits)

lemma listing_parts:
  fixes delimiter prefix
  assumes keys: "distinct (map m_key ms)"
  defines "ms' \<equiv> sort_key (\<lambda>m. (m_key m, m_object_id m)) ms" and "d \<equiv> nonempty delimiter"
  shows "sorted_wrt (<) (map so_key (listed_objects prefix d ms'))" "sorted_wrt (<) (listed_prefixes prefix d ms')"
    "so_key ` set (listed_objects prefix d ms') \<inter> set (listed_prefixes prefix d ms') = {}"
proof -
  have "sorted (map (\<lambda>m. (m_key m, m_object_id m)) ms')" by (simp add: ms'_def)
  hence "sorted_wrt (\<lambda>a b. m_key a \<le> m_key b) ms'"
    by (simp add: sorted_map sorted_wrt_mono_rel[rotated]) (auto intro: sorted_wrt_mono_rel[rotated] simp: less_eq_prod_def)
  hence "sorted (map m_key ms')" by (simp add: sorted_map)
  moreover have "distinct (map m_key ms')" using keys by (simp add: ms'_def distinct_map)
  ultimately have "sorted_wrt (<) (map m_key ms')" by (simp add: strict_sorted_iff)
  from sorted_wrt_map_filter[OF this]
  show "sorted_wrt (<) (map so_key (listed_objects prefix d ms'))"
    by (simp add: listed_objects_def object_entry_def comp_def)
  show "sorted_wrt (<) (listed_prefixes prefix d ms')"
    by (simp add: listed_prefixes_def strict_sorted_iff)
  show "so_key ` set (listed_objects prefix d ms') \<inter> set (listed_prefixes prefix d ms') = {}"
    using prefix_is_no_object(1)[of prefix delimiter]
    by (fastforce simp: listed_objects_def listed_prefixes_def object_entry_def map_filter_set d_def)
qed

lemma listing_sorted:
  "distinct (map m_key ms) \<Longrightarrow> sorted_wrt (<) (map entry_key (listing prefix delimiter ms))"
  unfolding listing_def Let_def by (intro merge_entries_sorted listing_parts)

definition remaining :: "string option \<Rightarrow> list_entry list \<Rightarrow> list_entry list" where
  "remaining resume es = (case nonempty resume of None \<Rightarrow> es | Some marker \<Rightarrow> filter (\<lambda>e. marker < entry_key e) es)"

lemma page_of_take:
  fixes delimiter prefix resume
  assumes keys: "distinct (map m_key ms)" and n: "0 < n"
  defines "rest \<equiv> remaining resume (listing prefix delimiter ms)"
  shows "lp_objects (page_of prefix delimiter resume n ms) = objects_of (take n rest)"
    "lp_common_prefixes (page_of prefix delimiter resume n ms) = prefixes_of (take n rest)"
    "lp_is_truncated (page_of prefix delimiter resume n ms) \<longleftrightarrow> drop n rest \<noteq> []"
    "drop n rest \<noteq> [] \<Longrightarrow> lp_next_marker (page_of prefix delimiter resume n ms) = Some (entry_key (last (take n rest)))"
proof -
  let ?ms = "sort_key (\<lambda>m. (m_key m, m_object_id m)) ms" and ?d = "nonempty delimiter"
  let ?after = "\<lambda>k. case nonempty resume of None \<Rightarrow> True | Some marker \<Rightarrow> marker < k"
  let ?objs = "filter (\<lambda>ob. ?after (so_key ob)) (listed_objects prefix ?d ?ms)"
  let ?prefs = "filter ?after (listed_prefixes prefix ?d ?ms)"
  have es: "merge_entries ?objs ?prefs = rest"
    using merge_entries_filter[OF listing_parts[OF keys, where prefix = prefix and delimiter = delimiter], of ?after]
    by (cases "nonempty resume") (simp_all add: rest_def remaining_def listing_def Let_def)
  have both: "objects_of xs = [] \<and> prefixes_of xs = [] \<longleftrightarrow> xs = []" for xs
    by (cases xs) (auto simp: objects_of_def prefixes_of_def List.map_filter_simps split: sum.splits)
  have page: "page_of prefix delimiter resume n ms =
     \<lparr> lp_objects = objects_of (take n rest), lp_common_prefixes = prefixes_of (take n rest),
       lp_is_truncated = (drop n rest \<noteq> []),
       lp_next_marker = (if drop n rest \<noteq> []
         then next_marker_of (if take n rest = [] then None else Some (entry_key (last (take n rest))))
                (objects_of (drop n rest)) (prefixes_of (drop n rest)) else None),
       lp_key_count = length (objects_of (take n rest)) + length (prefixes_of (take n rest)) \<rparr>"
    using n both[of "drop n rest"]
    by (simp add: page_of_def page_loop_merge es Let_def del: drop_eq_Nil)
  show "lp_objects (page_of prefix delimiter resume n ms) = objects_of (take n rest)"
    "lp_common_prefixes (page_of prefix delimiter resume n ms) = prefixes_of (take n rest)"
    "lp_is_truncated (page_of prefix delimiter resume n ms) \<longleftrightarrow> drop n rest \<noteq> []"
    unfolding page by simp_all
  assume "drop n rest \<noteq> []"
  thus "lp_next_marker (page_of prefix delimiter resume n ms) = Some (entry_key (last (take n rest)))"
    using n unfolding page by (cases rest) (auto simp: next_marker_of_def)
qed

lemma walk_remaining:
  assumes keys: "distinct (map m_key ms)" and n: "0 < n"
    and nonblank: "\<forall>e \<in> set (listing prefix delimiter ms). entry_key e \<noteq> []"
  shows "length (remaining resume (listing prefix delimiter ms)) < fuel \<Longrightarrow>
    walk_pages (\<lambda>r. page_of prefix delimiter r n ms) fuel resume =
      Some (objects_of (remaining resume (listing prefix delimiter ms)),
            prefixes_of (remaining resume (listing prefix delimiter ms)))"
proof (induction fuel arbitrary: resume)
  case (Suc fuel)
  let ?es = "listing prefix delimiter ms"
  let ?rest = "remaining resume ?es"
  note page = page_of_take[OF keys n, where prefix = prefix and delimiter = delimiter and resume = resume]
  show ?case
  proof (cases "drop n ?rest = []")
    case True
    hence "take n ?rest = ?rest" by simp
    thus ?thesis using True page by (simp add: Let_def)
  next
    case False
    hence ne: "take n ?rest \<noteq> []" using n by (cases ?rest) auto
    let ?k = "entry_key (last (take n ?rest))"
    have "last (take n ?rest) \<in> set ?es"
      using last_in_set[OF ne] by (auto simp: remaining_def split: option.splits dest: in_set_takeD)
    hence "nonempty (Some ?k) = Some ?k" using nonblank by (auto simp: nonempty_def)
    hence rest': "remaining (Some ?k) ?es = drop n ?rest"
      using resume_after_page[OF listing_sorted[OF keys] _ ne]
      by (auto simp: remaining_def split: option.splits)
    have "length (drop n ?rest) < fuel" using Suc.prems n False by auto
    hence IH: "walk_pages (\<lambda>r. page_of prefix delimiter r n ms) fuel (Some ?k) =
        Some (objects_of (drop n ?rest), prefixes_of (drop n ?rest))"
      using Suc.IH[of "Some ?k"] rest' by simp
    have split: "objects_of ?rest = objects_of (take n ?rest) @ objects_of (drop n ?rest)"
        "prefixes_of ?rest = prefixes_of (take n ?rest) @ prefixes_of (drop n ?rest)"
      by (metis append_take_drop_id objects_of_append(1), metis append_take_drop_id objects_of_append(2))
    show ?thesis using False page IH by (simp add: Let_def split)
  qed
qed simp

lemma validate_all_Inr: "validate_all ms = Inr ms' \<Longrightarrow> ms' = ms \<and> (\<forall>m \<in> set ms. validate m = Inr ())"
  by (induction ms arbitrary: ms') (auto simp: result_simps)

lemma listed_row_key:
  assumes wf: "index_wf st" and a: "a \<in> set (active_objects st)" and r: "manifest_row_of st (ao_object_id a) = Some r"
  shows "m_key (om_manifest r) = ao_key a"
proof -
  obtain r' where r': "r' \<in> set (object_manifests st)" "om_object_id r' = ao_object_id a" "om_key r' = ao_key a"
    using index_wf_active_row[OF wf a] by (auto simp: active_ok_def)
  have "r' = r" using row_unique[OF wf r'(1) manifest_row_of_mem(1)[OF r]] r'(2) manifest_row_of_mem(2)[OF r] by simp
  moreover have "row_matches r" using wf manifest_row_of_mem(1)[OF r] by (simp add: index_wf_def list_all_iff)
  ultimately show ?thesis using r'(3) by (simp add: row_matches_def)
qed

lemma distinct_keys_map_filter:
  assumes "distinct (map f xs)" "\<And>x y. x \<in> set xs \<Longrightarrow> h x = Some y \<Longrightarrow> g y = f x"
  shows "distinct (map g (List.map_filter h xs))"
  using assms
proof (induction xs)
  case (Cons x xs)
  have IH: "distinct (map g (List.map_filter h xs))" using Cons by simp
  show ?case
  proof (cases "h x")
    case (Some y)
    have "g y \<notin> g ` set (List.map_filter h xs)"
    proof
      assume "g y \<in> g ` set (List.map_filter h xs)"
      then obtain x' y' where "x' \<in> set xs" "h x' = Some y'" "g y' = g y" by (auto simp: map_filter_set)
      thus False using Cons.prems(1) Cons.prems(2)[of x y] Cons.prems(2)[of x' y'] Some by (auto simp: image_iff)
    qed
    thus ?thesis using IH Some by (simp add: List.map_filter_simps)
  qed (use IH in \<open>simp add: List.map_filter_simps\<close>)
qed (simp add: List.map_filter_simps)

lemma list_bucket_rows_keys:
  assumes wf: "index_wf st"
  shows "distinct (map m_key (list_bucket_rows b prefix st))"
  unfolding list_bucket_rows_def
proof (rule distinct_keys_map_filter[where f = ao_key])
  let ?P = "\<lambda>a. ao_bucket a = b \<and> (case prefix of None \<Rightarrow> True | Some p \<Rightarrow> sql_like (p @ ''%'') (ao_key a))"
  let ?as = "select_order ?P (\<lambda>a. (ao_key a, ao_object_id a)) (active_objects st)"
  have "distinct (map active_key (filter ?P (active_objects st)))"
    using wf by (simp add: index_wf_def distinct_map_filter)
  hence "distinct (map active_key ?as)" by (simp add: select_order_def distinct_map)
  thus "distinct (map ao_key ?as)"
    by (auto simp: distinct_map inj_on_def active_key_def select_order_def)
  fix a m assume "a \<in> set ?as" "(case manifest_row_of st (ao_object_id a) of None \<Rightarrow> None
      | Some r \<Rightarrow> if om_connection_id r = active_connection_id st then Some (om_manifest r) else None) = Some m"
  thus "m_key m = ao_key a"
    using listed_row_key[OF wf, of a] by (auto simp: select_order_def split: option.splits if_splits)
qed

lemma length_listing: "length (listing prefix delimiter ms) \<le> length ms"
proof -
  have len: "length (merge_entries objs prefs) = length objs + length prefs" for objs prefs
    by (induction objs prefs rule: merge_entries.induct) auto
  have "length (filter (\<lambda>m. f m = None) xs) + length (List.map_filter f xs) = length xs" for f :: "ObjectManifest \<Rightarrow> string option" and xs
    by (induction xs) (auto simp: List.map_filter_simps split: option.splits)
  hence "length (filter (\<lambda>m. f m = None) xs) + length (remdups (List.map_filter f xs)) \<le> length xs"
    for f :: "ObjectManifest \<Rightarrow> string option" and xs
    by (metis add_le_cancel_left length_remdups_leq)
  from this[of "\<lambda>m. common_prefix prefix (nonempty delimiter) (m_key m)" "sort_key (\<lambda>m. (m_key m, m_object_id m)) ms"]
  show ?thesis by (simp add: listing_def Let_def len listed_objects_def listed_prefixes_def)
qed

text \<open>
  C24: Whatever the page size, a client that follows the markers of an unchanged bucket
  gets the complete listing: every object that is not behind the delimiter exactly once
  and every common prefix exactly once, in key order, after at most one request per
  listed object.
\<close>

theorem listing_pages_complete:
  assumes wf: "index_wf st" and ms: "visible_bucket_manifests utc b (Some prefix) st = Inr ms"
    and n: "0 < n" and fuel: "length ms < fuel"
  shows "walk_pages (\<lambda>r. projr (list_bucket_page utc b prefix delimiter r n st)) fuel None =
    Some (listed_objects prefix (nonempty delimiter) (sort_key (\<lambda>m. (m_key m, m_object_id m)) ms),
          listed_prefixes prefix (nonempty delimiter) (sort_key (\<lambda>m. (m_key m, m_object_id m)) ms))"
proof -
  obtain all where all: "validate_all (list_bucket_rows b (Some prefix) st) = Inr all"
      "ms = filter (\<lambda>m. \<not> is_expired m utc) all"
    using ms by (cases "validate_all (list_bucket_rows b (Some prefix) st)")
      (auto simp: visible_bucket_manifests_def list_bucket_manifests_def)
  note valid = validate_all_Inr[OF all(1)]
  have keys: "distinct (map m_key ms)"
    using list_bucket_rows_keys[OF wf, of b "Some prefix"] valid all(2) by (simp add: distinct_map_filter)
  have "m_key m \<noteq> []" if "m \<in> set ms" for m
  proof -
    have "validate m = Inr ()" using valid all(2) that by auto
    hence "\<not> blank (m_key m)" by (simp add: validate_def split: if_splits)
    thus ?thesis by (auto simp: blank_iff)
  qed
  moreover have "p \<noteq> []" if "p \<in> set (listed_prefixes prefix (nonempty delimiter) xs)" for p xs
    using that prefix_is_no_object(2)[of prefix delimiter] by (auto simp: listed_prefixes_def map_filter_set)
  ultimately have nonblank: "\<forall>e \<in> set (listing prefix delimiter ms). entry_key e \<noteq> []"
    by (auto simp: listing_def Let_def set_merge_entries listed_objects_def object_entry_def)
  have "length (remaining None (listing prefix delimiter ms)) < fuel"
    using length_listing[of prefix delimiter ms] fuel by (simp add: remaining_def nonempty_def)
  from walk_remaining[OF keys n nonblank this]
  have "walk_pages (\<lambda>r. page_of prefix delimiter r n ms) fuel None =
      Some (listed_objects prefix (nonempty delimiter) (sort_key (\<lambda>m. (m_key m, m_object_id m)) ms),
          listed_prefixes prefix (nonempty delimiter) (sort_key (\<lambda>m. (m_key m, m_object_id m)) ms))"
    by (simp add: remaining_def nonempty_def listing_def Let_def)
  thus ?thesis by (simp add: list_bucket_page_def ms)
qed

theorem listing_pages_complete_witness:
  "walk_pages (\<lambda>r. projr (list_bucket_page 5 ''b'' ''k'' (Some ''/'') r 1 (committed_run ''t'' ''o'' bucket_store))) 2 None =
     Some ([object_entry (empty_object ''o'')], [])"
proof -
  let ?st = "committed_run ''t'' ''o'' bucket_store"
  let ?m = "(empty_object ''o'')\<lparr> commit_state := Committed \<rparr>"
  have wf: "index_wf ?st" by code_simp
  have ms: "visible_bucket_manifests 5 ''b'' (Some ''k'') ?st = Inr [?m]" by code_simp
  have "walk_pages (\<lambda>r. projr (list_bucket_page 5 ''b'' ''k'' (Some ''/'') r 1 ?st)) 2 None =
      Some (listed_objects ''k'' (nonempty (Some ''/'')) (sort_key (\<lambda>m. (m_key m, m_object_id m)) [?m]),
            listed_prefixes ''k'' (nonempty (Some ''/'')) (sort_key (\<lambda>m. (m_key m, m_object_id m)) [?m]))"
    by (rule listing_pages_complete[OF wf ms]) simp_all
  also have "\<dots> = Some ([object_entry (empty_object ''o'')], [])" by code_simp
  finally show ?thesis .
qed

end
