(* ===== verification/Chunking.thy ===== *)
theory Chunking
  imports Encoding Index
begin

text \<open>
  Chunks: how a body is cut into chunks, how a chunk is sealed, how a manifest is
  built for them, which spans of which chunks a range read needs, and the read itself
  (\<open>object_format.rs\<close>, \<open>object_format/workflow.rs\<close>).  The cryptographic crates (record
  \<open>crypto\<close>) and the download of a remote message are parameters.
\<close>

section \<open>Planning\<close>

record PlannedChunk =
  pc_order :: nat
  pc_offset :: nat
  pc_size :: nat

record ChunkPlan =
  cp_chunk_size :: nat
  cp_plan_length :: nat
  cp_chunks :: "PlannedChunk list"

text \<open>The loop runs only for a non-zero chunk size; \<open>plan_chunks\<close> refuses zero before it.\<close>

function plan_loop :: "nat \<Rightarrow> nat \<Rightarrow> nat \<Rightarrow> nat \<Rightarrow> PlannedChunk list \<Rightarrow> ObjectFormatError + PlannedChunk list" where
  "plan_loop len csize off order out =
     (if off < len \<and> 0 < csize then
        let sz = min (len - off) csize in
        (case checked_add_u64 off sz of
           None \<Rightarrow> Inl (InvalidPlan ''offset overflow'')
         | Some off' \<Rightarrow>
             if order + 1 < u32_modulus
             then plan_loop len csize off' (order + 1) (out @ [\<lparr> pc_order = order, pc_offset = off, pc_size = sz \<rparr>])
             else Inl (InvalidPlan ''chunk order overflow''))
      else Inr out)"
  by pat_completeness auto
termination
  by (relation "measure (\<lambda>(len, csize, off, order, out). len - off)") (auto simp: checked_add_u64_def split: if_splits)

declare plan_loop.simps [simp del]

definition plan_chunks :: "nat \<Rightarrow> nat \<Rightarrow> ObjectFormatError + ChunkPlan" where
  "plan_chunks len csize =
     (if csize = 0 then Inl (InvalidPlan ''chunk size must be non-zero'')
      else map_sum id (\<lambda>cs. \<lparr> cp_chunk_size = csize, cp_plan_length = len, cp_chunks = cs \<rparr>)
             (plan_loop len csize 0 0 []))"

record ReadSpan =
  rs_order :: nat
  rs_offset_within_chunk :: nat
  rs_length :: nat
  rs_checksum :: string

fun read_spans :: "nat \<Rightarrow> nat \<Rightarrow> ChunkRef list \<Rightarrow> ObjectFormatError + ReadSpan list" where
  "read_spans a b [] = Inr []"
| "read_spans a b (c # cs) =
     (case checked_add_u64 (ck_offset c) (ck_size c) of
        None \<Rightarrow> Inl (InvalidRead ''chunk offset overflow'')
      | Some chunk_end \<Rightarrow>
          bind_res (read_spans a b cs) (\<lambda>spans.
            if chunk_end \<le> a \<or> b \<le> ck_offset c then Inr spans
            else
              let s = max a (ck_offset c); e = min b chunk_end in
              Inr (\<lparr> rs_order = ck_order c, rs_offset_within_chunk = s - ck_offset c, rs_length = e - s,
                     rs_checksum = ck_checksum c \<rparr> # spans)))"

record ReadPlan =
  rp_object_id :: uuid
  rp_start :: nat
  rp_end :: nat
  rp_chunks :: "ReadSpan list"

definition plan_read :: "ObjectManifest \<Rightarrow> nat \<Rightarrow> nat \<Rightarrow> ObjectFormatError + ReadPlan" where
  "plan_read m a b =
     (if b < a then Inl (InvalidRead ''range start is greater than range end'')
      else if content_length m < b
      then Inl (InvalidRead (''range end exceeds content length: '' @ show_nat b @ '' > '' @ show_nat (content_length m)))
      else map_sum id (\<lambda>spans. \<lparr> rp_object_id = m_object_id m, rp_start = a, rp_end = b, rp_chunks = spans \<rparr>)
             (read_spans a b (chunks m)))"

section \<open>Sealing\<close>

text \<open>
  What the sealing uses of the crates it imports: the SHA-256 digest, \<open>hex::encode\<close>,
  \<open>Uuid::as_bytes\<close>, and ChaCha20-Poly1305 as functions of key, nonce, associated data and
  text.
\<close>

type_synonym aead = "byte list \<Rightarrow> byte list \<Rightarrow> byte list \<Rightarrow> byte list \<Rightarrow> byte list option"

record crypto =
  sha256 :: "byte list \<Rightarrow> byte list"
  hex_encode :: "byte list \<Rightarrow> string"
  uuid_bytes :: "uuid \<Rightarrow> byte list"
  aead_seal :: aead
  aead_open :: aead

fun to_le_bytes :: "nat \<Rightarrow> nat \<Rightarrow> byte list" where
  "to_le_bytes 0 n = []"
| "to_le_bytes (Suc w) n = n mod 256 # to_le_bytes w (n div 256)"

record ObjectEncryption =
  oe_key :: "byte list"
  oe_key_id :: string

definition from_master_key :: "crypto \<Rightarrow> string \<Rightarrow> ObjectEncryption" where
  "from_master_key cr master =
     \<lparr> oe_key = sha256 cr (as_bytes master),
       oe_key_id = hex_encode cr (sha256 cr (as_bytes ''telegram-s3-encryption-key'' @ as_bytes master)) \<rparr>"

definition chunk_key :: "crypto \<Rightarrow> ObjectEncryption \<Rightarrow> uuid \<Rightarrow> byte list" where
  "chunk_key cr enc oid = sha256 cr (oe_key enc @ uuid_bytes cr oid)"

definition chunk_nonce :: "crypto \<Rightarrow> uuid \<Rightarrow> nat \<Rightarrow> byte list" where
  "chunk_nonce cr oid order = take 12 (sha256 cr (uuid_bytes cr oid @ to_le_bytes 4 order))"

definition encrypt_chunk ::
  "crypto \<Rightarrow> ObjectEncryption \<Rightarrow> uuid \<Rightarrow> nat \<Rightarrow> byte list \<Rightarrow> ObjectFormatError + byte list" where
  "encrypt_chunk cr enc oid order plaintext =
     ok_or (InvalidChecksum ''encryption failed'')
       (aead_seal cr (chunk_key cr enc oid) (chunk_nonce cr oid order) (uuid_bytes cr oid) plaintext)"

definition decrypt_chunk ::
  "crypto \<Rightarrow> ObjectEncryption \<Rightarrow> uuid \<Rightarrow> nat \<Rightarrow> byte list \<Rightarrow> ObjectFormatError + byte list" where
  "decrypt_chunk cr enc oid order ciphertext =
     ok_or (ChecksumMismatch (''chunk '' @ show_nat order) ''encrypted payload'' ''decryption failed'')
       (aead_open cr (chunk_key cr enc oid) (chunk_nonce cr oid order) (uuid_bytes cr oid) ciphertext)"

definition sha256_hex :: "crypto \<Rightarrow> byte list \<Rightarrow> string" where
  "sha256_hex cr bytes = hex_encode cr (sha256 cr bytes)"

section \<open>Reading\<close>

definition i32_message_id :: "int \<Rightarrow> int option" where
  "i32_message_id i = (if - 2147483648 \<le> i \<and> i \<le> 2147483647 then Some i else None)"

definition open_payload ::
  "crypto \<Rightarrow> ObjectEncryption \<Rightarrow> ObjectManifest \<Rightarrow> ChunkRef \<Rightarrow> byte list \<Rightarrow>
   ObjectFormatError + byte list" where
  "open_payload cr enc m c bytes =
     bind_res (if enc_enabled (encryption m)
               then (case payload_identity c (m_object_id m) of (oid, order) \<Rightarrow> decrypt_chunk cr enc oid order bytes)
               else Inr bytes) (\<lambda>plaintext.
     if sha256_hex cr plaintext \<noteq> ck_checksum c
     then Inl (ChecksumMismatch (''chunk '' @ show_nat (ck_order c)) (ck_checksum c) (sha256_hex cr plaintext))
     else Inr plaintext)"

text \<open>
  \<open>plaintext[start..end]\<close> panics when the range leaves the chunk; \<open>read_manifest_chunk\<close>
  is the download, decryption and checksum of one chunk.
\<close>

datatype read_failure = Failed ObjectFormatError | Panicked

definition read_manifest_chunk ::
  "crypto \<Rightarrow> ObjectEncryption \<Rightarrow> (string \<Rightarrow> int \<Rightarrow> ObjectFormatError + byte list) \<Rightarrow>
   ObjectManifest \<Rightarrow> ChunkRef \<Rightarrow> ObjectFormatError + byte list" where
  "read_manifest_chunk cr enc download m c =
     (case i32_message_id (ck_message_id c) of
        None \<Rightarrow> Inl (InvalidRead (''telegram message id out of range for chunk '' @ show_nat (ck_order c)))
      | Some message_id \<Rightarrow>
          bind_res (download (ck_peer_id c) message_id) (open_payload cr enc m c))"

definition read_span ::
  "crypto \<Rightarrow> ObjectEncryption \<Rightarrow> (string \<Rightarrow> int \<Rightarrow> ObjectFormatError + byte list) \<Rightarrow>
   ObjectManifest \<Rightarrow> ReadSpan \<Rightarrow> read_failure + byte list" where
  "read_span cr enc download m span =
     (if length (chunks m) \<le> rs_order span then Inl (Failed (MissingChunk (m_object_id m) (rs_order span)))
      else
        bind_res (map_err Failed (read_manifest_chunk cr enc download m (chunks m ! rs_order span))) (\<lambda>plaintext.
          if length plaintext < rs_offset_within_chunk span + rs_length span then Inl Panicked
          else Inr (take (rs_length span) (drop (rs_offset_within_chunk span) plaintext))))"

fun write_spans :: "(ReadSpan \<Rightarrow> read_failure + byte list) \<Rightarrow> ReadSpan list \<Rightarrow> read_failure + byte list" where
  "write_spans rd [] = Inr []"
| "write_spans rd (s # ss) = bind_res (rd s) (\<lambda>x. bind_res (write_spans rd ss) (\<lambda>xs. Inr (x @ xs)))"

definition read_manifest_range ::
  "crypto \<Rightarrow> ObjectEncryption \<Rightarrow> (string \<Rightarrow> int \<Rightarrow> ObjectFormatError + byte list) \<Rightarrow>
   ObjectManifest \<Rightarrow> nat \<Rightarrow> nat \<Rightarrow> read_failure + byte list" where
  "read_manifest_range cr enc download m a b =
     bind_res (map_err Failed (plan_read m a b)) (\<lambda>plan.
       write_spans (read_span cr enc download m) (rp_chunks plan))"

definition read_range_to_writer ::
  "crypto \<Rightarrow> ObjectEncryption \<Rightarrow> (string \<Rightarrow> int \<Rightarrow> ObjectFormatError + byte list) \<Rightarrow>
   instant \<Rightarrow> string \<Rightarrow> string \<Rightarrow> nat \<Rightarrow> nat \<Rightarrow> store \<Rightarrow> read_failure + byte list" where
  "read_range_to_writer cr enc download utc name key a b st =
     bind_res (map_err (\<lambda>e. Failed (Metadata e)) (get_active_manifest name key st)) (\<lambda>found.
       case found of
         None \<Rightarrow> Inl (Failed (InvalidRead (''object not found: '' @ name @ ''/'' @ key)))
       | Some m \<Rightarrow>
           if commit_state m \<noteq> Committed
           then Inl (Failed (InvalidRead (''object is not committed: '' @ name @ ''/'' @ key)))
           else if is_expired m utc then Inl (Failed (InvalidRead (''object not found: '' @ name @ ''/'' @ key)))
           else read_manifest_range cr enc download m a b)"

section \<open>Cutting a body into chunks\<close>

text \<open>
  The inner loop of the reception: \<open>pending\<close> is filled from the frame and emitted
  whenever it is full.  With a chunk size of zero it would not end.
\<close>

partial_function (option) fill ::
  "nat \<Rightarrow> byte list \<Rightarrow> byte list \<Rightarrow> byte list list \<Rightarrow> (byte list list \<times> byte list) option" where
  "fill csize pending frame out =
     (if frame = [] then Some (out, pending)
      else
        let k = min (length frame) (csize - length pending);
            pending' = pending @ take k frame;
            frame' = drop k frame
        in if length pending' = csize then fill csize [] frame' (out @ [pending'])
           else fill csize pending' frame' out)"

fun fill_frames :: "nat \<Rightarrow> byte list \<Rightarrow> byte list list \<Rightarrow> byte list list \<Rightarrow> (byte list list \<times> byte list) option" where
  "fill_frames csize pending [] out = Some (out, pending)"
| "fill_frames csize pending (f # fs) out =
     (case fill csize pending f out of
        None \<Rightarrow> None
      | Some (out', pending') \<Rightarrow> fill_frames csize pending' fs out')"

definition cut_body :: "nat \<Rightarrow> byte list list \<Rightarrow> byte list list option" where
  "cut_body csize frames =
     map_option (\<lambda>(out, pending). if pending = [] then out else out @ [pending]) (fill_frames csize [] frames [])"

definition staged_chunk :: "crypto \<Rightarrow> string \<Rightarrow> uuid \<Rightarrow> nat \<Rightarrow> nat \<Rightarrow> byte list \<Rightarrow> ChunkRef" where
  "staged_chunk cr chat oid order off bytes =
     \<lparr> ck_order = order, ck_offset = off, ck_size = length bytes, ck_checksum = sha256_hex cr bytes,
       ck_peer_id = chat, ck_message_id = 0, ck_document_id = Some (''local:'' @ oid @ '':'' @ show_nat order),
       source_object_id = None, source_chunk_order = None, replicas = [] \<rparr>"

definition CHECKSUM_ALGORITHM :: string where "CHECKSUM_ALGORITHM = ''sha256''"
definition ENCRYPTION_FORMAT :: string where "ENCRYPTION_FORMAT = ''chacha20poly1305-v1''"

record ManifestBuildArgs =
  ba_object_id :: uuid
  ba_bucket :: string
  ba_key :: string
  ba_content_type :: string
  ba_expires_at :: "instant option"
  ba_commit_state :: CommitState
  ba_chunks :: "ChunkRef list"
  ba_whole_checksum :: string

text \<open>\<open>chat\<close> is the \<open>storage_chat_id\<close> field of the service; empty means not configured.\<close>

definition storage_chat_id :: "string \<Rightarrow> ObjectFormatError + string" where
  "storage_chat_id chat =
     (if chat = [] then Inl (InvalidPlan ''telegram bootstrap settings are not configured'') else Inr chat)"

definition new_manifest :: "ObjectEncryption \<Rightarrow> instant \<Rightarrow> string \<Rightarrow> ManifestBuildArgs \<Rightarrow> ObjectManifest" where
  "new_manifest enc utc chat args =
     \<lparr> schema_version = MANIFEST_SCHEMA_VERSION, commit_state = ba_commit_state args,
       m_object_id = ba_object_id args, m_bucket = ba_bucket args, m_key = ba_key args,
       version_id = Some (ba_object_id args), content_length = total_size (ba_chunks args),
       content_type = ba_content_type args, user_metadata = [], tags = [], created_at = utc,
       expires_at = ba_expires_at args,
       m_checksum = \<lparr> cs_algorithm = CHECKSUM_ALGORITHM, whole_object = ba_whole_checksum args \<rparr>,
       encryption = \<lparr> enc_enabled = True, enc_format = ENCRYPTION_FORMAT, enc_key_id = Some (oe_key_id enc) \<rparr>,
       telegram = \<lparr> loc_peer_id = (case storage_chat_id chat of Inl _ \<Rightarrow> [] | Inr c \<Rightarrow> c), loc_message_id = 0,
                    loc_document_id = Some (''local:'' @ ba_object_id args @ '':manifest'') \<rparr>,
       chunks = ba_chunks args \<rparr>"

section \<open>Reading a range\<close>

lemma drop_take_append:
  "drop a (take b (xs @ ys)) =
   drop a (take b xs) @ drop (a - length xs) (take (b - length xs) ys)"
  by (cases "length xs \<le> b") (simp_all add: min_def)

definition span_piece :: "(nat \<Rightarrow> byte list) \<Rightarrow> ReadSpan \<Rightarrow> byte list" where
  "span_piece pt s = take (rs_length s) (drop (rs_offset_within_chunk s) (pt (rs_order s)))"

lemma overlap_piece:
  assumes "length xs = n"
  shows "drop (a - off) (take (b - off) xs) =
    (if off + n \<le> a \<or> b \<le> off then []
     else take (min b (off + n) - max a off) (drop (max a off - off) xs))"
proof -
  consider "b \<le> off" | "off + n \<le> a" | "off < b" "a < off + n" by linarith
  thus ?thesis
  proof cases
    case 3
    have "min (b - off) n - (a - off) = min b (off + n) - max a off" "max a off - off = a - off"
      using 3 by auto
    moreover have "take (b - off) xs = take (min (b - off) n) xs"
      using assms by (metis min.commute take_all_iff take_take nle_le order_refl)
    ultimately show ?thesis using 3 by (simp add: drop_take)
  qed (use assms in auto)
qed

text \<open>
  The spans of a range, concatenated, are exactly the bytes of the range: \<open>pt\<close> gives
  the plaintext of the chunk of an order.
\<close>

lemma read_spans_slices:
  assumes "contiguous_from off cs" "off + total_size cs \<le> u64_max"
    "\<And>c. c \<in> set cs \<Longrightarrow> length (pt (ck_order c)) = ck_size c"
  shows "\<exists>spans. read_spans a b cs = Inr spans \<and>
    concat (map (span_piece pt) spans) = drop (a - off) (take (b - off) (concat (map (\<lambda>c. pt (ck_order c)) cs))) \<and>
    (\<forall>s \<in> set spans. \<exists>c \<in> set cs. rs_order s = ck_order c \<and>
       rs_offset_within_chunk s + rs_length s \<le> ck_size c)"
  using assms
proof (induction cs arbitrary: off)
  case (Cons c cs)
  have len: "length (pt (ck_order c)) = ck_size c" and off: "ck_offset c = off"
    using Cons.prems by auto
  obtain spans where spans: "read_spans a b cs = Inr spans"
    "concat (map (span_piece pt) spans) =
       drop (a - (off + ck_size c)) (take (b - (off + ck_size c)) (concat (map (\<lambda>c. pt (ck_order c)) cs)))"
    "\<forall>s \<in> set spans. \<exists>c \<in> set cs. rs_order s = ck_order c \<and> rs_offset_within_chunk s + rs_length s \<le> ck_size c"
    using Cons.IH[of "off + ck_size c"] Cons.prems by (auto simp: add.assoc)
  have chunk_end: "off + ck_size c \<le> u64_max"
    using Cons.prems by simp
  let ?s = "\<lparr> rs_order = ck_order c, rs_offset_within_chunk = max a off - off,
     rs_length = min b (off + ck_size c) - max a off, rs_checksum = ck_checksum c \<rparr>"
  let ?all = "if off + ck_size c \<le> a \<or> b \<le> off then spans else ?s # spans"
  have "read_spans a b (c # cs) = Inr ?all"
    using chunk_end spans(1) off by (simp add: Let_def checked_add_u64_def)
  moreover have "concat (map (span_piece pt) ?all) =
      drop (a - off) (take (b - off) (concat (map (\<lambda>c. pt (ck_order c)) (c # cs))))"
  proof -
    let ?X = "concat (map (\<lambda>c. pt (ck_order c)) cs)"
    have "drop (a - off) (take (b - off) (pt (ck_order c) @ ?X)) =
        drop (a - off) (take (b - off) (pt (ck_order c))) @ concat (map (span_piece pt) spans)"
      by (simp only: drop_take_append len spans(2) diff_diff_left)
    thus ?thesis
      unfolding overlap_piece[OF len, of a off b] by (simp add: span_piece_def del: drop_append take_append)
  qed
  moreover have "a < off + ck_size c \<Longrightarrow> max a off - off + (min b (off + ck_size c) - max a off) \<le> ck_size c"
    by (auto simp: max_def min_def)
  hence "\<forall>s \<in> set ?all. \<exists>c \<in> set (c # cs). rs_order s = ck_order c \<and>
       rs_offset_within_chunk s + rs_length s \<le> ck_size c"
    using spans(3) by auto
  ultimately show ?case by blast
qed simp

lemma write_spans_Inr:
  "(\<And>s. s \<in> set ss \<Longrightarrow> rd s = Inr (f s)) \<Longrightarrow> write_spans rd ss = Inr (concat (map f ss))"
  by (induction ss) simp_all

lemma write_spans_pieces:
  assumes "write_spans rd ss = Inr out" "\<And>s x. s \<in> set ss \<Longrightarrow> rd s = Inr x \<Longrightarrow> x = f s"
  shows "out = concat (map f ss)"
  using assms by (induction ss arbitrary: out) (auto simp: result_simps)

lemma order_index:
  assumes "orders_from 0 cs" "length cs \<le> u32_modulus" "c \<in> set cs"
  shows "ck_order c < length cs" "cs ! ck_order c = c"
proof -
  obtain j where j: "j < length cs" "c = cs ! j" using assms(3) by (metis in_set_conv_nth)
  have "ck_order c = j" using orders_from_nth[OF assms(1) j(1)] j assms(2) by simp
  thus "ck_order c < length cs" "cs ! ck_order c = c" using j by simp_all
qed

text \<open>A manifest whose chunks stand for the plaintexts \<open>ps\<close>, in order.\<close>

definition describes :: "crypto \<Rightarrow> ObjectManifest \<Rightarrow> byte list list \<Rightarrow> bool" where
  "describes cr m ps \<longleftrightarrow>
     contiguous_from 0 (chunks m) \<and> orders_from 0 (chunks m) \<and> length ps \<le> u32_modulus \<and>
     content_length m = total_size (chunks m) \<and> content_length m \<le> u64_max \<and>
     map ck_size (chunks m) = map length ps \<and> map ck_checksum (chunks m) = map (sha256_hex cr) ps"

lemma describes_chunk:
  assumes "describes cr m ps" "c \<in> set (chunks m)"
  shows "ck_order c < length (chunks m)" "chunks m ! ck_order c = c"
    "length (ps ! ck_order c) = ck_size c" "ck_checksum c = sha256_hex cr (ps ! ck_order c)"
proof -
  have d: "orders_from 0 (chunks m)" "length ps \<le> u32_modulus"
    "map ck_size (chunks m) = map length ps" "map ck_checksum (chunks m) = map (sha256_hex cr) ps"
    using assms(1) by (simp_all add: describes_def)
  have len: "length (chunks m) = length ps" using map_eq_imp_length_eq[OF d(3)] .
  note ix = order_index[OF d(1) _ assms(2)]
  show i: "ck_order c < length (chunks m)" "chunks m ! ck_order c = c" using ix d(2) len by simp_all
  show "length (ps ! ck_order c) = ck_size c" "ck_checksum c = sha256_hex cr (ps ! ck_order c)"
    using arg_cong[OF d(3), of "\<lambda>l. l ! ck_order c"] arg_cong[OF d(4), of "\<lambda>l. l ! ck_order c"] i len
    by simp_all
qed

lemma concat_by_order:
  assumes "describes cr m ps"
  shows "concat (map (\<lambda>c. ps ! ck_order c) (chunks m)) = concat ps"
proof -
  have len: "length (chunks m) = length ps"
    using assms map_eq_imp_length_eq by (auto simp: describes_def)
  have "ck_order (chunks m ! i) = i" if "i < length ps" for i
    using orders_from_nth[of 0 "chunks m" i] assms that len by (simp add: describes_def)
  hence "map (\<lambda>c. ps ! ck_order c) (chunks m) = ps"
    using len by (intro nth_equalityI) simp_all
  thus ?thesis by simp
qed

lemma plan_read_slices:
  assumes "describes cr m ps" "a \<le> b" "b \<le> content_length m"
  obtains plan where "plan_read m a b = Inr plan"
    "concat (map (span_piece ((!) ps)) (rp_chunks plan)) = drop a (take b (concat ps))"
    "\<forall>s \<in> set (rp_chunks plan). \<exists>c \<in> set (chunks m). rs_order s = ck_order c \<and>
       rs_offset_within_chunk s + rs_length s \<le> ck_size c"
proof -
  obtain spans where spans: "read_spans a b (chunks m) = Inr spans"
    "concat (map (span_piece ((!) ps)) spans) = drop a (take b (concat ps))"
    "\<forall>s \<in> set spans. \<exists>c \<in> set (chunks m). rs_order s = ck_order c \<and>
       rs_offset_within_chunk s + rs_length s \<le> ck_size c"
    using read_spans_slices[of 0 "chunks m" "(!) ps" a b] assms(1) describes_chunk(3)[OF assms(1)]
      concat_by_order[OF assms(1)] by (auto simp: describes_def)
  show thesis
    by (rule that[of "\<lparr> rp_object_id = m_object_id m, rp_start = a, rp_end = b, rp_chunks = spans \<rparr>"])
      (use assms spans in \<open>auto simp: plan_read_def\<close>)
qed


lemma read_span_piece:
  assumes "describes cr m ps" "c \<in> set (chunks m)" "rs_order s = ck_order c"
    "rs_offset_within_chunk s + rs_length s \<le> ck_size c"
  shows "read_manifest_chunk cr enc download m c = Inr (ps ! ck_order c) \<Longrightarrow>
      read_span cr enc download m s = Inr (span_piece ((!) ps) s)"
    and "(\<And>x. read_manifest_chunk cr enc download m c = Inr x \<Longrightarrow> x = ps ! ck_order c) \<Longrightarrow>
      read_span cr enc download m s = Inr y \<Longrightarrow> y = span_piece ((!) ps) s"
  using describes_chunk[OF assms(1,2)] assms(3,4)
  by (auto simp: read_span_def span_piece_def result_simps split: if_splits)

lemma read_range_slice:
  assumes d: "describes cr m ps" and "a \<le> b" "b \<le> content_length m"
    and rd: "\<And>c. c \<in> set (chunks m) \<Longrightarrow> read_manifest_chunk cr enc download m c = Inr (ps ! ck_order c)"
  shows "read_manifest_range cr enc download m a b = Inr (drop a (take b (concat ps)))"
proof -
  obtain plan where plan: "plan_read m a b = Inr plan"
    "concat (map (span_piece ((!) ps)) (rp_chunks plan)) = drop a (take b (concat ps))"
    "\<forall>s \<in> set (rp_chunks plan). \<exists>c \<in> set (chunks m). rs_order s = ck_order c \<and>
       rs_offset_within_chunk s + rs_length s \<le> ck_size c"
    by (rule plan_read_slices[OF assms(1-3)])
  have "write_spans (read_span cr enc download m) (rp_chunks plan) =
      Inr (concat (map (span_piece ((!) ps)) (rp_chunks plan)))"
    by (rule write_spans_Inr) (metis plan(3) read_span_piece(1)[OF d] rd)
  thus ?thesis using plan by (simp add: read_manifest_range_def)
qed

lemma read_manifest_chunk_checksum:
  "read_manifest_chunk cr enc download m c = Inr x \<Longrightarrow> sha256_hex cr x = ck_checksum c"
  by (auto simp: read_manifest_chunk_def open_payload_def result_simps split: option.splits if_splits prod.splits)

lemma plan_read_Inr_bounds: "plan_read m a b = Inr plan \<Longrightarrow> a \<le> b \<and> b \<le> content_length m"
  by (auto simp: plan_read_def split: if_splits)

section \<open>Cutting\<close>

lemma fill_returns:
  assumes "0 < csize" "length pending < csize"
  shows "\<exists>more rest. fill csize pending frame out = Some (out @ more, rest) \<and>
    concat more @ rest = pending @ frame \<and> (\<forall>c \<in> set more. length c = csize) \<and> length rest < csize"
  using assms(2)
proof (induction "length frame" arbitrary: pending frame out rule: less_induct)
  case less
  show ?case
  proof (cases "frame = []")
    case True
    thus ?thesis using less.prems by (simp add: fill.simps[of csize pending])
  next
    case False
    let ?k = "min (length frame) (csize - length pending)"
    let ?p = "pending @ take ?k frame" and ?f = "drop ?k frame"
    have shorter: "length ?f < length frame" using False less.prems by simp
    have glue: "?p @ ?f = pending @ frame" by simp
    show ?thesis
    proof (cases "length ?p = csize")
      case True
      have step: "fill csize pending frame out = fill csize [] ?f (out @ [?p])"
        using False True by (simp add: fill.simps[of csize pending] Let_def)
      obtain more rest where "fill csize [] ?f (out @ [?p]) = Some ((out @ [?p]) @ more, rest)"
        "concat more @ rest = ?f" "\<forall>c \<in> set more. length c = csize" "length rest < csize"
        using less.hyps[OF shorter, of "[]" "out @ [?p]"] assms(1) by auto
      thus ?thesis using step True glue
        by (intro exI[of _ "?p # more"] exI[of _ rest]) simp
    next
      case False
      have lt: "length ?p < csize" using False less.prems by simp
      have step: "fill csize pending frame out = fill csize ?p ?f out"
        using False \<open>frame \<noteq> []\<close> by (simp add: fill.simps[of csize pending] Let_def)
      show ?thesis using less.hyps[OF shorter lt, of out] step glue by simp
    qed
  qed
qed

lemma fill_frames_returns:
  assumes "0 < csize" "length pending < csize"
  shows "\<exists>more rest. fill_frames csize pending frames out = Some (out @ more, rest) \<and>
    concat more @ rest = pending @ concat frames \<and> (\<forall>c \<in> set more. length c = csize) \<and> length rest < csize"
  using assms(2)
proof (induction frames arbitrary: pending out)
  case (Cons f fs)
  obtain m1 r1 where 1: "fill csize pending f out = Some (out @ m1, r1)" "concat m1 @ r1 = pending @ f"
    "\<forall>c \<in> set m1. length c = csize" "length r1 < csize"
    using fill_returns[OF assms(1) Cons.prems] by blast
  obtain m2 r2 where 2: "fill_frames csize r1 fs (out @ m1) = Some ((out @ m1) @ m2, r2)"
    "concat m2 @ r2 = r1 @ concat fs" "\<forall>c \<in> set m2. length c = csize" "length r2 < csize"
    using Cons.IH[OF 1(4)] by blast
  have "concat (m1 @ m2) @ r2 = pending @ concat (f # fs)"
    using 1(2) 2(2) by (metis append.assoc concat.simps(2) concat_append)
  thus ?case using 1 2 by (intro exI[of _ "m1 @ m2"] exI[of _ r2]) auto
qed simp

lemma cut_body_returns:
  assumes "0 < csize"
  shows "\<exists>cs. cut_body csize frames = Some cs \<and> concat cs = concat frames \<and>
    (\<forall>c \<in> set cs. c \<noteq> [] \<and> length c \<le> csize) \<and> (\<forall>c \<in> set (butlast cs). length c = csize)"
proof -
  obtain more rest where "fill_frames csize [] frames [] = Some (more, rest)"
    "concat more @ rest = concat frames" "\<forall>c \<in> set more. length c = csize" "length rest < csize"
    using fill_frames_returns[of csize "[]" frames "[]"] assms by auto
  thus ?thesis using assms by (cases "rest = []") (auto simp: cut_body_def dest: in_set_butlastD)
qed


section \<open>The chunk plan in closed form\<close>

definition planned :: "nat \<Rightarrow> nat \<Rightarrow> nat \<Rightarrow> PlannedChunk" where
  "planned len csize j = \<lparr> pc_order = j, pc_offset = j * csize, pc_size = min (len - j * csize) csize \<rparr>"

definition chunk_count :: "nat \<Rightarrow> nat \<Rightarrow> nat" where
  "chunk_count len csize = (len + csize - 1) div csize"

lemma chunk_count_less: "0 < csize \<Longrightarrow> j < chunk_count len csize \<longleftrightarrow> j * csize < len"
proof -
  assume c: "0 < csize"
  have "j < chunk_count len csize \<longleftrightarrow> Suc j * csize \<le> len + csize - 1"
    unfolding chunk_count_def by (metis Suc_le_eq c less_eq_div_iff_mult_less_eq)
  also have "\<dots> \<longleftrightarrow> j * csize < len" using c by auto
  finally show ?thesis .
qed

lemma plan_loop_closed:
  assumes "0 < csize" "len \<le> u64_max" "i < u32_modulus"
  shows "plan_loop len csize (min (i * csize) len) i out =
    (if u32_modulus \<le> chunk_count len csize \<and> i < chunk_count len csize
     then Inl (InvalidPlan ''chunk order overflow'')
     else Inr (out @ map (planned len csize) [i..<chunk_count len csize]))"
  using assms(3)
proof (induction "chunk_count len csize - i" arbitrary: i out)
  case 0
  hence "chunk_count len csize \<le> i" by simp
  hence "min (i * csize) len = len" using chunk_count_less[OF assms(1), of i len] by simp
  thus ?case using 0 by (simp add: plan_loop.simps[of len])
next
  case (Suc k)
  hence i: "i < chunk_count len csize" by simp
  hence lt: "i * csize < len" using chunk_count_less[OF assms(1)] by simp
  let ?sz = "min (len - i * csize) csize"
  have next_off: "i * csize + ?sz = min (Suc i * csize) len" using lt by auto
  have fits: "i * csize + ?sz \<le> u64_max" using next_off assms(2) by simp
  have step: "plan_loop len csize (min (i * csize) len) i out =
      (if Suc i < u32_modulus
       then plan_loop len csize (min (Suc i * csize) len) (Suc i) (out @ [planned len csize i])
       else Inl (InvalidPlan ''chunk order overflow''))"
    using lt assms(1) fits next_off
    by (simp add: plan_loop.simps[of len csize "i * csize" i] checked_add_u64_def Let_def planned_def min.absorb1)
  show ?case
  proof (cases "Suc i < u32_modulus")
    case True
    have "Suc i < chunk_count len csize \<or> Suc i = chunk_count len csize" using i by linarith
    thus ?thesis
      using Suc.hyps(1)[of "Suc i" "out @ [planned len csize i]"] Suc.hyps(2) True step i
      by (auto simp: upt_conv_Cons)
  qed (use step i Suc.prems in simp)
qed

section \<open>Properties\<close>

text \<open>
  C2: A read never serves other bytes.  Whatever documents the chat hands out, lost, exchanged or forged, a
  range read that succeeds returns exactly the requested range of the content the manifest describes, as long
  as nobody finds other bytes with the SHA-256 digest of one of its chunks.
\<close>

theorem read_range_authentic:
  assumes d: "describes cr m ps" and read: "read_manifest_range cr enc download m a b = Inr out"
    and cr: "\<And>p x. p \<in> set ps \<Longrightarrow> sha256_hex cr x = sha256_hex cr p \<Longrightarrow> x = p"
  shows "out = drop a (take b (concat ps))"
proof -
  obtain plan where plan: "plan_read m a b = Inr plan"
    and out: "write_spans (read_span cr enc download m) (rp_chunks plan) = Inr out"
    using read by (auto simp: read_manifest_range_def result_simps)
  obtain plan' where plan': "plan_read m a b = Inr plan'"
    "concat (map (span_piece ((!) ps)) (rp_chunks plan')) = drop a (take b (concat ps))"
    "\<forall>s \<in> set (rp_chunks plan'). \<exists>c \<in> set (chunks m). rs_order s = ck_order c \<and>
       rs_offset_within_chunk s + rs_length s \<le> ck_size c"
    by (rule plan_read_slices[OF d, of a b]) (use plan_read_Inr_bounds[OF plan] in auto)
  have len: "length (chunks m) = length ps"
    using d map_eq_imp_length_eq by (auto simp: describes_def)
  have chunk: "x = ps ! ck_order c"
    if "c \<in> set (chunks m)" "read_manifest_chunk cr enc download m c = Inr x" for c x
    using cr[OF nth_mem] read_manifest_chunk_checksum[OF that(2)] describes_chunk[OF d that(1)] len by simp
  have "out = concat (map (span_piece ((!) ps)) (rp_chunks plan))"
  proof (rule write_spans_pieces[OF out])
    fix s x assume "s \<in> set (rp_chunks plan)" and rd: "read_span cr enc download m s = Inr x"
    then obtain c where c: "c \<in> set (chunks m)" "rs_order s = ck_order c"
        "rs_offset_within_chunk s + rs_length s \<le> ck_size c"
      using plan plan'(1,3) by auto
    show "x = span_piece ((!) ps) s" by (rule read_span_piece(2)[OF d c chunk[OF c(1)] rd])
  qed
  thus ?thesis using plan plan' by simp
qed

text \<open>A digest under which only one text has its value, and a chat that holds it.\<close>

definition one_byte_crypto :: crypto where
  "one_byte_crypto = \<lparr> sha256 = id, hex_encode = (\<lambda>b. if b = [5] then ''five'' else ''other''),
     uuid_bytes = (\<lambda>_. []), aead_seal = (\<lambda>_ _ _ p. Some p), aead_open = (\<lambda>_ _ _ c. Some c) \<rparr>"

definition one_byte_object :: ObjectManifest where
  "one_byte_object = (empty_object ''o'')\<lparr> content_length := 1,
     chunks := [\<lparr> ck_order = 0, ck_offset = 0, ck_size = 1, ck_checksum = ''five'', ck_peer_id = ''p'',
       ck_message_id = 7, ck_document_id = None, source_object_id = None, source_chunk_order = None, replicas = [] \<rparr>] \<rparr>"

definition one_byte_read :: "byte list \<Rightarrow> read_failure + byte list" where
  "one_byte_read document = read_manifest_range one_byte_crypto \<lparr> oe_key = [], oe_key_id = ''k'' \<rparr>
     (\<lambda>_ _. Inr document) one_byte_object 0 1"

theorem read_range_authentic_witness:
  "\<exists>out. one_byte_read [5] = Inr out \<and> out = [5]"
proof -
  have "case one_byte_read [5] of Inl _ \<Rightarrow> False | Inr _ \<Rightarrow> True" by code_simp
  then obtain out where r: "one_byte_read [5] = Inr out" by (auto split: sum.splits)
  have "describes one_byte_crypto one_byte_object [[5]]"
    by (simp add: describes_def one_byte_object_def one_byte_crypto_def sha256_hex_def u32_modulus_def u64_max_def)
  moreover have "x = p" if "p \<in> set [[5]]" "sha256_hex one_byte_crypto x = sha256_hex one_byte_crypto p" for p x
    using that by (simp add: one_byte_crypto_def sha256_hex_def split: if_splits)
  ultimately have "out = drop 0 (take 1 (concat [[5]]))"
    by (rule read_range_authentic[OF _ r[unfolded one_byte_read_def]])
  thus ?thesis using r by simp
qed

text \<open>
  C38: The chunk plan of a body of \<open>len\<close> bytes.  A zero chunk size is refused; a body that
  needs 2^32 chunks or more is refused; every other body is cut at the multiples of the
  chunk size, with orders 0, 1, 2, ..., and only the last chunk may be shorter.
\<close>

theorem plan_chunks_closed_form:
  assumes "len \<le> u64_max"
  shows "plan_chunks len csize =
    (if csize = 0 then Inl (InvalidPlan ''chunk size must be non-zero'')
     else if u32_modulus \<le> chunk_count len csize then Inl (InvalidPlan ''chunk order overflow'')
     else Inr \<lparr> cp_chunk_size = csize, cp_plan_length = len,
                cp_chunks = map (planned len csize) [0..<chunk_count len csize] \<rparr>)"
proof (cases "csize = 0")
  case False
  have "plan_loop len csize 0 0 [] =
    (if u32_modulus \<le> chunk_count len csize then Inl (InvalidPlan ''chunk order overflow'')
     else Inr (map (planned len csize) [0..<chunk_count len csize]))"
    using plan_loop_closed[of csize len 0 "[]"] assms False by (auto simp: u32_modulus_def)
  thus ?thesis using False by (simp add: plan_chunks_def)
qed (simp add: plan_chunks_def)

theorem plan_chunks_closed_form_witness:
  "map_sum id cp_chunks (plan_chunks 2500 1024) =
     Inr [\<lparr> pc_order = 0, pc_offset = 0, pc_size = 1024 \<rparr>,
          \<lparr> pc_order = 1, pc_offset = 1024, pc_size = 1024 \<rparr>,
          \<lparr> pc_order = 2, pc_offset = 2048, pc_size = 452 \<rparr>]"
proof -
  have "map (planned 2500 1024) [0..<chunk_count 2500 1024] =
     [\<lparr> pc_order = 0, pc_offset = 0, pc_size = 1024 \<rparr>,
      \<lparr> pc_order = 1, pc_offset = 1024, pc_size = 1024 \<rparr>,
      \<lparr> pc_order = 2, pc_offset = 2048, pc_size = 452 \<rparr>]"
    by code_simp
  moreover have "chunk_count 2500 1024 < u32_modulus" "(2500 :: nat) \<le> u64_max" by code_simp+
  ultimately show ?thesis using plan_chunks_closed_form[of 2500 1024] by simp
qed

end
