(* ===== verification/Staging.thy ===== *)
theory Staging
  imports Chunking Buckets
begin

text \<open>
  Reception of an upload (\<open>object_format/workflow.rs\<close>, \<open>object_format/reception.rs\<close>): the
  body is cut into chunks, each is sealed and written to the staging directory, and the
  manifest is staged and queued.  A \<open>node\<close> is the database with the chunk files of the
  staging directories; the part of \<open>ObjectFormatService\<close> the operations read is a record,
  with the outcome of the file operations.  Every metadata call is its own transaction, so
  what earlier calls wrote stays when a later one fails.
\<close>

record ObjectFormatService =
  os_crypto :: crypto
  os_encryption :: ObjectEncryption
  os_storage_chat_id :: string
  os_chunk_size :: nat
  os_staging_budget :: nat
  os_write_chunk :: "uuid \<Rightarrow> nat \<Rightarrow> ObjectFormatError option"
  os_write_manifest :: "uuid \<Rightarrow> ObjectFormatError option"
  os_create_dir :: "uuid \<Rightarrow> ObjectFormatError option"
  os_remove_dir :: "uuid \<Rightarrow> bool"

record node =
  nd_store :: store
  nd_files :: "uuid \<Rightarrow> nat \<Rightarrow> byte list option"

definition write_chunk_file :: "uuid \<Rightarrow> nat \<Rightarrow> byte list \<Rightarrow> node \<Rightarrow> node" where
  "write_chunk_file oid order bytes nd = nd\<lparr> nd_files := (nd_files nd)(oid := (nd_files nd oid)(order \<mapsto> bytes)) \<rparr>"

definition remove_dir_all :: "ObjectFormatService \<Rightarrow> uuid \<Rightarrow> node \<Rightarrow> node" where
  "remove_dir_all sv oid nd =
     (if os_remove_dir sv oid then nd\<lparr> nd_files := (nd_files nd)(oid := (\<lambda>_. None)) \<rparr> else nd)"

text \<open>What one reception has built so far; \<open>sg_hashed\<close> is what the hasher was fed.\<close>

record staging =
  sg_chunks :: "ChunkRef list"
  sg_hashed :: "byte list"
  sg_offset :: nat

definition empty_staging :: staging where
  "empty_staging = \<lparr> sg_chunks = [], sg_hashed = [], sg_offset = 0 \<rparr>"

text \<open>The hasher is fed before the storage chat is read, which may still fail.\<close>

definition stage_transfer_chunk ::
  "ObjectFormatService \<Rightarrow> seconds \<Rightarrow> uuid \<Rightarrow> byte list \<Rightarrow> staging \<Rightarrow> node \<Rightarrow>
   (ObjectFormatError + unit) \<times> staging \<times> node" where
  "stage_transfer_chunk sv now oid bytes sg nd =
     (let order = length (sg_chunks sg) in
      if u32_modulus \<le> order then (Inl (InvalidPlan ''too many chunks''), sg, nd)
      else
        (case reserve_staging now oid (length bytes + 16) (os_staging_budget sv) (nd_store nd) of
           Inl e \<Rightarrow> (Inl (Metadata e), sg, nd)
         | Inr (_, st1) \<Rightarrow>
             (let nd1 = nd\<lparr> nd_store := st1 \<rparr> in
              case encrypt_chunk (os_crypto sv) (os_encryption sv) oid order bytes of
                Inl e \<Rightarrow> (Inl e, sg, nd1)
              | Inr encrypted \<Rightarrow>
                  (case os_write_chunk sv oid order of
                     Some e \<Rightarrow> (Inl e, sg, nd1)
                   | None \<Rightarrow>
                       (let nd2 = write_chunk_file oid order encrypted nd1;
                            sg1 = sg\<lparr> sg_hashed := sg_hashed sg @ bytes \<rparr>
                        in case storage_chat_id (os_storage_chat_id sv) of
                             Inl e \<Rightarrow> (Inl e, sg1, nd2)
                           | Inr chat \<Rightarrow>
                               (Inr (), sg1\<lparr> sg_chunks := sg_chunks sg @
                                         [staged_chunk (os_crypto sv) chat oid order (sg_offset sg) bytes],
                                       sg_offset := sg_offset sg + length bytes \<rparr>, nd2))))))"

fun stage_all ::
  "ObjectFormatService \<Rightarrow> seconds \<Rightarrow> uuid \<Rightarrow> byte list list \<Rightarrow> staging \<Rightarrow> node \<Rightarrow>
   (ObjectFormatError + unit) \<times> staging \<times> node" where
  "stage_all sv now oid [] sg nd = (Inr (), sg, nd)"
| "stage_all sv now oid (b # bs) sg nd =
     (case stage_transfer_chunk sv now oid b sg nd of
        (Inl e, sg1, nd1) \<Rightarrow> (Inl e, sg1, nd1)
      | (Inr _, sg1, nd1) \<Rightarrow> stage_all sv now oid bs sg1 nd1)"

definition finalize_reception ::
  "ObjectFormatService \<Rightarrow> seconds \<Rightarrow> string \<Rightarrow> instant \<Rightarrow> string \<Rightarrow> ManifestBuildArgs \<Rightarrow>
   TransferWriteConditionals option \<Rightarrow> store \<Rightarrow> (ObjectFormatError + transfer_row) \<times> store" where
  "finalize_reception sv now ts utc jid args conditionals st =
     (case ensure_connection_not_removing st of
        Inl e \<Rightarrow> (Inl e, st)
      | Inr _ \<Rightarrow>
     (let m = new_manifest (os_encryption sv) utc (os_storage_chat_id sv) args in
      case os_write_manifest sv (ba_object_id args) of
        Some e \<Rightarrow> (Inl e, st)
      | None \<Rightarrow>
     (case stage_manifest ts Put m st of
        Inl e \<Rightarrow> (Inl (Metadata e), st)
      | Inr (operation, st1) \<Rightarrow>
     (case set_transfer_conditionals now jid conditionals st1 of
        Inl e \<Rightarrow> (Inl (Metadata e), st1)
      | Inr (_, st2) \<Rightarrow>
     (case queue_transfer now jid operation (length (chunks m)) st2 of
        Inl e \<Rightarrow> (Inl (Metadata e), st2)
      | Inr (_, st3) \<Rightarrow>
     (case transfer jid st3 of
        None \<Rightarrow> (Inl (InvalidPlan ''queued transfer missing''), st3)
      | Some job \<Rightarrow> (Inr job, st3)))))))"

text \<open>
  \<open>part\<close> names the multipart part the upload is for; \<open>interrupted\<close> says that the body ended
  with an error after the frames.  \<open>None\<close> is a reception that never ends.  The heartbeat that
  renews the reception meanwhile only moves \<open>lease_until\<close> and is not modelled.
\<close>

definition part_checksum_ok ::
  "(uuid \<times> nat \<times> string option) option \<Rightarrow> string \<Rightarrow> ObjectFormatError + unit" where
  "part_checksum_ok part actual =
     (case part of
        Some (_, _, Some expected) \<Rightarrow>
          if expected \<noteq> actual then Inl (ChecksumMismatch ''multipart part'' expected actual) else Inr ()
      | _ \<Rightarrow> Inr ())"

definition link_part ::
  "string \<Rightarrow> (uuid \<times> nat \<times> string option) option \<Rightarrow> store \<Rightarrow> unit tx" where
  "link_part jid part st =
     (case part of
        None \<Rightarrow> Inr ((), st)
      | Some (upload, number, expected) \<Rightarrow>
          insert_multipart_job
            \<lparr> mj_job_id = jid, mj_upload_id = upload, mj_part_number = number, mj_expected_checksum = expected \<rparr> st)"

definition receive_body ::
  "ObjectFormatService \<Rightarrow> seconds \<Rightarrow> uuid \<Rightarrow> byte list list \<Rightarrow> bool \<Rightarrow> node \<Rightarrow>
   ((ObjectFormatError + unit) \<times> staging \<times> node) option" where
  "receive_body sv now oid frames interrupted nd =
     (case fill_frames (os_chunk_size sv) [] frames [] of
        None \<Rightarrow> None
      | Some (full, pending) \<Rightarrow> Some (
          case stage_all sv now oid full empty_staging nd of
            (Inl e, sg, nd1) \<Rightarrow> (Inl e, sg, nd1)
          | (Inr _, sg, nd1) \<Rightarrow>
              if interrupted
              then (Inl (InvalidPlan ''request body interrupted; resend source file''), sg, nd1)
              else if pending = [] then (Inr (), sg, nd1)
              else stage_transfer_chunk sv now oid pending sg nd1))"

definition received ::
  "ObjectFormatService \<Rightarrow> seconds \<Rightarrow> string \<Rightarrow> instant \<Rightarrow> uuid \<Rightarrow> string \<Rightarrow> string \<Rightarrow> string \<Rightarrow>
   byte list list \<Rightarrow> bool \<Rightarrow> (uuid \<times> nat \<times> string option) option \<Rightarrow> TransferWriteConditionals option \<Rightarrow>
   instant option \<Rightarrow> node \<Rightarrow> ((ObjectFormatError + transfer_row) \<times> node) option" where
  "received sv now ts utc oid bucket key ctype frames interrupted part conditionals expires nd =
     (case link_part oid part (nd_store nd) of
        Inl e \<Rightarrow> Some (Inl (Metadata e), nd)
      | Inr (_, st1) \<Rightarrow>
     (let nd1 = nd\<lparr> nd_store := st1 \<rparr> in
      case os_create_dir sv oid of
        Some e \<Rightarrow> Some (Inl e, nd1)
      | None \<Rightarrow>
     (case receive_body sv now oid frames interrupted nd1 of
        None \<Rightarrow> None
      | Some (Inl e, sg, nd2) \<Rightarrow> Some (Inl e, nd2)
      | Some (Inr _, sg, nd2) \<Rightarrow>
     (let checksum = sha256_hex (os_crypto sv) (sg_hashed sg);
          args = \<lparr> ba_object_id = oid, ba_bucket = bucket, ba_key = key, ba_content_type = ctype,
                   ba_expires_at = expires, ba_commit_state = Staging, ba_chunks = sg_chunks sg,
                   ba_whole_checksum = checksum \<rparr>
      in case part_checksum_ok part checksum of
           Inl e \<Rightarrow> Some (Inl e, nd2)
         | Inr _ \<Rightarrow>
             (case finalize_reception sv now ts utc oid args conditionals (nd_store nd2) of
                (r, st3) \<Rightarrow> Some (r, nd2\<lparr> nd_store := st3 \<rparr>))))))"

definition reception_failed_message :: string where
  "reception_failed_message = ''Upload reception failed before durable acceptance; resend the source file''"

definition enqueue_with_part ::
  "ObjectFormatService \<Rightarrow> seconds \<Rightarrow> string \<Rightarrow> instant \<Rightarrow> uuid \<Rightarrow> string \<Rightarrow> string \<Rightarrow> string \<Rightarrow>
   byte list list \<Rightarrow> bool \<Rightarrow> (uuid \<times> nat \<times> string option) option \<Rightarrow> TransferWriteConditionals option \<Rightarrow>
   instant option \<Rightarrow> node \<Rightarrow> ((ObjectFormatError + transfer_row) \<times> node) option" where
  "enqueue_with_part sv now ts utc oid bucket key ctype frames interrupted part conditionals expires nd =
     (case ensure_connection_not_removing (nd_store nd) of
        Inl e \<Rightarrow> Some (Inl e, nd)
      | Inr _ \<Rightarrow>
     (case begin_transfer now oid bucket key (nd_store nd) of
        Inl e \<Rightarrow> Some (Inl (Metadata e), nd)
      | Inr (_, st1) \<Rightarrow>
     (case received sv now ts utc oid bucket key ctype frames interrupted part conditionals expires
             (nd\<lparr> nd_store := st1 \<rparr>) of
        None \<Rightarrow> None
      | Some (Inr job, nd1) \<Rightarrow> Some (Inr job, nd1)
      | Some (Inl e, nd1) \<Rightarrow>
          (let nd2 = remove_dir_all sv oid nd1 in
           Some (Inl e, nd2\<lparr> nd_store :=
             snd (fail_reception now oid (os_remove_dir sv oid) reception_failed_message (nd_store nd2)) \<rparr>)))))"

section \<open>What a reception has staged\<close>

fun chunk_refs :: "crypto \<Rightarrow> string \<Rightarrow> uuid \<Rightarrow> nat \<Rightarrow> nat \<Rightarrow> byte list list \<Rightarrow> ChunkRef list" where
  "chunk_refs cr chat oid i off [] = []"
| "chunk_refs cr chat oid i off (p # ps) =
     staged_chunk cr chat oid i off p # chunk_refs cr chat oid (Suc i) (off + length p) ps"

lemma chunk_refs_snoc:
  "chunk_refs cr chat oid i off (ps @ [p]) =
   chunk_refs cr chat oid i off ps @ [staged_chunk cr chat oid (i + length ps) (off + length (concat ps)) p]"
  by (induction ps arbitrary: i off) (simp_all add: add.assoc)

lemma length_chunk_refs [simp]: "length (chunk_refs cr chat oid i off ps) = length ps"
  by (induction ps arbitrary: i off) simp_all

lemma chunk_refs_fields:
  "map ck_size (chunk_refs cr chat oid i off ps) = map length ps"
  "map ck_checksum (chunk_refs cr chat oid i off ps) = map (sha256_hex cr) ps"
  by (induction ps arbitrary: i off) (simp_all add: staged_chunk_def)

lemma total_chunk_refs [simp]: "total_size (chunk_refs cr chat oid i off ps) = length (concat ps)"
  unfolding total_size_def chunk_refs_fields by (simp add: length_concat)

lemma chunk_refs_contiguous:
  "(\<And>p. p \<in> set ps \<Longrightarrow> p \<noteq> []) \<Longrightarrow> contiguous_from off (chunk_refs cr chat oid i off ps)"
  by (induction ps arbitrary: i off) (simp_all add: staged_chunk_def)

lemma chunk_refs_orders:
  "i + length ps \<le> u32_modulus \<Longrightarrow> orders_from i (chunk_refs cr chat oid i off ps)"
  by (induction ps arbitrary: i off) (simp_all add: staged_chunk_def)

lemma chunk_refs_sources:
  "c \<in> set (chunk_refs cr chat oid i off ps) \<Longrightarrow> source_object_id c = None \<and> source_chunk_order c = None"
  by (induction ps arbitrary: i off) (auto simp: staged_chunk_def)

text \<open>
  \<open>staged sv oid ps sg nd\<close>: the reception holds exactly the plaintexts \<open>ps\<close>, its hasher has
  seen them in order, and the staging directory holds the sealed form of each.
\<close>

definition sealed :: "ObjectFormatService \<Rightarrow> uuid \<Rightarrow> byte list list \<Rightarrow> node \<Rightarrow> bool" where
  "sealed sv oid ps nd \<longleftrightarrow> (\<forall>i < length ps. \<exists>ct. nd_files nd oid i = Some ct \<and>
     encrypt_chunk (os_crypto sv) (os_encryption sv) oid i (ps ! i) = Inr ct)"

definition staged :: "ObjectFormatService \<Rightarrow> uuid \<Rightarrow> byte list list \<Rightarrow> staging \<Rightarrow> node \<Rightarrow> bool" where
  "staged sv oid ps sg nd \<longleftrightarrow>
     sg_chunks sg = chunk_refs (os_crypto sv) (os_storage_chat_id sv) oid 0 0 ps \<and>
     sg_hashed sg = concat ps \<and> sg_offset sg = length (concat ps) \<and> length ps \<le> u32_modulus \<and>
     sealed sv oid ps nd"

lemma stage_chunk_steps:
  assumes "stage_transfer_chunk sv now oid bytes sg nd = (Inr u, sg', nd')"
  obtains ct st1 where
    "length (sg_chunks sg) < u32_modulus"
    "reserve_staging now oid (length bytes + 16) (os_staging_budget sv) (nd_store nd) = Inr ((), st1)"
    "encrypt_chunk (os_crypto sv) (os_encryption sv) oid (length (sg_chunks sg)) bytes = Inr ct"
    "nd' = write_chunk_file oid (length (sg_chunks sg)) ct (nd\<lparr> nd_store := st1 \<rparr>)"
    "sg' = \<lparr> sg_chunks = sg_chunks sg @ [staged_chunk (os_crypto sv) (os_storage_chat_id sv) oid
                (length (sg_chunks sg)) (sg_offset sg) bytes],
             sg_hashed = sg_hashed sg @ bytes, sg_offset = sg_offset sg + length bytes \<rparr>"
  using assms
  by (auto simp: stage_transfer_chunk_def Let_def storage_chat_id_def split: if_splits sum.splits option.splits)

lemma staged_snoc:
  assumes "staged sv oid ps sg nd" "stage_transfer_chunk sv now oid bytes sg nd = (Inr u, sg', nd')"
  shows "staged sv oid (ps @ [bytes]) sg' nd'"
proof -
  have s: "sg_chunks sg = chunk_refs (os_crypto sv) (os_storage_chat_id sv) oid 0 0 ps"
    "sg_hashed sg = concat ps" "sg_offset sg = length (concat ps)" "sealed sv oid ps nd"
    using assms(1) by (simp_all add: staged_def)
  obtain ct st1 where steps: "length (sg_chunks sg) < u32_modulus"
    "encrypt_chunk (os_crypto sv) (os_encryption sv) oid (length (sg_chunks sg)) bytes = Inr ct"
    "nd' = write_chunk_file oid (length (sg_chunks sg)) ct (nd\<lparr> nd_store := st1 \<rparr>)"
    "sg' = \<lparr> sg_chunks = sg_chunks sg @ [staged_chunk (os_crypto sv) (os_storage_chat_id sv) oid
                (length (sg_chunks sg)) (sg_offset sg) bytes],
             sg_hashed = sg_hashed sg @ bytes, sg_offset = sg_offset sg + length bytes \<rparr>"
    by (rule stage_chunk_steps[OF assms(2)])
  have "sealed sv oid (ps @ [bytes]) nd'"
    using s(1,4) steps(2,3) by (auto simp: sealed_def write_chunk_file_def nth_append less_Suc_eq)
  thus ?thesis using s steps by (simp add: staged_def chunk_refs_snoc)
qed

lemma staged_all:
  assumes "staged sv oid ps sg nd" "stage_all sv now oid bs sg nd = (Inr u, sg', nd')"
  shows "staged sv oid (ps @ bs) sg' nd'"
  using assms
proof (induction bs arbitrary: ps sg nd)
  case (Cons b bs)
  obtain sg1 nd1 where one: "stage_transfer_chunk sv now oid b sg nd = (Inr (), sg1, nd1)"
    and rest: "stage_all sv now oid bs sg1 nd1 = (Inr u, sg', nd')"
    using Cons.prems(2) by (auto split: prod.splits sum.splits)
  show ?case using Cons.IH[OF staged_snoc[OF Cons.prems(1) one] rest] by simp
qed simp

lemma staged_empty [simp]: "staged sv oid [] empty_staging nd"
  by (simp add: staged_def empty_staging_def sealed_def)

text \<open>The body that is received is the body that was sent, in chunks none of which is empty.\<close>

lemma receive_body_staged:
  assumes "0 < os_chunk_size sv" "receive_body sv now oid frames interrupted nd = Some (Inr u, sg, nd')"
  obtains ps where "staged sv oid ps sg nd'" "concat ps = concat frames" "\<forall>p \<in> set ps. p \<noteq> []" "\<not> interrupted"
proof -
  obtain full pending where fill: "fill_frames (os_chunk_size sv) [] frames [] = Some (full, pending)"
    "concat full @ pending = concat frames" "\<forall>c \<in> set full. length c = os_chunk_size sv"
    using fill_frames_returns[of "os_chunk_size sv" "[]" frames "[]"] assms(1) by auto
  obtain sg1 nd1 where all: "stage_all sv now oid full empty_staging nd = (Inr (), sg1, nd1)"
    and not_interrupted: "\<not> interrupted"
    and last: "if pending = [] then (sg1, nd1) = (sg, nd')
               else stage_transfer_chunk sv now oid pending sg1 nd1 = (Inr u, sg, nd')"
    using assms(2) fill(1) by (auto simp: receive_body_def split: prod.splits sum.splits if_splits)
  have st: "staged sv oid full sg1 nd1" using staged_all[OF staged_empty all] by simp
  show thesis
  proof (cases "pending = []")
    case True
    show thesis by (rule that[of full]) (use st last fill True not_interrupted assms(1) in auto)
  next
    case False
    have "staged sv oid (full @ [pending]) sg nd'" using staged_snoc[OF st] last False by simp
    thus thesis by (rule that) (use fill False not_interrupted assms(1) in auto)
  qed
qed

lemma staged_describes:
  assumes "staged sv oid ps sg nd" "\<forall>p \<in> set ps. p \<noteq> []" "chunks m = sg_chunks sg"
    "content_length m = total_size (sg_chunks sg)" "content_length m \<le> u64_max"
  shows "describes (os_crypto sv) m ps"
  using assms by (auto simp: describes_def staged_def chunk_refs_fields intro: chunk_refs_contiguous chunk_refs_orders)


section \<open>The job and the manifest row of a reception\<close>

text \<open>
  While an upload with a fresh id is received, the database differs from the one before it
  by one job in state \<open>receiving\<close>, at most one staged manifest row, and rows of tables no
  reader looks at.
\<close>

definition receiving_job :: "uuid \<Rightarrow> store \<Rightarrow> store \<Rightarrow> bool" where
  "receiving_job oid st0 st \<longleftrightarrow>
     (\<forall>j \<in> set (transfer_jobs st0). tj_id j \<noteq> oid) \<and>
     (\<exists>j. tj_id j = oid \<and> tj_object_id j = oid \<and> tj_state j = TReceiving \<and>
        transfer_jobs st = transfer_jobs st0 @ [j])"

definition fresh_object :: "uuid \<Rightarrow> store \<Rightarrow> bool" where
  "fresh_object oid st \<longleftrightarrow> oid \<notin> om_object_id ` set (object_manifests st) \<and> oid \<notin> ao_object_id ` set (active_objects st)"

definition staging_row :: "uuid \<Rightarrow> store \<Rightarrow> store \<Rightarrow> bool" where
  "staging_row oid st0 st \<longleftrightarrow> active_objects st = active_objects st0 \<and>
     (\<exists>rows. object_manifests st = object_manifests st0 @ rows \<and>
        (\<forall>r \<in> set rows. om_object_id r = oid \<and> om_commit_state r = Staging))"

lemma receiving_update_one:
  assumes r: "receiving_job oid st0 st" and u: "jobs_update_one (receiving oid) f err st = Inr (u, st')"
    and f: "\<And>j. tj_id (f j) = tj_id j" "\<And>j. tj_state (f j) = tj_state j" "\<And>j. tj_object_id (f j) = tj_object_id j"
  shows "receiving_job oid st0 st'"
proof -
  have st': "st' = jobs_update (receiving oid) f st"
    using u by (auto simp: jobs_update_one_def split: if_splits)
  obtain j where j: "tj_id j = oid" "tj_object_id j = oid" "tj_state j = TReceiving"
    "transfer_jobs st = transfer_jobs st0 @ [j]"
    using r by (auto simp: receiving_job_def)
  have "update_where (receiving oid) f (transfer_jobs st0) = transfer_jobs st0"
    using r by (intro update_where_none) (auto simp: receiving_job_def receiving_def)
  thus ?thesis using r j f st' by (auto simp: receiving_job_def jobs_update_def)
qed

lemma staging_row_cong:
  "active_objects st' = active_objects st \<Longrightarrow> object_manifests st' = object_manifests st \<Longrightarrow>
   staging_row oid st0 st' = staging_row oid st0 st"
  by (simp add: staging_row_def)

lemma receiving_job_cong:
  "transfer_jobs st' = transfer_jobs st \<Longrightarrow> receiving_job oid st0 st' = receiving_job oid st0 st"
  by (simp add: receiving_job_def)

lemma jobs_update_one_tables:
  assumes "jobs_update_one P f err st = Inr (u, st')"
  shows "active_objects st' = active_objects st" "object_manifests st' = object_manifests st"
    "operation_journal st' = operation_journal st" "buckets st' = buckets st"
    "multipart_jobs st' = multipart_jobs st"
  using assms by (auto simp: jobs_update_one_def jobs_update_def split: if_splits)

lemma reserve_staging_update:
  "reserve_staging now jid n budget st = Inr (u, st') \<Longrightarrow>
   jobs_update_one (receiving jid)
     (\<lambda>j. j\<lparr> tj_bytes := tj_bytes j + n, tj_updated_at := now, tj_lease_until := now + 120 \<rparr>)
     (InvalidManifest ''upload is no longer receiving'') st = Inr (u, st')"
  by (auto simp: reserve_staging_def split: if_splits)

lemma in_reception_reserve:
  assumes "reserve_staging now oid n budget st = Inr (u, st')" "receiving_job oid st0 st" "staging_row oid st0 st"
  shows "receiving_job oid st0 st'" "staging_row oid st0 st'"
proof -
  note u = reserve_staging_update[OF assms(1)]
  show "receiving_job oid st0 st'" by (rule receiving_update_one[OF assms(2) u]) simp_all
  show "staging_row oid st0 st'"
    using assms(3) staging_row_cong[OF jobs_update_one_tables(1,2)[OF u]] by blast
qed

lemma stage_chunk_store:
  assumes "stage_transfer_chunk sv now oid bytes sg nd = (r, sg', nd')"
  shows "nd_store nd' = nd_store nd \<or>
    reserve_staging now oid (length bytes + 16) (os_staging_budget sv) (nd_store nd) = Inr ((), nd_store nd')"
  using assms
  by (auto simp: stage_transfer_chunk_def Let_def write_chunk_file_def
      split: if_splits sum.splits option.splits prod.splits)

lemma in_reception_chunk:
  assumes "stage_transfer_chunk sv now oid bytes sg nd = (r, sg', nd')"
    "receiving_job oid st0 (nd_store nd)" "staging_row oid st0 (nd_store nd)"
  shows "receiving_job oid st0 (nd_store nd')" "staging_row oid st0 (nd_store nd')"
  using stage_chunk_store[OF assms(1)] in_reception_reserve[OF _ assms(2,3)] assms(2,3) by auto

lemma in_reception_all:
  assumes "stage_all sv now oid bs sg nd = (r, sg', nd')"
    "receiving_job oid st0 (nd_store nd)" "staging_row oid st0 (nd_store nd)"
  shows "receiving_job oid st0 (nd_store nd') \<and> staging_row oid st0 (nd_store nd')"
  using assms
proof (induction bs arbitrary: sg nd)
  case (Cons b bs)
  obtain r1 sg1 nd1 where one: "stage_transfer_chunk sv now oid b sg nd = (r1, sg1, nd1)"
    by (cases "stage_transfer_chunk sv now oid b sg nd") auto
  note inv = in_reception_chunk[OF one Cons.prems(2,3)]
  show ?case using Cons.IH[OF _ inv] Cons.prems(1) one inv by (cases r1) auto
qed simp

lemma in_reception_body:
  assumes "receive_body sv now oid frames interrupted nd = Some (r, sg, nd')"
    "receiving_job oid st0 (nd_store nd)" "staging_row oid st0 (nd_store nd)"
  shows "receiving_job oid st0 (nd_store nd') \<and> staging_row oid st0 (nd_store nd')"
proof -
  obtain full pending where fill: "fill_frames (os_chunk_size sv) [] frames [] = Some (full, pending)"
    using assms(1) by (auto simp: receive_body_def split: option.splits)
  obtain r1 sg1 nd1 where all: "stage_all sv now oid full empty_staging nd = (r1, sg1, nd1)"
    by (cases "stage_all sv now oid full empty_staging nd") auto
  note inv = in_reception_all[OF all assms(2,3)]
  show ?thesis
    using assms(1) fill all inv in_reception_chunk[of sv now oid pending sg1 nd1]
    by (auto simp: receive_body_def split: sum.splits if_splits)
qed

lemma find_upsert_row: "find (\<lambda>x. key x = key r) (upsert key r (\<lambda>_. r) rows) = Some r"
proof (cases "exists_where (\<lambda>x. key x = key r) rows")
  case True
  hence "find (\<lambda>x. key x = key r) (update_where (\<lambda>x. key x = key r) (\<lambda>_. r) rows) = Some r"
    by (induction rows) auto
  thus ?thesis using True by (simp add: upsert_def)
next
  case False
  hence "find (\<lambda>x. key x = key r) rows = None" by (simp add: find_None_iff_all)
  thus ?thesis using False by (simp add: upsert_def find_append_one)
qed

lemma stage_manifest_steps:
  assumes "stage_manifest ts Put m st = Inr (op, st')"
  shows "validate m = Inr ()" "op = m_object_id m" "transfer_jobs st' = transfer_jobs st"
    "active_objects st' = active_objects st"
    "\<exists>row. om_object_id row = m_object_id m \<and> om_commit_state row = Staging \<and>
       om_manifest row = m\<lparr> commit_state := Staging \<rparr> \<and> manifest_row_of st' (m_object_id m) = Some row \<and>
       object_manifests st' = upsert om_object_id row (\<lambda>_. row) (object_manifests st)"
proof -
  show "validate m = Inr ()" "op = m_object_id m" "transfer_jobs st' = transfer_jobs st"
    "active_objects st' = active_objects st"
    using assms
    by (auto simp: stage_manifest_def result_simps Let_def ensure_recovery_marker_def put_marker_def
        put_journal_row_def put_manifest_row_def)
  define row where "row = \<lparr> om_object_id = m_object_id m, om_connection_id = active_connection_id st,
     om_bucket = m_bucket m, om_key = m_key m, om_version_id = version_id m,
     om_commit_state = Staging, om_manifest = m\<lparr> commit_state := Staging \<rparr>,
     om_created_at = ts, om_committed_at = None, om_tombstoned_at = None \<rparr>"
  have rows: "object_manifests st' = upsert om_object_id row (\<lambda>_. row) (object_manifests st)"
    using assms
    by (auto simp: stage_manifest_def result_simps Let_def ensure_recovery_marker_def put_marker_def
        put_journal_row_def put_manifest_row_def row_def)
  have "manifest_row_of st' (m_object_id m) = Some row"
    using find_upsert_row[of om_object_id row] by (simp add: manifest_row_of_def rows row_def)
  thus "\<exists>row. om_object_id row = m_object_id m \<and> om_commit_state row = Staging \<and>
       om_manifest row = m\<lparr> commit_state := Staging \<rparr> \<and> manifest_row_of st' (m_object_id m) = Some row \<and>
       object_manifests st' = upsert om_object_id row (\<lambda>_. row) (object_manifests st)"
    using rows by (intro exI[of _ row]) (simp add: row_def)
qed


lemma update_where_append_fresh:
  assumes "\<And>r. r \<in> set xs \<Longrightarrow> \<not> P r"
  shows "update_where P f (xs @ ys) = xs @ update_where P f ys"
  using update_where_none[of xs P f] assms by simp

lemma staging_row_stage:
  assumes "stage_manifest ts Put m st = Inr (op, st')" "m_object_id m = oid"
    "staging_row oid st0 st" "fresh_object oid st0"
  shows "staging_row oid st0 st'"
proof -
  obtain row where row: "om_object_id row = oid" "om_commit_state row = Staging"
    "object_manifests st' = upsert om_object_id row (\<lambda>_. row) (object_manifests st)"
    using stage_manifest_steps(5)[OF assms(1)] assms(2) by auto
  obtain rows where rows: "object_manifests st = object_manifests st0 @ rows"
    "\<forall>r \<in> set rows. om_object_id r = oid \<and> om_commit_state r = Staging"
    using assms(3) by (auto simp: staging_row_def)
  have fresh: "om_object_id r \<noteq> oid" if "r \<in> set (object_manifests st0)" for r
    using assms(4) that by (auto simp: fresh_object_def)
  have "\<exists>more. object_manifests st' = object_manifests st0 @ more \<and>
      (\<forall>r \<in> set more. om_object_id r = oid \<and> om_commit_state r = Staging)"
  proof (cases "exists_where (\<lambda>x. om_object_id x = oid) (object_manifests st)")
    case True
    have "object_manifests st' = object_manifests st0 @ update_where (\<lambda>x. om_object_id x = oid) (\<lambda>_. row) rows"
      using True row fresh by (simp only: upsert_def rows(1) update_where_append_fresh if_True simp_thms)
    thus ?thesis using rows(2) row by (auto simp: mem_update_where)
  next
    case False
    hence "object_manifests st' = object_manifests st0 @ (rows @ [row])"
      using row by (simp add: upsert_def rows(1))
    thus ?thesis using rows(2) row by auto
  qed
  moreover have "active_objects st' = active_objects st0"
    using stage_manifest_steps(4)[OF assms(1)] assms(3) by (simp add: staging_row_def)
  ultimately show ?thesis by (simp add: staging_row_def)
qed

lemma in_reception_conditionals:
  assumes "set_transfer_conditionals now oid conds st = Inr (u, st')"
    "receiving_job oid st0 st" "staging_row oid st0 st"
  shows "receiving_job oid st0 st'" "staging_row oid st0 st'"
proof -
  note c = assms(1)[unfolded set_transfer_conditionals_def]
  show "receiving_job oid st0 st'" by (rule receiving_update_one[OF assms(2) c]) simp_all
  show "staging_row oid st0 st'"
    using assms(3) staging_row_cong[OF jobs_update_one_tables(1,2)[OF c]] by blast
qed

lemma queue_transfer_job:
  assumes "receiving_job oid st0 st"
  shows "\<exists>st' job. queue_transfer now oid op n st = Inr ((), st') \<and> transfer oid st' = Some job \<and>
    tj_state job = TQueued \<and> tj_operation_id job = Some op \<and> tj_chunks_total job = n \<and> tj_id job = oid \<and> tj_object_id job = oid \<and>
    active_objects st' = active_objects st \<and> object_manifests st' = object_manifests st"
proof -
  obtain j where j: "tj_id j = oid" "tj_object_id j = oid" "tj_state j = TReceiving" "transfer_jobs st = transfer_jobs st0 @ [j]"
    and none: "\<And>j. j \<in> set (transfer_jobs st0) \<Longrightarrow> tj_id j \<noteq> oid"
    using assms by (auto simp: receiving_job_def)
  have "count_where (receiving oid) (transfer_jobs st) = 1"
    using none j by (auto simp: count_where_def receiving_def filter_empty_conv)
  moreover have "update_where (receiving oid) f (transfer_jobs st0 @ [j]) = transfer_jobs st0 @ [f j]" for f
    using none j by (subst update_where_append_fresh) (auto simp: receiving_def)
  moreover have "find (\<lambda>j. tj_id j = oid) (transfer_jobs st0) = None"
    using none by (auto simp: find_None_iff_all)
  ultimately show ?thesis
    using j by (simp add: queue_transfer_def jobs_update_one_def jobs_update_def transfer_def find_append_one
        receiving_def)
qed

lemma finalize_reception_cases:
  assumes "finalize_reception sv now ts utc oid args conds st = (r, st')" "ba_object_id args = oid"
    "ba_commit_state args = Staging"
    "receiving_job oid st0 st" "staging_row oid st0 st" "fresh_object oid st0"
  obtains (failed) e where "r = Inl e" "receiving_job oid st0 st'" "staging_row oid st0 st'"
  | (queued) job m where "r = Inr job" "m = new_manifest (os_encryption sv) utc (os_storage_chat_id sv) args"
      "validate m = Inr ()" "get_manifest oid st' = Inr (Some m)"
      "tj_state job = TQueued" "tj_operation_id job = Some oid" "tj_chunks_total job = length (chunks m)"
      "tj_object_id job = oid" "transfer oid st' = Some job" "active_objects st' = active_objects st0"
proof -
  define m where "m = new_manifest (os_encryption sv) utc (os_storage_chat_id sv) args"
  have m: "m_object_id m = oid" "m\<lparr> commit_state := Staging \<rparr> = m"
    using assms(2,3) by (simp_all add: m_def new_manifest_def)
  show thesis
  proof (cases "ensure_connection_not_removing st")
    case (Inl e)
    show thesis by (rule failed) (use Inl assms in \<open>auto simp: finalize_reception_def\<close>)
  next
    case ok: (Inr u)
    show thesis
    proof (cases "os_write_manifest sv oid")
      case (Some e)
      show thesis by (rule failed) (use ok Some assms in \<open>auto simp: finalize_reception_def Let_def\<close>)
    next
      case written: None
      show thesis
      proof (cases "stage_manifest ts Put m st")
        case (Inl e)
        show thesis
          by (rule failed) (use ok written Inl assms in \<open>auto simp: finalize_reception_def Let_def m_def\<close>)
      next
        case (Inr p)
        obtain op st1 where stage: "stage_manifest ts Put m st = Inr (op, st1)" using Inr by (cases p) simp
        note steps = stage_manifest_steps[OF stage]
        have inv1: "receiving_job oid st0 st1" "staging_row oid st0 st1"
          using receiving_job_cong[OF steps(3)] assms(4) staging_row_stage[OF stage m(1) assms(5,6)] by blast+
        show thesis
        proof (cases "set_transfer_conditionals now oid conds st1")
          case (Inl e)
          show thesis
            by (rule failed) (use ok written stage Inl assms inv1 in \<open>auto simp: finalize_reception_def Let_def m_def\<close>)
        next
          case (Inr q)
          obtain st2 where conds: "set_transfer_conditionals now oid conds st1 = Inr ((), st2)"
            using Inr by (cases q) simp
          note inv2 = in_reception_conditionals[OF conds inv1]
          obtain st3 job where queue: "queue_transfer now oid op (length (chunks m)) st2 = Inr ((), st3)"
            "transfer oid st3 = Some job" "tj_state job = TQueued" "tj_operation_id job = Some op"
            "tj_chunks_total job = length (chunks m)" "tj_object_id job = oid"
            "active_objects st3 = active_objects st2" "object_manifests st3 = object_manifests st2"
            using queue_transfer_job[OF inv2(1)] by blast
          have res: "r = Inr job" "st' = st3"
            using assms(1,2) ok written stage conds queue(1,2)
            by (auto simp: finalize_reception_def Let_def m_def)
          have "object_manifests st2 = object_manifests st1"
            using jobs_update_one_tables(2)[OF conds[unfolded set_transfer_conditionals_def]] .
          moreover obtain row where "om_manifest row = m" "manifest_row_of st1 oid = Some row"
            using steps(5) m by auto
          ultimately have "get_manifest oid st3 = Inr (Some m)"
            using steps(1) queue(8) by (simp add: get_manifest_def load_manifest_by_object_id_def manifest_row_of_def)
          thus thesis
            by (intro queued[of job m])
              (use res queue steps(1,2) m inv2(2) in \<open>simp_all add: m_def staging_row_def\<close>)
        qed
      qed
    qed
  qed
qed


lemma in_reception_link:
  assumes "link_part jid part st = Inr (u, st')" "receiving_job oid st0 st" "staging_row oid st0 st"
  shows "receiving_job oid st0 st'" "staging_row oid st0 st'"
proof -
  have "transfer_jobs st' = transfer_jobs st" "active_objects st' = active_objects st"
    "object_manifests st' = object_manifests st"
    using assms(1) by (auto simp: link_part_def insert_multipart_job_def split: option.splits if_splits prod.splits)
  thus "receiving_job oid st0 st'" "staging_row oid st0 st'"
    using assms(2,3) receiving_job_cong[of st' st] staging_row_cong[of st' st] by blast+
qed

lemma received_cases:
  assumes "received sv now ts utc oid bucket key ctype frames interrupted part conds expires nd = Some (r, nd')"
    "0 < os_chunk_size sv"
    and inv: "receiving_job oid st0 (nd_store nd)" "staging_row oid st0 (nd_store nd)" "fresh_object oid st0"
  obtains (failed) e where "r = Inl e" "receiving_job oid st0 (nd_store nd')" "staging_row oid st0 (nd_store nd')"
  | (queued) job m ps where "r = Inr job" "\<not> interrupted" "concat ps = concat frames"
      "describes (os_crypto sv) m ps" "sealed sv oid ps nd'"
      "\<forall>c \<in> set (chunks m). source_object_id c = None \<and> source_chunk_order c = None"
      "enc_enabled (encryption m)" "m_object_id m = oid" "m_bucket m = bucket" "m_key m = key"
      "whole_object (m_checksum m) = sha256_hex (os_crypto sv) (concat frames)"
      "get_manifest oid (nd_store nd') = Inr (Some m)"
      "tj_state job = TQueued" "tj_operation_id job = Some oid" "tj_chunks_total job = length ps"
      "transfer oid (nd_store nd') = Some job" "active_objects (nd_store nd') = active_objects st0" "tj_object_id job = oid"
proof (cases "link_part oid part (nd_store nd)")
  case (Inl e)
  show thesis by (rule failed[of "Metadata e"]) (use Inl assms in \<open>auto simp: received_def\<close>)
next
  case (Inr p)
  then obtain st1 where link: "link_part oid part (nd_store nd) = Inr ((), st1)" by (cases p) simp
  let ?nd1 = "nd\<lparr> nd_store := st1 \<rparr>"
  note inv1 = in_reception_link[OF link inv(1,2)]
  show thesis
  proof (cases "os_create_dir sv oid")
    case (Some e)
    show thesis by (rule failed[of e]) (use Some link inv1 assms in \<open>auto simp: received_def Let_def\<close>)
  next
    case dir: None
    obtain rb sg nd2 where body: "receive_body sv now oid frames interrupted ?nd1 = Some (rb, sg, nd2)"
      using assms(1) link dir by (auto simp: received_def Let_def split: option.splits)
    have inv2: "receiving_job oid st0 (nd_store nd2)" "staging_row oid st0 (nd_store nd2)"
      using in_reception_body[OF body] inv1 by simp_all
    show thesis
    proof (cases rb)
      case (Inl e)
      show thesis by (rule failed[of e]) (use Inl link dir body inv2 assms in \<open>auto simp: received_def Let_def\<close>)
    next
      case rb: (Inr u)
      let ?sum = "sha256_hex (os_crypto sv) (sg_hashed sg)"
      let ?args = "\<lparr> ba_object_id = oid, ba_bucket = bucket, ba_key = key, ba_content_type = ctype,
         ba_expires_at = expires, ba_commit_state = Staging, ba_chunks = sg_chunks sg, ba_whole_checksum = ?sum \<rparr>"
      show thesis
      proof (cases "part_checksum_ok part ?sum")
        case (Inl e)
        show thesis
          by (rule failed[of e]) (use Inl link dir body rb inv2 assms in \<open>auto simp: received_def Let_def\<close>)
      next
        case chk: (Inr u')
        obtain r3 st3 where fin: "finalize_reception sv now ts utc oid ?args conds (nd_store nd2) = (r3, st3)"
          by (cases "finalize_reception sv now ts utc oid ?args conds (nd_store nd2)") auto
        have res: "r = r3" "nd' = nd2\<lparr> nd_store := st3 \<rparr>"
          using assms(1) link dir body rb chk fin by (auto simp: received_def Let_def)
        obtain ps where ps: "staged sv oid ps sg nd2" "concat ps = concat frames" "\<forall>p \<in> set ps. p \<noteq> []"
          "\<not> interrupted"
          by (rule receive_body_staged[OF assms(2) body[unfolded rb]])
        show thesis
        proof (rule finalize_reception_cases[OF fin _ _ inv2 inv(3)])
          show "ba_object_id ?args = oid" "ba_commit_state ?args = Staging" by simp_all
        next
          fix e assume "r3 = Inl e" "receiving_job oid st0 st3" "staging_row oid st0 st3"
          thus thesis by (intro failed) (simp_all add: res)
        next
          fix job m assume q: "r3 = Inr job" "m = new_manifest (os_encryption sv) utc (os_storage_chat_id sv) ?args"
            "validate m = Inr ()" "get_manifest oid st3 = Inr (Some m)" "tj_state job = TQueued"
            "tj_operation_id job = Some oid" "tj_chunks_total job = length (chunks m)" "tj_object_id job = oid"
            "transfer oid st3 = Some job" "active_objects st3 = active_objects st0"
          have m: "chunks m = sg_chunks sg" "content_length m = total_size (sg_chunks sg)"
            "whole_object (m_checksum m) = ?sum" "enc_enabled (encryption m)" "m_object_id m = oid"
            "m_bucket m = bucket" "m_key m = key"
            by (simp_all add: q(2) new_manifest_def)
          have len: "content_length m \<le> u64_max"
            using validate_contiguous(2,3)[OF q(3)] by (auto simp: u64_max_def)
          have "sealed sv oid ps nd'" using ps(1) by (simp add: staged_def sealed_def res)
          moreover have "describes (os_crypto sv) m ps" by (rule staged_describes[OF ps(1,3) m(1,2) len])
          moreover have "sg_chunks sg = chunk_refs (os_crypto sv) (os_storage_chat_id sv) oid 0 0 ps"
            "sg_hashed sg = concat frames"
            using ps(1,2) by (simp_all add: staged_def)
          ultimately show thesis
            using q m ps res chunk_refs_sources by (intro queued[of job ps m]) simp_all
        qed
      qed
    qed
  qed
qed

lemma reception_begun:
  assumes "begin_transfer now oid bucket key st = Inr (i, st1)"
  shows "receiving_job oid st st1" "staging_row oid st st1"
  using assms by (auto simp: begin_transfer_def receiving_job_def staging_row_def split: if_splits)

lemma enqueue_steps:
  assumes "enqueue_with_part sv now ts utc oid bucket key ctype frames interrupted part conds expires nd = Some (r, nd')"
  obtains (refused) e where "r = Inl e" "nd' = nd"
  | (begun) st1 r1 nd1 where "begin_transfer now oid bucket key (nd_store nd) = Inr (oid, st1)"
      "received sv now ts utc oid bucket key ctype frames interrupted part conds expires (nd\<lparr> nd_store := st1 \<rparr>) =
         Some (r1, nd1)"
      "r = r1" "nd' = (case r1 of Inr _ \<Rightarrow> nd1
         | Inl _ \<Rightarrow> (remove_dir_all sv oid nd1)\<lparr> nd_store :=
             snd (fail_reception now oid (os_remove_dir sv oid) reception_failed_message
               (nd_store (remove_dir_all sv oid nd1))) \<rparr>)"
proof (cases "ensure_connection_not_removing (nd_store nd)")
  case (Inl e)
  show thesis by (rule refused) (use Inl assms in \<open>auto simp: enqueue_with_part_def\<close>)
next
  case ok: (Inr u)
  show thesis
  proof (cases "begin_transfer now oid bucket key (nd_store nd)")
    case (Inl e)
    show thesis by (rule refused) (use ok Inl assms in \<open>auto simp: enqueue_with_part_def\<close>)
  next
    case (Inr p)
    then obtain st1 where b: "begin_transfer now oid bucket key (nd_store nd) = Inr (oid, st1)"
      by (auto simp: begin_transfer_def split: if_splits)
    obtain r1 nd1 where rc: "received sv now ts utc oid bucket key ctype frames interrupted part conds expires
        (nd\<lparr> nd_store := st1 \<rparr>) = Some (r1, nd1)"
      using assms ok b by (auto simp: enqueue_with_part_def split: option.splits)
    show thesis
      by (rule begun[OF b rc]) (use assms ok b rc in \<open>auto simp: enqueue_with_part_def Let_def split: sum.splits\<close>)
  qed
qed



lemma enqueue_staged:
  assumes "enqueue_with_part sv now ts utc oid bucket key ctype frames interrupted part conds expires nd =
      Some (Inr job, nd')"
    and "0 < os_chunk_size sv" and "fresh_object oid (nd_store nd)"
  obtains m ps where "\<not> interrupted" "concat ps = concat frames"
    "describes (os_crypto sv) m ps" "sealed sv oid ps nd'"
    "\<forall>c \<in> set (chunks m). source_object_id c = None \<and> source_chunk_order c = None"
    "enc_enabled (encryption m)" "m_object_id m = oid" "m_bucket m = bucket" "m_key m = key"
    "whole_object (m_checksum m) = sha256_hex (os_crypto sv) (concat frames)"
    "get_manifest oid (nd_store nd') = Inr (Some m)"
    "tj_state job = TQueued" "tj_operation_id job = Some oid" "tj_chunks_total job = length ps"
    "transfer oid (nd_store nd') = Some job" "active_objects (nd_store nd') = active_objects (nd_store nd)" "tj_object_id job = oid"
proof (rule enqueue_steps[OF assms(1)])
  fix st1 r1 nd1
  assume b: "begin_transfer now oid bucket key (nd_store nd) = Inr (oid, st1)"
    and rc: "received sv now ts utc oid bucket key ctype frames interrupted part conds expires (nd\<lparr> nd_store := st1 \<rparr>) =
         Some (r1, nd1)"
    and res: "Inr job = r1" "nd' = (case r1 of Inr _ \<Rightarrow> nd1
         | Inl _ \<Rightarrow> (remove_dir_all sv oid nd1)\<lparr> nd_store :=
             snd (fail_reception now oid (os_remove_dir sv oid) reception_failed_message
               (nd_store (remove_dir_all sv oid nd1))) \<rparr>)"
  have nd': "nd' = nd1" using res by auto
  show thesis
    by (rule received_cases[OF rc assms(2) _ _ assms(3)])
      (use reception_begun[OF b] res(1) that in \<open>auto simp: nd'\<close>)
qed simp

section \<open>Properties\<close>

text \<open>
  C8: An upload that is accepted is staged completely.  The body was not interrupted; the
  stored manifest describes chunks whose concatenation is the body, with the checksum of the
  body; the staging directory holds the sealed form of every chunk; the job is queued with
  the number of chunks; and no key changes.
\<close>

theorem accepted_upload_is_staged:
  assumes "enqueue_with_part sv now ts utc oid bucket key ctype frames interrupted part conds expires nd =
      Some (Inr job, nd')"
    and "0 < os_chunk_size sv" and "fresh_object oid (nd_store nd)"
  shows "\<not> interrupted \<and> tj_state job = TQueued \<and> tj_operation_id job = Some oid \<and>
    transfer oid (nd_store nd') = Some job \<and> active_objects (nd_store nd') = active_objects (nd_store nd) \<and>
    (\<exists>m ps. get_manifest oid (nd_store nd') = Inr (Some m) \<and> m_bucket m = bucket \<and> m_key m = key \<and>
       concat ps = concat frames \<and> describes (os_crypto sv) m ps \<and> sealed sv oid ps nd' \<and>
       whole_object (m_checksum m) = sha256_hex (os_crypto sv) (concat frames) \<and>
       tj_chunks_total job = length ps)"
  by (rule enqueue_staged[OF assms]) blast


text \<open>A service over a toy cipher, and a body of five bytes in chunks of three.\<close>

definition toy_crypto :: crypto where
  "toy_crypto = \<lparr> sha256 = (\<lambda>bs. bs @ [1]), hex_encode = map (\<lambda>b. char_of (97 + b mod 16)),
     uuid_bytes = as_bytes, aead_seal = (\<lambda>k n a p. Some (255 # p)),
     aead_open = (\<lambda>k n a c. case c of [] \<Rightarrow> None | t # p \<Rightarrow> if t = 255 then Some p else None) \<rparr>"

definition toy_service :: ObjectFormatService where
  "toy_service = \<lparr> os_crypto = toy_crypto, os_encryption = from_master_key toy_crypto ''master'',
     os_storage_chat_id = ''chat'', os_chunk_size = 3, os_staging_budget = 1000,
     os_write_chunk = (\<lambda>_ _. None), os_write_manifest = (\<lambda>_. None), os_create_dir = (\<lambda>_. None),
     os_remove_dir = (\<lambda>_. True) \<rparr>"

definition toy_node :: node where
  "toy_node = \<lparr> nd_store = bucket_store, nd_files = (\<lambda>_ _. None) \<rparr>"

declare fill.simps [code]

definition toy_upload :: "bool \<Rightarrow> ((ObjectFormatError + transfer_row) \<times> node) option" where
  "toy_upload interrupted =
     enqueue_with_part toy_service 0 ''t'' 0 ''o'' ''b'' ''k'' ''text/plain'' [[1, 2], [3, 4, 5]] interrupted
       None None None toy_node"

lemma toy_fresh: "0 < os_chunk_size toy_service" "fresh_object ''o'' (nd_store toy_node)"
  "os_remove_dir toy_service ''o''" "nd_files toy_node ''o'' = (\<lambda>_. None)"
  by (simp_all add: toy_service_def toy_node_def fresh_object_def bucket_store_def empty_store_def)

theorem accepted_upload_is_staged_witness:
  "\<exists>job nd' m ps. toy_upload False = Some (Inr job, nd') \<and> get_manifest ''o'' (nd_store nd') = Inr (Some m) \<and>
     concat ps = [1, 2, 3, 4, 5] \<and> describes toy_crypto m ps"
proof -
  have "case toy_upload False of Some (Inr _, _) \<Rightarrow> True | _ \<Rightarrow> False" by code_simp
  then obtain job nd' where up: "toy_upload False = Some (Inr job, nd')"
    by (auto split: option.splits sum.splits prod.splits)
  from accepted_upload_is_staged[OF up[unfolded toy_upload_def] toy_fresh(1,2)]
  obtain m ps where "get_manifest ''o'' (nd_store nd') = Inr (Some m)" "concat ps = concat [[1, 2], [3, 4, 5]]"
    "describes (os_crypto toy_service) m ps"
    by blast
  thus ?thesis using up by (auto simp: toy_service_def)
qed



text \<open>
  C36: A reception with a positive chunk size always ends: for every body and every outcome of
  the database and the file system, \<open>enqueue_with_part\<close> returns a job or an error.
\<close>

theorem reception_returns:
  assumes "0 < os_chunk_size sv"
  shows "\<exists>r nd'. enqueue_with_part sv now ts utc oid bucket key ctype frames interrupted part conds expires nd =
    Some (r, nd')"
proof -
  obtain full pending where "fill_frames (os_chunk_size sv) [] frames [] = Some (full, pending)"
    using fill_frames_returns[of "os_chunk_size sv" "[]" frames "[]"] assms by auto
  hence body: "receive_body sv now oid frames interrupted nd1 \<noteq> None" for nd1
    by (simp add: receive_body_def)
  have "received sv now ts utc oid bucket key ctype frames interrupted part conds expires nd1 \<noteq> None" for nd1
    by (auto simp: received_def Let_def dest: body[THEN notE] split: sum.splits option.splits prod.splits)
  note rc = this
  show ?thesis
    by (auto simp: enqueue_with_part_def Let_def dest: rc[THEN notE] split: sum.splits option.splits prod.splits)
qed

theorem reception_returns_witness:
  "0 < os_chunk_size toy_service \<and> (\<exists>r nd'. toy_upload True = Some (r, nd'))"
  using reception_returns[OF toy_fresh(1)] toy_fresh(1) unfolding toy_upload_def by blast

end
