(* ===== verification/Reception.thy ===== *)
theory Reception
  imports Staging
begin

text \<open>
  Resumable receptions (\<open>object_format/reception.rs\<close>): a client opens a reception, sends
  chunks at the offset the server reports, and finishes or aborts.  The open receptions live
  in memory, beside the \<open>node\<close>.  \<open>parse_uuid\<close> is \<open>Uuid::parse_str\<close>.
\<close>

record ReceptionStatus =
  rst_id :: string
  rst_received :: nat
  rst_chunk_size :: nat

record ReceptionState =
  rc_object_id :: uuid
  rc_bucket :: string
  rc_key :: string
  rc_content_type :: string
  rc_expires_at :: "instant option"
  rc_staging :: staging
  rc_final_received :: bool
  rc_chunk_size :: nat

type_synonym receptions = "uuid \<Rightarrow> ReceptionState option"

definition ensure_account_quota_for_additional_bytes :: "string \<Rightarrow> nat \<Rightarrow> store \<Rightarrow> MetadataError + unit" where
  "ensure_account_quota_for_additional_bytes account additional st =
     (case find (\<lambda>a. ta_id a = account) (telegram_accounts st) of
        None \<Rightarrow> Inr ()
      | Some a \<Rightarrow> enforce_quota (ta_label a) (ta_quota_bytes a) (account_usage st account) additional)"

definition ensure_quota_available :: "store \<Rightarrow> ObjectFormatError + unit" where
  "ensure_quota_available st =
     (case app_settings st ''telegram_active_connection_id'' of
        None \<Rightarrow> Inr ()
      | Some account \<Rightarrow> map_err Metadata (ensure_account_quota_for_additional_bytes account 1 st))"

definition status_of :: "string \<Rightarrow> ReceptionState \<Rightarrow> ReceptionStatus" where
  "status_of jid rs = \<lparr> rst_id = jid, rst_received = sg_offset (rc_staging rs), rst_chunk_size = rc_chunk_size rs \<rparr>"

definition begin_reception_with_expiry ::
  "ObjectFormatService \<Rightarrow> seconds \<Rightarrow> uuid \<Rightarrow> string \<Rightarrow> string \<Rightarrow> string \<Rightarrow> instant option \<Rightarrow>
   receptions \<times> node \<Rightarrow> (ObjectFormatError + ReceptionStatus) \<times> receptions \<times> node" where
  "begin_reception_with_expiry sv now oid bucket key ctype expires = (\<lambda>(recs, nd).
     (case ensure_connection_not_removing (nd_store nd) of
        Inl e \<Rightarrow> (Inl e, recs, nd)
      | Inr _ \<Rightarrow>
     (case ensure_quota_available (nd_store nd) of
        Inl e \<Rightarrow> (Inl e, recs, nd)
      | Inr _ \<Rightarrow>
     (case begin_transfer now oid bucket key (nd_store nd) of
        Inl e \<Rightarrow> (Inl (Metadata e), recs, nd)
      | Inr (jid, st1) \<Rightarrow>
     (case os_create_dir sv oid of
        Some e \<Rightarrow> (Inl e, recs, nd\<lparr> nd_store :=
          snd (fail_reception now jid True ''resumable reception staging could not be created'' st1) \<rparr>)
      | None \<Rightarrow>
          (let rs = \<lparr> rc_object_id = oid, rc_bucket = bucket, rc_key = key, rc_content_type = ctype,
                      rc_expires_at = expires, rc_staging = empty_staging, rc_final_received = False,
                      rc_chunk_size = os_chunk_size sv \<rparr>
           in (Inr (status_of jid rs), recs(oid \<mapsto> rs), nd\<lparr> nd_store := st1 \<rparr>)))))))"

definition parse_reception_id :: "(string \<Rightarrow> string + uuid) \<Rightarrow> string \<Rightarrow> ObjectFormatError + uuid" where
  "parse_reception_id parse_uuid jid = map_err (\<lambda>_. ReceptionNotFound) (parse_uuid jid)"

definition reception_state :: "uuid \<Rightarrow> receptions \<Rightarrow> ObjectFormatError + ReceptionState" where
  "reception_state oid recs = ok_or ReceptionNotFound (recs oid)"

definition reception_status ::
  "(string \<Rightarrow> string + uuid) \<Rightarrow> string \<Rightarrow> receptions \<times> node \<Rightarrow> ObjectFormatError + ReceptionStatus" where
  "reception_status parse_uuid jid = (\<lambda>(recs, nd).
     bind_res (parse_reception_id parse_uuid jid) (\<lambda>oid.
       if (case transfer jid (nd_store nd) of None \<Rightarrow> False | Some j \<Rightarrow> tj_state j = TReceiving)
       then bind_res (reception_state oid recs) (\<lambda>rs. Inr (status_of jid rs))
       else Inl ReceptionNotFound))"

definition receive_reception_chunk ::
  "(string \<Rightarrow> string + uuid) \<Rightarrow> ObjectFormatService \<Rightarrow> seconds \<Rightarrow> string \<Rightarrow> nat \<Rightarrow> byte list \<Rightarrow> bool \<Rightarrow>
   receptions \<times> node \<Rightarrow> (ObjectFormatError + ReceptionStatus) \<times> receptions \<times> node" where
  "receive_reception_chunk parse_uuid sv now jid offset bytes final_chunk = (\<lambda>(recs, nd).
     (case bind_res (parse_reception_id parse_uuid jid) (\<lambda>oid. map_sum id (\<lambda>rs. (oid, rs)) (reception_state oid recs)) of
        Inl e \<Rightarrow> (Inl e, recs, nd)
      | Inr (oid, rs) \<Rightarrow>
          if sg_offset (rc_staging rs) \<noteq> offset
          then (Inl (ReceptionOffsetMismatch (sg_offset (rc_staging rs))), recs, nd)
          else if rc_chunk_size rs < length bytes then (Inl ReceptionChunkTooLarge, recs, nd)
          else if \<not> final_chunk \<and> length bytes \<noteq> rc_chunk_size rs then (Inl ReceptionChunkSizeMismatch, recs, nd)
          else
            (case (if bytes = [] then (Inr (), rc_staging rs, nd)
                   else stage_transfer_chunk sv now (rc_object_id rs) bytes (rc_staging rs) nd) of
               (Inl e, sg, nd1) \<Rightarrow> (Inl e, recs(oid \<mapsto> rs\<lparr> rc_staging := sg \<rparr>), nd1)
             | (Inr _, sg, nd1) \<Rightarrow>
                 (let rs1 = rs\<lparr> rc_staging := sg, rc_final_received := rc_final_received rs \<or> final_chunk \<rparr>
                  in (Inr (status_of jid rs1), recs(oid \<mapsto> rs1), nd1)))))"

definition cleanup_failed_reception ::
  "ObjectFormatService \<Rightarrow> seconds \<Rightarrow> string \<Rightarrow> uuid \<Rightarrow> receptions \<times> node \<Rightarrow> receptions \<times> node" where
  "cleanup_failed_reception sv now jid oid = (\<lambda>(recs, nd).
     (let nd1 = remove_dir_all sv oid nd in
      (recs(oid := None), nd1\<lparr> nd_store :=
         snd (fail_reception now jid (os_remove_dir sv oid) reception_failed_message (nd_store nd1)) \<rparr>)))"

definition finish_reception ::
  "(string \<Rightarrow> string + uuid) \<Rightarrow> ObjectFormatService \<Rightarrow> seconds \<Rightarrow> string \<Rightarrow> instant \<Rightarrow> string \<Rightarrow>
   receptions \<times> node \<Rightarrow> (ObjectFormatError + transfer_row) \<times> receptions \<times> node" where
  "finish_reception parse_uuid sv now ts utc jid = (\<lambda>(recs, nd).
     (case bind_res (parse_reception_id parse_uuid jid) (\<lambda>oid. map_sum id (\<lambda>rs. (oid, rs)) (reception_state oid recs)) of
        Inl e \<Rightarrow> (Inl e, recs, nd)
      | Inr (oid, rs) \<Rightarrow>
          if \<not> rc_final_received rs then (Inl ReceptionNotComplete, recs, nd)
          else
            (let sg = rc_staging rs;
                 args = \<lparr> ba_object_id = rc_object_id rs, ba_bucket = rc_bucket rs, ba_key = rc_key rs,
                          ba_content_type = rc_content_type rs, ba_expires_at = rc_expires_at rs,
                          ba_commit_state = Staging, ba_chunks = sg_chunks sg,
                          ba_whole_checksum = sha256_hex (os_crypto sv) (sg_hashed sg) \<rparr>
             in case finalize_reception sv now ts utc jid args None (nd_store nd) of
                  (Inr job, st1) \<Rightarrow> (Inr job, recs(rc_object_id rs := None), nd\<lparr> nd_store := st1 \<rparr>)
                | (Inl e, st1) \<Rightarrow>
                    (Inl e, cleanup_failed_reception sv now jid (rc_object_id rs) (recs, nd\<lparr> nd_store := st1 \<rparr>)))))"

definition abort_reception ::
  "(string \<Rightarrow> string + uuid) \<Rightarrow> ObjectFormatService \<Rightarrow> seconds \<Rightarrow> string \<Rightarrow>
   receptions \<times> node \<Rightarrow> (ObjectFormatError + unit) \<times> receptions \<times> node" where
  "abort_reception parse_uuid sv now jid = (\<lambda>(recs, nd).
     (case bind_res (parse_reception_id parse_uuid jid) (\<lambda>oid. map_sum id (\<lambda>rs. (oid, rs)) (reception_state oid recs)) of
        Inl e \<Rightarrow> (Inl e, recs, nd)
      | Inr (oid, rs) \<Rightarrow>
          (let nd1 = remove_dir_all sv oid nd in
           (Inr (), recs(oid := None), nd1\<lparr> nd_store :=
              snd (fail_reception now jid (os_remove_dir sv oid) ''resumable reception cancelled'' (nd_store nd1)) \<rparr>))))"

section \<open>A reception of one client\<close>

text \<open>The chunk requests of one reception, in the order they arrive, and the bytes accepted.\<close>

record chunk_request =
  rq_time :: seconds
  rq_offset :: nat
  rq_bytes :: "byte list"
  rq_final :: bool

fun receive_all ::
  "(string \<Rightarrow> string + uuid) \<Rightarrow> ObjectFormatService \<Rightarrow> string \<Rightarrow> chunk_request list \<Rightarrow> receptions \<times> node \<Rightarrow>
   byte list \<times> receptions \<times> node" where
  "receive_all parse_uuid sv jid [] s = ([], s)"
| "receive_all parse_uuid sv jid (q # qs) s =
     (case receive_reception_chunk parse_uuid sv (rq_time q) jid (rq_offset q) (rq_bytes q) (rq_final q) s of
        (r, s1) \<Rightarrow>
          (case receive_all parse_uuid sv jid qs s1 of
             (rest, s2) \<Rightarrow> ((case r of Inl _ \<Rightarrow> [] | Inr _ \<Rightarrow> rq_bytes q) @ rest, s2)))"


definition open_reception ::
  "ObjectFormatService \<Rightarrow> uuid \<Rightarrow> string \<Rightarrow> string \<Rightarrow> store \<Rightarrow> byte list list \<Rightarrow> receptions \<times> node \<Rightarrow> bool" where
  "open_reception sv oid bucket key st0 ps s \<longleftrightarrow>
     (\<exists>rs. fst s oid = Some rs \<and> rc_object_id rs = oid \<and> rc_bucket rs = bucket \<and> rc_key rs = key \<and>
        staged sv oid ps (rc_staging rs) (snd s)) \<and>
     (\<forall>p \<in> set ps. p \<noteq> []) \<and> receiving_job oid st0 (nd_store (snd s)) \<and> staging_row oid st0 (nd_store (snd s))"

lemma stage_chunk_failed:
  assumes "stage_transfer_chunk sv now oid bytes sg nd = (Inl e, sg', nd')" "os_storage_chat_id sv \<noteq> []"
  shows "sg' = sg" "nd_files nd' = nd_files nd"
  using assms
  by (auto simp: stage_transfer_chunk_def Let_def storage_chat_id_def split: if_splits sum.splits option.splits)

lemma staged_cong: "nd_files nd' = nd_files nd \<Longrightarrow> staged sv oid ps sg nd' = staged sv oid ps sg nd"
  by (simp add: staged_def sealed_def)

lemma receive_chunk_cases:
  assumes "receive_reception_chunk parse_uuid sv now oid off bytes final (recs, nd) = (r, recs', nd')"
    "parse_uuid oid = Inr oid" "recs oid = Some rs" "rc_object_id rs = oid"
  obtains (rejected) e where "r = Inl e" "recs' = recs" "nd' = nd"
  | (failed) e sg where "r = Inl e" "stage_transfer_chunk sv now oid bytes (rc_staging rs) nd = (Inl e, sg, nd')"
      "recs' = recs(oid \<mapsto> rs\<lparr> rc_staging := sg \<rparr>)"
  | (empty) st where "r = Inr st" "bytes = []" "nd' = nd"
      "recs' = recs(oid \<mapsto> rs\<lparr> rc_final_received := rc_final_received rs \<or> final \<rparr>)"
  | (stored) st sg where "r = Inr st" "bytes \<noteq> []"
      "stage_transfer_chunk sv now oid bytes (rc_staging rs) nd = (Inr (), sg, nd')"
      "recs' = recs(oid \<mapsto> rs\<lparr> rc_staging := sg, rc_final_received := rc_final_received rs \<or> final \<rparr>)"
proof -
  define mismatch where "mismatch \<longleftrightarrow> sg_offset (rc_staging rs) \<noteq> off \<or> rc_chunk_size rs < length bytes \<or>
      (\<not> final \<and> length bytes \<noteq> rc_chunk_size rs)"
  show thesis
  proof (cases mismatch)
    case True
    then obtain e where "(r, recs', nd') = (Inl e, recs, nd)"
      using assms unfolding mismatch_def
      by (auto simp: receive_reception_chunk_def parse_reception_id_def reception_state_def split: if_splits)
    thus thesis by (intro rejected) simp_all
  next
    case go: False
    show thesis
    proof (cases "bytes = []")
      case True
      show thesis
        by (rule empty) (use go True assms in \<open>auto simp: mismatch_def receive_reception_chunk_def Let_def
            parse_reception_id_def reception_state_def split: if_splits\<close>)
    next
      case False
      obtain r1 sg nd1 where one: "stage_transfer_chunk sv now oid bytes (rc_staging rs) nd = (r1, sg, nd1)"
        by (cases "stage_transfer_chunk sv now oid bytes (rc_staging rs) nd") auto
      show thesis
      proof (cases r1)
        case (Inl e)
        show thesis
          by (rule failed[of e sg]) (use go False one Inl assms in \<open>auto simp: mismatch_def receive_reception_chunk_def
              parse_reception_id_def reception_state_def split: if_splits\<close>)
      next
        case (Inr u)
        show thesis
          by (rule stored[OF _ False, of "status_of oid (rs\<lparr> rc_staging := sg, rc_final_received := rc_final_received rs \<or> final \<rparr>)" sg])
            (use go False one Inr assms in \<open>auto simp: mismatch_def receive_reception_chunk_def Let_def
              parse_reception_id_def reception_state_def split: if_splits\<close>)
      qed
    qed
  qed
qed

lemma open_reception_step:
  assumes "receive_reception_chunk parse_uuid sv now oid off bytes final s = (r, s')"
    and inv: "open_reception sv oid bucket key st0 ps s"
    and "parse_uuid oid = Inr oid" "os_storage_chat_id sv \<noteq> []"
  obtains ps' where "open_reception sv oid bucket key st0 ps' s'"
    "concat ps' = concat ps @ (case r of Inl _ \<Rightarrow> [] | Inr _ \<Rightarrow> bytes)"
proof -
  obtain recs nd where s: "s = (recs, nd)" by (cases s)
  obtain recs' nd' where s': "s' = (recs', nd')" by (cases s')
  obtain rs where rs: "recs oid = Some rs" "rc_object_id rs = oid" "rc_bucket rs = bucket" "rc_key rs = key"
    and st: "staged sv oid ps (rc_staging rs) nd" and ne: "\<forall>p \<in> set ps. p \<noteq> []"
    and rec: "receiving_job oid st0 (nd_store nd)" "staging_row oid st0 (nd_store nd)"
    using inv by (auto simp: open_reception_def s)
  show thesis
  proof (rule receive_chunk_cases[OF assms(1)[unfolded s s'] assms(3) rs(1,2)])
    fix e assume "r = Inl e" "recs' = recs" "nd' = nd"
    thus thesis using inv by (intro that[of ps]) (simp_all add: s s')
  next
    fix e sg assume f: "r = Inl e" "stage_transfer_chunk sv now oid bytes (rc_staging rs) nd = (Inl e, sg, nd')"
      "recs' = recs(oid \<mapsto> rs\<lparr> rc_staging := sg \<rparr>)"
    note same = stage_chunk_failed[OF f(2) assms(4)]
    have "open_reception sv oid bucket key st0 ps s'"
      using in_reception_chunk[OF f(2) rec] rs ne st staged_cong[OF same(2)]
      by (auto simp: open_reception_def s' f(3) same(1))
    thus thesis by (rule that) (simp add: f(1))
  next
    fix x assume f: "r = Inr x" "bytes = []" "nd' = nd"
      "recs' = recs(oid \<mapsto> rs\<lparr> rc_final_received := rc_final_received rs \<or> final \<rparr>)"
    have "open_reception sv oid bucket key st0 ps s'"
      using rs ne st rec by (auto simp: open_reception_def s' f)
    thus thesis by (rule that) (simp add: f(1,2))
  next
    fix x sg assume f: "r = Inr x" "bytes \<noteq> []"
      "stage_transfer_chunk sv now oid bytes (rc_staging rs) nd = (Inr (), sg, nd')"
      "recs' = recs(oid \<mapsto> rs\<lparr> rc_staging := sg, rc_final_received := rc_final_received rs \<or> final \<rparr>)"
    have "open_reception sv oid bucket key st0 (ps @ [bytes]) s'"
      using in_reception_chunk[OF f(3) rec] rs ne staged_snoc[OF st f(3)] f(2)
      by (auto simp: open_reception_def s' f(4))
    thus thesis by (rule that) (simp add: f(1))
  qed
qed

lemma open_reception_all:
  assumes "receive_all parse_uuid sv oid qs s = (accepted, s')"
    and "open_reception sv oid bucket key st0 ps s"
    and "parse_uuid oid = Inr oid" "os_storage_chat_id sv \<noteq> []"
  shows "\<exists>ps'. open_reception sv oid bucket key st0 ps' s' \<and> concat ps' = concat ps @ accepted"
  using assms
proof (induction qs arbitrary: s ps accepted)
  case (Cons q qs)
  obtain r s1 where one: "receive_reception_chunk parse_uuid sv (rq_time q) oid (rq_offset q) (rq_bytes q) (rq_final q) s = (r, s1)"
    by (cases "receive_reception_chunk parse_uuid sv (rq_time q) oid (rq_offset q) (rq_bytes q) (rq_final q) s") auto
  obtain rest where rest: "receive_all parse_uuid sv oid qs s1 = (rest, s')"
    "accepted = (case r of Inl _ \<Rightarrow> [] | Inr _ \<Rightarrow> rq_bytes q) @ rest"
    using Cons.prems(1) one by (auto split: prod.splits)
  obtain ps1 where ps1: "open_reception sv oid bucket key st0 ps1 s1"
    "concat ps1 = concat ps @ (case r of Inl _ \<Rightarrow> [] | Inr _ \<Rightarrow> rq_bytes q)"
    by (rule open_reception_step[OF one Cons.prems(2-4)])
  show ?case using Cons.IH[OF rest(1) ps1(1) Cons.prems(3,4)] ps1(2) rest(2) by auto
qed auto

lemma reception_opened:
  assumes "begin_reception_with_expiry sv now oid bucket key ctype expires (recs, nd) = (Inr status, s1)"
  shows "open_reception sv oid bucket key (nd_store nd) [] s1"
  using assms reception_begun[of now oid bucket key "nd_store nd"]
  by (auto simp: begin_reception_with_expiry_def open_reception_def Let_def begin_transfer_def
      split: sum.splits option.splits if_splits)


section \<open>Properties\<close>

text \<open>
  C9: A resumed upload is exactly the chunks that were accepted.  However many chunk requests
  were sent, at whatever offsets and with whatever failures between them, the manifest that
  \<open>finish_reception\<close> queues describes the concatenation of the accepted bodies, carries its
  checksum, and the staging directory holds every chunk sealed; the reception is closed.
\<close>

theorem resumed_upload_is_staged:
  assumes "begin_reception_with_expiry sv now oid bucket key ctype expires (recs, nd) = (Inr status, s1)"
    and "receive_all parse_uuid sv oid qs s1 = (accepted, s2)"
    and "finish_reception parse_uuid sv now' ts utc oid s2 = (Inr job, recs', nd')"
    and "parse_uuid oid = Inr oid" "os_storage_chat_id sv \<noteq> []" "fresh_object oid (nd_store nd)"
  shows "recs' oid = None \<and> tj_state job = TQueued \<and> transfer oid (nd_store nd') = Some job \<and>
    active_objects (nd_store nd') = active_objects (nd_store nd) \<and>
    (\<exists>m ps. get_manifest oid (nd_store nd') = Inr (Some m) \<and> m_bucket m = bucket \<and> m_key m = key \<and>
       concat ps = accepted \<and> describes (os_crypto sv) m ps \<and> sealed sv oid ps nd' \<and>
       whole_object (m_checksum m) = sha256_hex (os_crypto sv) accepted)"
proof -
  obtain ps where inv: "open_reception sv oid bucket key (nd_store nd) ps s2" and acc: "concat ps = accepted"
    using open_reception_all[OF assms(2) reception_opened[OF assms(1)] assms(4,5)] by auto
  obtain recs2 nd2 where s2: "s2 = (recs2, nd2)" by (cases s2)
  obtain rs where rs: "recs2 oid = Some rs" "rc_object_id rs = oid" "rc_bucket rs = bucket" "rc_key rs = key"
    and st: "staged sv oid ps (rc_staging rs) nd2" and ne: "\<forall>p \<in> set ps. p \<noteq> []"
    and rec: "receiving_job oid (nd_store nd) (nd_store nd2)" "staging_row oid (nd_store nd) (nd_store nd2)"
    using inv by (auto simp: open_reception_def s2)
  let ?sg = "rc_staging rs"
  let ?args = "\<lparr> ba_object_id = oid, ba_bucket = bucket, ba_key = key, ba_content_type = rc_content_type rs,
     ba_expires_at = rc_expires_at rs, ba_commit_state = Staging, ba_chunks = sg_chunks ?sg,
     ba_whole_checksum = sha256_hex (os_crypto sv) (sg_hashed ?sg) \<rparr>"
  obtain r st3 where fin: "finalize_reception sv now' ts utc oid ?args None (nd_store nd2) = (r, st3)"
    by (cases "finalize_reception sv now' ts utc oid ?args None (nd_store nd2)") auto
  have res: "r = Inr job" "recs' = recs2(oid := None)" "nd' = nd2\<lparr> nd_store := st3 \<rparr>"
    using assms(3) rs fin assms(4)
    by (auto simp: finish_reception_def s2 parse_reception_id_def reception_state_def Let_def
        split: if_splits sum.splits)
  show ?thesis
  proof (rule finalize_reception_cases[OF fin _ _ rec assms(6)])
    show "ba_object_id ?args = oid" "ba_commit_state ?args = Staging" by simp_all
  next
    fix e assume "r = Inl e" thus ?thesis using res by simp
  next
    fix job' m assume q: "r = Inr job'" "m = new_manifest (os_encryption sv) utc (os_storage_chat_id sv) ?args"
      "validate m = Inr ()" "get_manifest oid st3 = Inr (Some m)" "tj_state job' = TQueued"
      "transfer oid st3 = Some job'" "active_objects st3 = active_objects (nd_store nd)"
    have m: "chunks m = sg_chunks ?sg" "content_length m = total_size (sg_chunks ?sg)"
      "whole_object (m_checksum m) = sha256_hex (os_crypto sv) (sg_hashed ?sg)" "m_bucket m = bucket" "m_key m = key"
      by (simp_all add: q(2) new_manifest_def)
    have "content_length m \<le> u64_max" using validate_contiguous(2,3)[OF q(3)] by (auto simp: u64_max_def)
    hence "describes (os_crypto sv) m ps" by (rule staged_describes[OF st ne m(1,2)])
    moreover have "sealed sv oid ps nd'" "sg_hashed ?sg = accepted"
      using st acc by (simp_all add: staged_def sealed_def res(3))
    ultimately show ?thesis using q res m acc by auto
  qed
qed

definition toy_parse :: "string \<Rightarrow> string + uuid" where "toy_parse u = Inr u"

definition toy_requests :: "chunk_request list" where
  "toy_requests =
     [\<lparr> rq_time = 1, rq_offset = 0, rq_bytes = [1, 2, 3], rq_final = False \<rparr>,
      \<lparr> rq_time = 2, rq_offset = 0, rq_bytes = [1, 2, 3], rq_final = False \<rparr>,
      \<lparr> rq_time = 3, rq_offset = 3, rq_bytes = [4], rq_final = False \<rparr>,
      \<lparr> rq_time = 4, rq_offset = 3, rq_bytes = [4, 5], rq_final = True \<rparr>]"

definition toy_opened :: "(ObjectFormatError + ReceptionStatus) \<times> receptions \<times> node" where
  "toy_opened = begin_reception_with_expiry toy_service 0 ''o'' ''b'' ''k'' ''text/plain'' None ((\<lambda>_. None), toy_node)"

definition toy_sent :: "byte list \<times> receptions \<times> node" where
  "toy_sent = receive_all toy_parse toy_service ''o'' toy_requests (snd toy_opened)"

theorem resumed_upload_is_staged_witness:
  "\<exists>job recs' nd' m ps. finish_reception toy_parse toy_service 5 ''t'' 0 ''o'' (snd toy_sent) = (Inr job, recs', nd') \<and>
     get_manifest ''o'' (nd_store nd') = Inr (Some m) \<and> concat ps = [1, 2, 3, 4, 5] \<and> describes toy_crypto m ps"
proof -
  have "case fst toy_opened of Inl _ \<Rightarrow> False | Inr _ \<Rightarrow> True" by code_simp
  then obtain status where o: "begin_reception_with_expiry toy_service 0 ''o'' ''b'' ''k'' ''text/plain'' None
      ((\<lambda>_. None), toy_node) = (Inr status, snd toy_opened)"
    unfolding toy_opened_def by (auto split: sum.splits simp: prod_eq_iff)
  have "fst toy_sent = [1, 2, 3, 4, 5]" by code_simp
  hence a: "receive_all toy_parse toy_service ''o'' toy_requests (snd toy_opened) = ([1, 2, 3, 4, 5], snd toy_sent)"
    by (simp add: toy_sent_def prod_eq_iff)
  have "case finish_reception toy_parse toy_service 5 ''t'' 0 ''o'' (snd toy_sent) of (Inr _, _) \<Rightarrow> True | _ \<Rightarrow> False"
    by code_simp
  then obtain job recs' nd' where f:
    "finish_reception toy_parse toy_service 5 ''t'' 0 ''o'' (snd toy_sent) = (Inr job, recs', nd')"
    by (auto split: sum.splits prod.splits)
  have p: "toy_parse ''o'' = Inr ''o''" "os_storage_chat_id toy_service \<noteq> []"
    by (simp_all add: toy_parse_def toy_service_def)
  from resumed_upload_is_staged[OF o a f p toy_fresh(2)]
  obtain m ps where "get_manifest ''o'' (nd_store nd') = Inr (Some m)" "concat ps = [1, 2, 3, 4, 5]"
    "describes (os_crypto toy_service) m ps"
    by blast
  thus ?thesis using f by (auto simp: toy_service_def)
qed

text \<open>
  The hypothesis on the storage chat is needed: a chunk that fails because no chat is
  configured has already been hashed, so when it is sent again and accepted the manifest
  carries the checksum of the body with that chunk twice.
\<close>

definition unconfigured_service :: ObjectFormatService where
  "unconfigured_service = toy_service\<lparr> os_storage_chat_id := [] \<rparr>"

lemma retried_chunk_is_hashed_twice:
  "(let q = receive_reception_chunk toy_parse;
        s1 = snd (q unconfigured_service 1 ''o'' 0 [1, 2] True (snd toy_opened));
        s2 = snd (q toy_service 2 ''o'' 0 [1, 2] True s1);
        (r, _, nd) = finish_reception toy_parse toy_service 3 ''t'' 0 ''o'' s2
    in map_sum id (map_option (\<lambda>m. (content_length m, whole_object (m_checksum m)))) (get_manifest ''o'' (nd_store nd))) =
   Inr (Some (2, sha256_hex toy_crypto [1, 2, 1, 2]))"
  by code_simp

end
