(* ===== verification/Retry.thy ===== *)
theory Retry
  imports Errors
begin

text \<open>
  The retry policy (\<open>src/src/telegram/retry.rs\<close>) and the loops that run under
  it: \<open>TelegramTransport::retry_rpc\<close> and \<open>retry_telegram_read\<close>, which may loop
  forever on an account that is flood-limited forever, and
  \<open>retry_telegram_read_for_stream\<close>, which has a deadline.  An operation that
  is called repeatedly is the function from the call's number to its result.
  Durations are milliseconds.
\<close>

datatype RetryDecision = RetryAfter nat | RespectFloodWait nat | GiveUp

record RetryPolicy =
  max_attempts :: nat
  base_backoff :: nat
  respect_flood_wait :: bool

definition new_policy :: "nat \<Rightarrow> nat \<Rightarrow> bool \<Rightarrow> RetryPolicy" where
  "new_policy attempts backoff respect =
     \<lparr> max_attempts = max attempts 1, base_backoff = backoff, respect_flood_wait = respect \<rparr>"

definition u128_max :: nat where "u128_max = 340282366920938463463374607431768211455"

definition backoff_for_attempt :: "RetryPolicy \<Rightarrow> nat \<Rightarrow> nat" where
  "backoff_for_attempt p attempt =
     (if attempt \<le> 1 then base_backoff p
      else let multiplier = 2 ^ min (attempt - 1) 20;
               millis = min (base_backoff p * multiplier) u128_max
           in min millis 10000)"

definition retry_decision :: "RetryPolicy \<Rightarrow> nat \<Rightarrow> nat option \<Rightarrow> RetryDecision" where
  "retry_decision p attempt flood_wait_seconds =
     (case flood_wait_seconds of
        Some seconds \<Rightarrow>
          if respect_flood_wait p then RespectFloodWait (max seconds 1 * 1000)
          else if attempt \<ge> max_attempts p then GiveUp
          else RetryAfter (backoff_for_attempt p (attempt + 1))
      | None \<Rightarrow>
          if attempt \<ge> max_attempts p then GiveUp
          else RetryAfter (backoff_for_attempt p (attempt + 1)))"

definition default_policy :: RetryPolicy where
  "default_policy = new_policy 5 500 True"

section \<open>Flood-wait texts\<close>

text \<open>\<open>str::find\<close>: the text from the first occurrence of a pattern on.\<close>

fun find_str :: "string \<Rightarrow> string \<Rightarrow> string option" where
  "find_str pat [] = (if pat = [] then Some [] else None)"
| "find_str pat (c # cs) =
     (if take (length pat) (c # cs) = pat then Some (c # cs) else find_str pat cs)"

text \<open>\<open>digits.parse::<u64>()\<close> on a string of ASCII digits.\<close>

definition parse_digits_u64 :: "string \<Rightarrow> nat option" where
  "parse_digits_u64 ds =
     (if ds = [] then None
      else if digits_value ds \<le> u64_max then Some (digits_value ds) else None)"

definition number_after :: "string \<Rightarrow> string \<Rightarrow> nat option" where
  "number_after pat text =
     (case find_str pat text of
        None \<Rightarrow> None
      | Some tail \<Rightarrow> parse_digits_u64 (takeWhile is_ascii_digit (drop (length pat) tail)))"

definition parse_flood_wait_seconds :: "string \<Rightarrow> nat option" where
  "parse_flood_wait_seconds error =
     (case number_after ''FLOOD_WAIT_'' error of
        Some value \<Rightarrow> Some value
      | None \<Rightarrow> number_after ''(value: '' error)"

definition to_ascii_uppercase :: "string \<Rightarrow> string" where
  "to_ascii_uppercase = map (\<lambda>c. let n = (of_char c :: nat) in
     if 97 \<le> n \<and> n \<le> 122 then char_of (n - 32) else c)"

definition contains_str :: "string \<Rightarrow> string \<Rightarrow> bool" where
  "contains_str pat text \<longleftrightarrow> find_str pat text \<noteq> None"

definition is_flood_wait_error :: "string \<Rightarrow> bool" where
  "is_flood_wait_error error =
     (let e = to_ascii_uppercase error in
      contains_str ''FLOOD_WAIT'' e \<or> contains_str ''RPC ERROR 420'' e)"

section \<open>The loops\<close>

text \<open>\<open>None\<close> is a loop that never returns.  The result pairs the outcome with the number
  of calls made and the time slept.\<close>

partial_function (option) retry_read_loop ::
  "RetryPolicy \<Rightarrow> (nat \<Rightarrow> ObjectFormatError + byte list) \<Rightarrow> nat \<Rightarrow> nat \<Rightarrow>
   ((ObjectFormatError + byte list) \<times> nat \<times> nat) option" where
  "retry_read_loop p read attempt slept =
     (case read attempt of
        Inr bytes \<Rightarrow> Some (Inr bytes, attempt, slept)
      | Inl error \<Rightarrow>
          if \<not> is_retryable_telegram_read_error error then Some (Inl error, attempt, slept)
          else (case retry_decision p attempt (parse_flood_wait_seconds (retryable_error_text error)) of
              RetryAfter delay \<Rightarrow> retry_read_loop p read (attempt + 1) (slept + delay)
            | RespectFloodWait delay \<Rightarrow> retry_read_loop p read (attempt + 1) (slept + delay)
            | GiveUp \<Rightarrow> Some (Inl error, attempt, slept)))"

definition retry_telegram_read ::
  "RetryPolicy \<Rightarrow> (nat \<Rightarrow> ObjectFormatError + byte list) \<Rightarrow>
   ((ObjectFormatError + byte list) \<times> nat \<times> nat) option" where
  "retry_telegram_read p read = retry_read_loop p read 1 0"

partial_function (option) retry_rpc_loop ::
  "RetryPolicy \<Rightarrow> (nat \<Rightarrow> string + 'a) \<Rightarrow> nat \<Rightarrow> nat \<Rightarrow>
   ((TelegramTransportError + 'a) \<times> nat \<times> nat) option" where
  "retry_rpc_loop p op attempt slept =
     (case op attempt of
        Inr v \<Rightarrow> Some (Inr v, attempt, slept)
      | Inl error \<Rightarrow>
          (case retry_decision p attempt (parse_flood_wait_seconds error) of
              RetryAfter delay \<Rightarrow> retry_rpc_loop p op (attempt + 1) (slept + delay)
            | RespectFloodWait delay \<Rightarrow> retry_rpc_loop p op (attempt + 1) (slept + delay)
            | GiveUp \<Rightarrow> Some (Inl (Rpc error), attempt, slept)))"

definition retry_rpc ::
  "RetryPolicy \<Rightarrow> (nat \<Rightarrow> string + 'a) \<Rightarrow>
   ((TelegramTransportError + 'a) \<times> nat \<times> nat) option" where
  "retry_rpc p op = retry_rpc_loop p op 1 0"

text \<open>
  The stream reader's loop.  Times are microseconds since the loop started; a
  call takes the time the environment gives it, \<open>tokio::time::timeout\<close> cuts it
  at the deadline, and \<open>sleep\<close> sleeps for exactly its argument.
\<close>

record TelegramRetryResult =
  trr_bytes :: "byte list"
  trr_retries :: nat
  trr_retry_wait_us :: nat

definition window_expired :: "string \<Rightarrow> ObjectFormatError" where
  "window_expired message_id = Telegram (T_Io
     (''Telegram chunk download recovery window expired for message '' @ message_id))"

definition stream_retry_delay_us :: "RetryPolicy \<Rightarrow> nat \<Rightarrow> ObjectFormatError \<Rightarrow> nat" where
  "stream_retry_delay_us p attempt error =
     (case parse_flood_wait_seconds (retryable_error_text error) of
        Some seconds \<Rightarrow> if respect_flood_wait p then max seconds 1 * 1000000
          else backoff_for_attempt p (min (attempt + 1) (u32_modulus - 1)) * 1000
      | None \<Rightarrow> backoff_for_attempt p (min (attempt + 1) (u32_modulus - 1)) * 1000)"

partial_function (option) stream_retry_loop ::
  "RetryPolicy \<Rightarrow> string \<Rightarrow> nat \<Rightarrow> (nat \<Rightarrow> nat \<times> (ObjectFormatError + byte list)) \<Rightarrow>
   nat \<Rightarrow> nat \<Rightarrow> nat \<Rightarrow> nat \<Rightarrow> nat \<Rightarrow>
   ((ObjectFormatError + TelegramRetryResult) \<times> nat) option" where
  "stream_retry_loop p message_id window read call attempt retries retry_wait_us now =
     (if window - now = 0 then Some (Inl (window_expired message_id), now)
      else (case read call of (duration, result) \<Rightarrow>
        if window - now < duration then Some (Inl (window_expired message_id), window)
        else (case result of
            Inr bytes \<Rightarrow> Some (Inr \<lparr> trr_bytes = bytes, trr_retries = retries,
                                     trr_retry_wait_us = retry_wait_us \<rparr>, now + duration)
          | Inl error \<Rightarrow>
              if \<not> is_retryable_telegram_read_error error then Some (Inl error, now + duration)
              else let remaining = window - (now + duration);
                       wait = min (stream_retry_delay_us p attempt error) remaining
                   in if remaining = 0 then Some (Inl error, now + duration)
                      else if remaining \<le> wait then Some (Inl error, now + duration + wait)
                      else stream_retry_loop p message_id window read (call + 1)
                             (min (attempt + 1) (u32_modulus - 1))
                             (saturating_add_u64 retries 1)
                             (saturating_add_u64 retry_wait_us wait)
                             (now + duration + wait))))"

definition retry_telegram_read_for_stream ::
  "RetryPolicy \<Rightarrow> string \<Rightarrow> nat \<Rightarrow> (nat \<Rightarrow> nat \<times> (ObjectFormatError + byte list)) \<Rightarrow>
   ((ObjectFormatError + TelegramRetryResult) \<times> nat) option" where
  "retry_telegram_read_for_stream p message_id window read =
     stream_retry_loop p message_id window read 1 1 0 0 0"

section \<open>Bounds and termination\<close>


lemma backoff_pos:
  assumes "0 < base_backoff p"
  shows "0 < backoff_for_attempt p attempt"
proof (cases "attempt \<le> 1")
  case False
  have "0 < base_backoff p * 2 ^ min (attempt - 1) 20" using assms by simp
  moreover have "0 < u128_max" by (simp add: u128_max_def)
  ultimately show ?thesis using False by (simp add: backoff_for_attempt_def Let_def)
qed (simp add: backoff_for_attempt_def assms)

lemma backoff_mono:
  assumes "2 \<le> a" "a \<le> b"
  shows "backoff_for_attempt p a \<le> backoff_for_attempt p b"
proof -
  have "(2::nat) ^ min (a - 1) 20 \<le> 2 ^ min (b - 1) 20"
    using assms by (intro power_increasing) auto
  hence "base_backoff p * 2 ^ min (a - 1) 20 \<le> base_backoff p * 2 ^ min (b - 1) 20"
    by (rule mult_le_mono2)
  thus ?thesis using assms by (simp add: backoff_for_attempt_def Let_def min_le_iff_disj)
qed

lemma retry_decision_RetryAfter:
  "retry_decision p attempt f = RetryAfter d \<Longrightarrow>
   d = backoff_for_attempt p (attempt + 1) \<and> attempt < max_attempts p"
  by (auto simp: retry_decision_def split: option.splits if_splits)

text \<open>An outcome whose error, if any, does not make the policy wait for a flood limit.\<close>

definition no_flood_wait :: "RetryPolicy \<Rightarrow> ObjectFormatError + byte list \<Rightarrow> bool" where
  "no_flood_wait p r =
     (case r of Inr _ \<Rightarrow> True
      | Inl e \<Rightarrow> \<not> respect_flood_wait p \<or> parse_flood_wait_seconds (retryable_error_text e) = None)"



lemma flood_wait_never_returns:
  assumes "respect_flood_wait p"
    "\<And>n. \<exists>e secs. read n = Inl e \<and> is_retryable_telegram_read_error e \<and>
       parse_flood_wait_seconds (retryable_error_text e) = Some secs"
  shows "retry_read_loop p read attempt slept = None"
proof -
  have "p' = p \<longrightarrow> read' = read \<longrightarrow> False"
    if "retry_read_loop p' read' attempt' slept' = Some r" for p' read' attempt' slept' r
    using that
  proof (rule retry_read_loop.raw_induct[rotated])
    fix loop p' read' attempt' slept' y
    assume hyp: "\<And>p' read' attempt' slept' y. loop p' read' attempt' slept' = Some y \<Longrightarrow>
        p' = p \<longrightarrow> read' = read \<longrightarrow> False"
      and body: "(case read' attempt' of
        Inl error \<Rightarrow>
          if \<not> is_retryable_telegram_read_error error then Some (Inl error, attempt', slept')
          else (case retry_decision p' attempt' (parse_flood_wait_seconds (retryable_error_text error)) of
              RetryAfter delay \<Rightarrow> loop p' read' (attempt' + 1) (slept' + delay)
            | RespectFloodWait delay \<Rightarrow> loop p' read' (attempt' + 1) (slept' + delay)
            | GiveUp \<Rightarrow> Some (Inl error, attempt', slept'))
      | Inr bytes \<Rightarrow> Some (Inr bytes, attempt', slept')) = Some y"
    show "p' = p \<longrightarrow> read' = read \<longrightarrow> False"
    proof (intro impI)
      assume eqs: "p' = p" "read' = read"
      obtain e secs where e: "read attempt' = Inl e" "is_retryable_telegram_read_error e"
          "parse_flood_wait_seconds (retryable_error_text e) = Some secs"
        using assms(2)[of attempt'] by blast
      have "loop p read (attempt' + 1) (slept' + max secs 1 * 1000) = Some y"
        using body e assms(1) unfolding eqs by (simp add: retry_decision_def)
      thus False using hyp by blast
    qed
  qed
  thus ?thesis by (metis option.exhaust)
qed

lemma stream_retry_loop_returns:
  assumes "0 < base_backoff p" "now \<le> window"
  shows "\<exists>r t. stream_retry_loop p mid window read call attempt retries waited now = Some (r, t) \<and>
     t \<le> window"
  using assms(2)
proof (induction "window - now" arbitrary: call attempt retries waited now rule: less_induct)
  case less
  note unf = stream_retry_loop.simps[of p mid window read call attempt retries waited now]
  obtain d r where rd: "read call = (d, r)" by (cases "read call")
  show ?case
  proof (cases "0 < window - now \<and> d \<le> window - now \<and>
      (\<exists>e. r = Inl e \<and> is_retryable_telegram_read_error e \<and>
         stream_retry_delay_us p attempt e < window - (now + d))")
    case True
    then obtain e where e: "r = Inl e" "is_retryable_telegram_read_error e" by blast
    let ?w = "stream_retry_delay_us p attempt e"
    have w: "?w < window - (now + d)" using True e by auto
    have pos: "0 < ?w"
      using backoff_pos[OF assms(1)] by (auto simp: stream_retry_delay_us_def split: option.splits)
    have "\<exists>r t. stream_retry_loop p mid window read (call + 1) (min (attempt + 1) (u32_modulus - 1))
        (saturating_add_u64 retries 1) (saturating_add_u64 waited ?w) (now + d + ?w) = Some (r, t) \<and>
        t \<le> window"
      by (rule less.hyps) (use w pos in auto)
    moreover have "min ?w (window - (now + d)) = ?w" "now + d < window" using w by simp_all
    ultimately show ?thesis using True e w rd by (simp add: unf Let_def)
  next
    case False
    thus ?thesis using less.prems rd
      by (cases r) (auto simp: unf Let_def min_def split: if_splits)
  qed
qed

section \<open>Properties\<close>


definition down_error :: ObjectFormatError where
  "down_error = Telegram (Rpc ''down'')"

lemma no_flood_wait_down [simp]: "no_flood_wait p (Inl down_error)"
proof -
  have "parse_flood_wait_seconds (retryable_error_text down_error) = None" by code_simp
  thus ?thesis by (simp add: no_flood_wait_def)
qed


text \<open>
  C34: a chunk read for a client stream always returns, with data or with an
  error, no later than the end of its recovery window, whatever the transport
  answers (flood limits of any length included) and however long its calls
  take, provided the configured backoff is not zero.
\<close>

theorem stream_read_returns_by_deadline:
  assumes "0 < base_backoff p"
  shows "\<exists>r t. retry_telegram_read_for_stream p mid window read = Some (r, t) \<and> t \<le> window"
  unfolding retry_telegram_read_for_stream_def
  by (rule stream_retry_loop_returns[OF assms]) simp

theorem stream_read_returns_by_deadline_witness:
  "\<exists>r t. retry_telegram_read_for_stream default_policy ''1'' 120000000
     (\<lambda>n. (5, Inl (Telegram (Rpc ''FLOOD_WAIT_30'')))) = Some (r, t) \<and> t \<le> 120000000"
  by (rule stream_read_returns_by_deadline) (simp add: default_policy_def new_policy_def)

text \<open>
  C35: the plain retrying read has no such bound. When the policy honours flood
  limits and Telegram answers every call with one, \<open>retry_telegram_read\<close> never
  returns: \<open>max_attempts\<close> does not apply to flood waits.
\<close>

theorem flood_limited_read_diverges:
  assumes "respect_flood_wait p"
    "\<And>n. \<exists>e secs. read n = Inl e \<and> is_retryable_telegram_read_error e \<and>
       parse_flood_wait_seconds (retryable_error_text e) = Some secs"
  shows "retry_telegram_read p read = None"
  unfolding retry_telegram_read_def by (rule flood_wait_never_returns[OF assms])

theorem flood_limited_read_diverges_witness:
  "retry_telegram_read default_policy (\<lambda>n. Inl (Telegram (Rpc ''FLOOD_WAIT_30''))) = None"
proof (rule flood_limited_read_diverges)
  have "parse_flood_wait_seconds (retryable_error_text (Telegram (Rpc ''FLOOD_WAIT_30''))) = Some 30"
    by (simp add: parse_flood_wait_seconds_def number_after_def parse_digits_u64_def
        digits_value_def is_ascii_digit_def u64_max_def)
  thus "\<exists>e secs. Inl (Telegram (Rpc ''FLOOD_WAIT_30'')) = (Inl e :: ObjectFormatError + byte list) \<and>
      is_retryable_telegram_read_error e \<and>
      parse_flood_wait_seconds (retryable_error_text e) = Some secs" for n :: nat
    by (auto simp: is_retryable_telegram_read_error_def)
qed (simp add: default_policy_def new_policy_def)

end
