(* ===== verification/Display.thy ===== *)
theory Display
  imports Errors
begin

text \<open>
  The \<open>Display\<close> text of the error enumerations, as their \<open>#[error(..)]\<close> attributes give it.
  The texts end up in the \<open>error\<close> columns, which later statements search.
\<close>

fun metadata_error_text :: "MetadataError \<Rightarrow> string" where
  "metadata_error_text (Sqlite s) = ''sqlite error: '' @ s"
| "metadata_error_text (M_Serde s) = ''serialization error: '' @ s"
| "metadata_error_text (M_Io s) = ''io error: '' @ s"
| "metadata_error_text (UnsupportedSchemaVersion n) = ''unsupported schema version '' @ show_nat n"
| "metadata_error_text (ManifestNotFound s) = ''manifest not found: '' @ s"
| "metadata_error_text (JournalNotFound s) = ''journal entry not found: '' @ s"
| "metadata_error_text (MultipartSessionNotFound s) = ''multipart session not found: '' @ s"
| "metadata_error_text (InvalidManifest s) = ''invalid manifest: '' @ s"
| "metadata_error_text (PreconditionFailed s) = ''precondition failed: '' @ s"
| "metadata_error_text (InvalidOperationKind s) = ''invalid operation kind: '' @ s"
| "metadata_error_text (BucketNotFound s) = ''bucket not found: '' @ s"
| "metadata_error_text (BucketAlreadyExists s) = ''bucket already exists: '' @ s"
| "metadata_error_text (BucketNotEmpty s) = ''bucket not empty: '' @ s"
| "metadata_error_text (FolderNotEmpty s) = ''folder not empty: '' @ s"
| "metadata_error_text ConnectionRemovalInProgress = ''a connection removal is already in progress''"
| "metadata_error_text (QuotaExceeded s) = ''account quota exceeded: '' @ s"
| "metadata_error_text Poisoned = ''metadata state is poisoned''"
| "metadata_error_text (TimeFormat s) = ''time formatting error: '' @ s"

fun config_error_text :: "ConfigError \<Rightarrow> string" where
  "config_error_text (Missing s) = s"
| "config_error_text (Invalid s) = ''invalid value for '' @ s"
| "config_error_text (Parse field v) = ''invalid value for '' @ field @ '': '' @ v"
| "config_error_text (PathUnsafe field path reason) =
     ''path '' @ path @ '' is unsafe for '' @ field @ '': '' @ reason"
| "config_error_text (UnsafePermissions field path reason) =
     ''path '' @ path @ '' has unsafe permissions for '' @ field @ '': '' @ reason"

text \<open>\<open>Debug\<close> of a field-less variant is its name.\<close>

fun login_failure_debug :: "LoginFailure \<Rightarrow> string" where
  "login_failure_debug LF_MissingCode = ''MissingCode''"
| "login_failure_debug LF_InvalidCode = ''InvalidCode''"
| "login_failure_debug LF_ExpiredCode = ''ExpiredCode''"
| "login_failure_debug LF_WrongPassword = ''WrongPassword''"
| "login_failure_debug LF_SignUpRequired = ''SignUpRequired''"
| "login_failure_debug SessionInvalid = ''SessionInvalid''"
| "login_failure_debug ProxyInvalid = ''ProxyInvalid''"

fun transport_error_text :: "TelegramTransportError \<Rightarrow> string" where
  "transport_error_text (T_Config e) = config_error_text e"
| "transport_error_text (T_Proxy e) = proxy_error_text e"
| "transport_error_text (T_Session s) = s"
| "transport_error_text (Rpc s) = ''Telegram RPC error: '' @ s"
| "transport_error_text (T_Login f) = ''Telegram login failed: '' @ login_failure_debug f"
| "transport_error_text (T_Io s) = ''io error: '' @ s"
| "transport_error_text (T_Metadata e) = metadata_error_text e"
| "transport_error_text (InvalidState s) = ''invalid session state: '' @ s"
| "transport_error_text InitializationPanic = ''telegram transport initialization failed''"

fun object_error_text :: "ObjectFormatError \<Rightarrow> string" where
  "object_error_text (OF_Config e) = config_error_text e"
| "object_error_text (Metadata e) = metadata_error_text e"
| "object_error_text (Telegram e) = transport_error_text e"
| "object_error_text (OF_Serde s) = s"
| "object_error_text (OF_Io s) = ''io error: '' @ s"
| "object_error_text (InvalidPlan s) = ''invalid upload plan: '' @ s"
| "object_error_text (InvalidBucketName s) = ''invalid bucket name: '' @ s"
| "object_error_text (InvalidRead s) = ''invalid read plan: '' @ s"
| "object_error_text (ChecksumMismatch scope expected actual) =
     ''checksum mismatch for '' @ scope @ '': expected '' @ expected @ '', got '' @ actual"
| "object_error_text (MissingChunk oid order) = ''missing chunk '' @ show_nat order @ '' for object '' @ oid"
| "object_error_text (OF_RecoveryRequired s) = ''bootstrap blocked: '' @ s"
| "object_error_text (InvalidChecksum s) = ''invalid checksum: '' @ s"
| "object_error_text ReceptionNotFound = ''resumable reception not found''"
| "object_error_text (ReceptionOffsetMismatch n) =
     ''resumable reception offset mismatch; server received '' @ show_nat n"
| "object_error_text ReceptionChunkTooLarge = ''resumable reception chunk exceeds the configured chunk size''"
| "object_error_text ReceptionChunkSizeMismatch =
     ''resumable reception chunks must fill the chunk size unless final''"
| "object_error_text ReceptionNotComplete = ''resumable reception is not complete''"

lemma retryable_text_is_display:
  "is_retryable_telegram_read_error e \<Longrightarrow> retryable_error_text e = object_error_text e"
  by (cases e rule: retryable_error_text.cases)
    (auto simp: is_retryable_telegram_read_error_def split: TelegramTransportError.splits ProxyError.splits)

end
