(* ===== verification/Publish.thy ===== *)
theory Publish
  imports Staging Retry Display
begin

text \<open>
  Publication of a queued upload (\<open>object_format/workflow.rs\<close>): the worker claims a job,
  sends every chunk file and then the manifest to Telegram, recording an attempt before and
  a checkpoint after each send, and commits the manifest.  \<open>remote\<close> is the documents of the
  storage chats by peer and message id.  The send itself is a parameter, with its effect on
  \<open>remote\<close>; so are the serialisation of a manifest, the fresh attempt ids and the clock,
  which is read at every step.  The renewal of the lease while a send runs
  (\<open>renew_transfer\<close>, in \<open>Transfers\<close>) is a separate step of the system.
\<close>

type_synonym remote = "string \<Rightarrow> int \<Rightarrow> byte list option"
type_synonym uploader = "byte list \<Rightarrow> string \<Rightarrow> remote \<Rightarrow> (ObjectFormatError + TelegramLocation) \<times> remote"

record publisher =
  pb_upload :: uploader
  pb_to_json :: "ObjectManifest \<Rightarrow> byte list"
  pb_parse_etag :: "string \<Rightarrow> ETagCondition option"
  pb_attempt :: "nat \<Rightarrow> string"
  pb_begin :: "nat \<Rightarrow> seconds"
  pb_finish :: "nat \<Rightarrow> seconds"
  pb_fence :: seconds
  pb_commit :: seconds
  pb_text :: string
  pb_utc :: instant

definition is_explicit_flood_wait :: "ObjectFormatError \<Rightarrow> bool" where
  "is_explicit_flood_wait e = (case e of Telegram (Rpc detail) \<Rightarrow> is_flood_wait_error detail | _ \<Rightarrow> False)"

definition FALLBACK_FLOOD_WAIT_SECONDS :: nat where "FALLBACK_FLOOD_WAIT_SECONDS = 60"

definition record_failed_send ::
  "publisher \<Rightarrow> string \<Rightarrow> string \<Rightarrow> nat \<Rightarrow> string \<Rightarrow> ObjectFormatError \<Rightarrow> store \<Rightarrow> store" where
  "record_failed_send pb jid lease order attempt e st =
     keep st (if is_explicit_flood_wait e
              then mark_send_attempt_retryable (pb_finish pb order) jid lease order attempt
                     ''telegram_flood_wait'' (object_error_text e) st
              else mark_send_attempt_unknown (pb_finish pb order) jid lease order attempt
                     ''telegram_send'' (object_error_text e) st)"

definition send_file ::
  "publisher \<Rightarrow> string \<Rightarrow> string \<Rightarrow> nat \<Rightarrow> byte list \<Rightarrow> node \<times> remote \<Rightarrow>
   (ObjectFormatError + TelegramLocation) \<times> node \<times> remote" where
  "send_file pb jid lease order bytes = (\<lambda>(nd, rm).
     (case begin_send_attempt (pb_begin pb order) (pb_attempt pb order) jid lease order (nd_store nd) of
        Inl e \<Rightarrow> (Inl (Metadata e), nd, rm)
      | Inr (attempt, st1) \<Rightarrow>
          (case pb_upload pb bytes (at_token attempt) rm of
             (Inl e, rm1) \<Rightarrow>
               (Inl e, nd\<lparr> nd_store := record_failed_send pb jid lease order (at_id attempt) e st1 \<rparr>, rm1)
           | (Inr location, rm1) \<Rightarrow>
               (case finish_send_attempt (pb_finish pb order) jid lease order (at_id attempt) location st1 of
                  Inl e \<Rightarrow> (Inl (Metadata e), nd\<lparr> nd_store := st1 \<rparr>, rm1)
                | Inr (_, st2) \<Rightarrow> (Inr location, nd\<lparr> nd_store := st2 \<rparr>, rm1)))))"

definition relocate :: "TelegramLocation \<Rightarrow> ChunkRef \<Rightarrow> ChunkRef" where
  "relocate l c = c\<lparr> ck_peer_id := loc_peer_id l, ck_message_id := loc_message_id l, ck_document_id := loc_document_id l \<rparr>"

definition checked_staged_file ::
  "ObjectFormatService \<Rightarrow> uuid \<Rightarrow> uuid \<Rightarrow> ChunkRef \<Rightarrow> node \<Rightarrow> ObjectFormatError + byte list" where
  "checked_staged_file sv oid operation c nd =
     bind_res (ok_or (OF_Io ''No such file or directory (os error 2)'') (nd_files nd operation (ck_order c))) (\<lambda>encrypted.
     bind_res (decrypt_chunk (os_crypto sv) (os_encryption sv) oid (ck_order c) encrypted) (\<lambda>plain.
       if sha256_hex (os_crypto sv) plain \<noteq> ck_checksum c
       then Inl (ChecksumMismatch (''chunk '' @ show_nat (ck_order c)) (ck_checksum c) (sha256_hex (os_crypto sv) plain))
       else Inr encrypted))"

definition publish_chunk ::
  "ObjectFormatService \<Rightarrow> publisher \<Rightarrow> string \<Rightarrow> string \<Rightarrow> uuid \<Rightarrow> uuid \<Rightarrow> ChunkRef \<Rightarrow> node \<times> remote \<Rightarrow>
   (ObjectFormatError + ChunkRef) \<times> node \<times> remote" where
  "publish_chunk sv pb jid lease oid operation c = (\<lambda>(nd, rm).
     (if references_remote_payload c then
        (if blank (ck_peer_id c) \<or> ck_message_id c \<le> 0
         then (Inl (InvalidPlan (''composed chunk '' @ show_nat (ck_order c) @ '' has no durable Telegram location'')), nd, rm)
         else (Inr c, nd, rm))
      else
        (case checkpoint_location jid (ck_order c) (nd_store nd) of
           Some location \<Rightarrow> (Inr (relocate location c), nd, rm)
         | None \<Rightarrow>
             (case checked_staged_file sv oid operation c nd of
                Inl e \<Rightarrow> (Inl e, nd, rm)
              | Inr encrypted \<Rightarrow>
                  (case send_file pb jid lease (ck_order c) encrypted (nd, rm) of
                     (Inl e, w) \<Rightarrow> (Inl e, w)
                   | (Inr location, w) \<Rightarrow> (Inr (relocate location c), w))))))"

fun publish_chunks ::
  "ObjectFormatService \<Rightarrow> publisher \<Rightarrow> string \<Rightarrow> string \<Rightarrow> uuid \<Rightarrow> uuid \<Rightarrow> ChunkRef list \<Rightarrow> node \<times> remote \<Rightarrow>
   (ObjectFormatError + ChunkRef list) \<times> node \<times> remote" where
  "publish_chunks sv pb jid lease oid operation [] w = (Inr [], w)"
| "publish_chunks sv pb jid lease oid operation (c # cs) w =
     (case publish_chunk sv pb jid lease oid operation c w of
        (Inl e, w1) \<Rightarrow> (Inl e, w1)
      | (Inr c', w1) \<Rightarrow>
          (case publish_chunks sv pb jid lease oid operation cs w1 of
             (Inl e, w2) \<Rightarrow> (Inl e, w2)
           | (Inr cs', w2) \<Rightarrow> (Inr (c' # cs'), w2)))"

text \<open>
  Cleaning of finished jobs: the staging directories of the job go, then its row becomes
  \<open>cleaned\<close>.  A directory that cannot be removed ends the loop; nothing reads the text of
  that error.
\<close>

definition job_directories :: "(string \<Rightarrow> string + uuid) \<Rightarrow> transfer_row \<Rightarrow> uuid list" where
  "job_directories parse_uuid j =
     remdups (List.map_filter (\<lambda>i. case parse_uuid i of Inl _ \<Rightarrow> None | Inr u \<Rightarrow> Some u)
       ((case tj_operation_id j of None \<Rightarrow> [] | Some op \<Rightarrow> [op]) @ [tj_object_id j]))"

fun clean_jobs ::
  "(string \<Rightarrow> string + uuid) \<Rightarrow> ObjectFormatService \<Rightarrow> transfer_row list \<Rightarrow> node \<Rightarrow> (ObjectFormatError + unit) \<times> node" where
  "clean_jobs parse_uuid sv [] nd = (Inr (), nd)"
| "clean_jobs parse_uuid sv (j # js) nd =
     (let dirs = job_directories parse_uuid j;
          nd1 = fold (remove_dir_all sv) (takeWhile (os_remove_dir sv) dirs) nd
      in if list_all (os_remove_dir sv) dirs
         then clean_jobs parse_uuid sv js (nd1\<lparr> nd_store := mark_cleaned (tj_id j) (nd_store nd1) \<rparr>)
         else (Inl (OF_Io ''Permission denied (os error 13)''), nd1))"

definition cleanup_completed_staging ::
  "(string \<Rightarrow> string + uuid) \<Rightarrow> ObjectFormatService \<Rightarrow> node \<Rightarrow> (ObjectFormatError + unit) \<times> node" where
  "cleanup_completed_staging parse_uuid sv nd =
     clean_jobs parse_uuid sv (transfers_for_local_cleanup 100 (nd_store nd)) nd"

definition publish_quota ::
  "transfer_row \<Rightarrow> ObjectManifest \<Rightarrow> store \<Rightarrow> MetadataError + unit" where
  "publish_quota job m st =
     (if (case multipart_job (tj_id job) st of Some (_, number) \<Rightarrow> 0 < number | None \<Rightarrow> False) then Inr ()
      else enforce_account_quota_in_transaction st (tj_connection_id job) (m_bucket m) (m_key m) (content_length m))"

definition publish_manifest_location ::
  "ObjectFormatService \<Rightarrow> publisher \<Rightarrow> string \<Rightarrow> string \<Rightarrow> uuid \<Rightarrow> ObjectManifest \<Rightarrow> node \<times> remote \<Rightarrow>
   (ObjectFormatError + TelegramLocation) \<times> node \<times> remote" where
  "publish_manifest_location sv pb jid lease operation m = (\<lambda>(nd, rm).
     (case os_write_manifest sv operation of
        Some e \<Rightarrow> (Inl e, nd, rm)
      | None \<Rightarrow>
          (case checkpoint_location jid manifest_order (nd_store nd) of
             Some location \<Rightarrow> (Inr location, nd, rm)
           | None \<Rightarrow> send_file pb jid lease manifest_order (pb_to_json pb m) (nd, rm))))"

definition publish_commit ::
  "publisher \<Rightarrow> string \<Rightarrow> string \<Rightarrow> uuid \<Rightarrow> ObjectManifest \<Rightarrow> store \<Rightarrow> (MetadataError + unit) \<times> store" where
  "publish_commit pb jid lease operation m st =
     (let commit = (case commit_transfer_manifest (pb_parse_etag pb) (pb_commit pb) (pb_text pb) operation jid lease m st of
            Inl e \<Rightarrow> (Inl e, st) | Inr (_, st1) \<Rightarrow> (Inr (), st1))
      in case multipart_job jid st of
           None \<Rightarrow> commit
         | Some (upload, number) \<Rightarrow>
             if number = 0 then commit
             else
               (let st1 = snd (update_manifest m st) in
                case finish_part_job (pb_parse_etag pb) (pb_commit pb) (pb_text pb) (pb_utc pb) jid lease upload number st1 of
                  Inl e \<Rightarrow> (Inl e, st1)
                | Inr (_, st2) \<Rightarrow> (Inr (), st2)))"

definition publish_transfer ::
  "(string \<Rightarrow> string + uuid) \<Rightarrow> ObjectFormatService \<Rightarrow> publisher \<Rightarrow> transfer_row \<Rightarrow> node \<times> remote \<Rightarrow>
   (ObjectFormatError + unit) \<times> node \<times> remote" where
  "publish_transfer parse_uuid sv pb job = (\<lambda>(nd, rm).
     (let jid = tj_id job; lease = (case tj_lease job of None \<Rightarrow> [] | Some l \<Rightarrow> l) in
      case map_err InvalidPlan (parse_uuid (tj_object_id job)) of
        Inl e \<Rightarrow> (Inl e, nd, rm)
      | Inr oid \<Rightarrow>
     (case map_err InvalidPlan (parse_uuid (case tj_operation_id job of None \<Rightarrow> [] | Some op \<Rightarrow> op)) of
        Inl e \<Rightarrow> (Inl e, nd, rm)
      | Inr operation \<Rightarrow>
     (case get_manifest oid (nd_store nd) of
        Inl e \<Rightarrow> (Inl (Metadata e), nd, rm)
      | Inr None \<Rightarrow> (Inl (InvalidPlan ''staged manifest missing''), nd, rm)
      | Inr (Some m) \<Rightarrow>
     (case publish_quota job m (nd_store nd) of
        Inl (QuotaExceeded s) \<Rightarrow>
          (Inl (Metadata (QuotaExceeded s)),
           nd\<lparr> nd_store := snd (reject_transfer_for_quota (pb_commit pb) jid (metadata_error_text (QuotaExceeded s)) (nd_store nd)) \<rparr>,
           rm)
      | Inl e \<Rightarrow> (Inl (Metadata e), nd, rm)
      | Inr _ \<Rightarrow>
     (case publish_chunks sv pb jid lease oid operation (chunks m) (nd, rm) of
        (Inl e, w) \<Rightarrow> (Inl e, w)
      | (Inr results, nd1, rm1) \<Rightarrow>
     (let m1 = m\<lparr> chunks := sort_key ck_order results, commit_state := Committed \<rparr> in
      case enter_committing (pb_fence pb) jid lease (nd_store nd1) of
        Inl e \<Rightarrow> (Inl (Metadata e), nd1, rm1)
      | Inr (_, st2) \<Rightarrow>
     (case publish_manifest_location sv pb jid lease operation m1 (nd1\<lparr> nd_store := st2 \<rparr>, rm1) of
        (Inl e, w) \<Rightarrow> (Inl e, w)
      | (Inr location, nd3, rm3) \<Rightarrow>
     (case publish_commit pb jid lease operation (m1\<lparr> telegram := location, commit_state := Staging \<rparr>) (nd_store nd3) of
        (Inl e, st4) \<Rightarrow> (Inl (Metadata e), nd3\<lparr> nd_store := st4 \<rparr>, rm3)
      | (Inr _, st4) \<Rightarrow>
          (Inr (), snd (cleanup_completed_staging parse_uuid sv (nd3\<lparr> nd_store := st4 \<rparr>)), rm3))))))))))"

section \<open>What a send leaves alone\<close>

definition same_objects :: "store \<Rightarrow> store \<Rightarrow> bool" where
  "same_objects st st' \<longleftrightarrow> app_settings st' = app_settings st \<and> object_manifests st' = object_manifests st \<and>
     active_objects st' = active_objects st \<and> operation_journal st' = operation_journal st \<and>
     multipart_jobs st' = multipart_jobs st"

lemma same_objects_refl [simp]: "same_objects st st"
  by (simp add: same_objects_def)

lemma same_objects_trans: "same_objects st st1 \<Longrightarrow> same_objects st1 st2 \<Longrightarrow> same_objects st st2"
  by (simp add: same_objects_def)

lemma same_objects_jobs_update: "same_objects st (jobs_update P f st)"
  by (simp add: same_objects_def jobs_update_def)

lemma same_objects_jobs_update_one: "jobs_update_one P f err st = Inr (u, st') \<Longrightarrow> same_objects st st'"
  by (auto simp: jobs_update_one_def same_objects_jobs_update split: if_splits)

lemma same_objects_begin_send:
  "begin_send_attempt now att jid lease order st = Inr (a, st') \<Longrightarrow> same_objects st st'"
  by (auto simp: begin_send_attempt_def same_objects_def split: if_splits)

lemma same_objects_finish_send:
  "finish_send_attempt now jid lease order att l st = Inr (u, st') \<Longrightarrow> same_objects st st'"
  by (auto simp: finish_send_attempt_def same_objects_def count_chunks_def jobs_update_def put_checkpoint_def
      attempts_update_def split: if_splits)

lemma begin_send_checkpoint:
  "begin_send_attempt now att jid lease order st = Inr (a, st') \<Longrightarrow> checkpoint_location i n st' = checkpoint_location i n st"
  by (auto simp: begin_send_attempt_def checkpoint_location_def split: if_splits)

lemma checkpoint_count_chunks [simp]: "checkpoint_location i n (count_chunks now jid st) = checkpoint_location i n st"
  by (simp add: count_chunks_def jobs_update_def checkpoint_location_def)

lemma checkpoint_attempts_update [simp]: "checkpoint_location i n (attempts_update P f st) = checkpoint_location i n st"
  by (simp add: attempts_update_def checkpoint_location_def)

lemma finish_send_checkpoint:
  "finish_send_attempt now jid lease order att l st = Inr (u, st') \<Longrightarrow>
   checkpoint_location i n st' = (if i = jid \<and> n = order then Some l else checkpoint_location i n st)"
  by (auto simp: finish_send_attempt_def checkpoint_put split: if_splits)

section \<open>What the transport promises\<close>

text \<open>
  A send that reports a location has stored the bytes there, under a message id that fits
  \<open>i32\<close>; no send changes a document that is already there.
\<close>

definition remote_le :: "remote \<Rightarrow> remote \<Rightarrow> bool" where
  "remote_le rm rm' \<longleftrightarrow> (\<forall>p i x. rm p i = Some x \<longrightarrow> rm' p i = Some x)"

definition delivers :: "uploader \<Rightarrow> bool" where
  "delivers up \<longleftrightarrow> (\<forall>b t rm. remote_le rm (snd (up b t rm)) \<and>
     (\<forall>l. fst (up b t rm) = Inr l \<longrightarrow>
        snd (up b t rm) (loc_peer_id l) (loc_message_id l) = Some b \<and>
        i32_message_id (loc_message_id l) = Some (loc_message_id l)))"

definition opens_sealed :: "crypto \<Rightarrow> bool" where
  "opens_sealed cr \<longleftrightarrow> (\<forall>k n a p c. aead_seal cr k n a p = Some c \<longrightarrow> aead_open cr k n a c = Some p)"

definition download_from :: "remote \<Rightarrow> string \<Rightarrow> int \<Rightarrow> ObjectFormatError + byte list" where
  "download_from rm peer i = ok_or (Telegram (Rpc ''message not found'')) (rm peer i)"

lemma remote_le_refl [simp]: "remote_le rm rm"
  by (simp add: remote_le_def)

lemma remote_le_trans: "remote_le a b \<Longrightarrow> remote_le b c \<Longrightarrow> remote_le a c"
  by (simp add: remote_le_def)

lemma delivers_Inr:
  assumes "delivers up" "up b t rm = (Inr l, rm')"
  shows "remote_le rm rm'" "rm' (loc_peer_id l) (loc_message_id l) = Some b"
    "i32_message_id (loc_message_id l) = Some (loc_message_id l)"
  using assms unfolding delivers_def by (metis fst_conv snd_conv)+

lemma decrypt_encrypt:
  assumes "opens_sealed cr" "encrypt_chunk cr enc oid i p = Inr ct"
  shows "decrypt_chunk cr enc oid i ct = Inr p"
  using assms by (auto simp: opens_sealed_def encrypt_chunk_def decrypt_chunk_def ok_or_Inr_iff)

section \<open>Sending the chunks\<close>

text \<open>The document at \<open>l\<close> is the sealed form of chunk \<open>i\<close>.\<close>

definition holds_chunk ::
  "ObjectFormatService \<Rightarrow> uuid \<Rightarrow> byte list list \<Rightarrow> remote \<Rightarrow> nat \<Rightarrow> TelegramLocation \<Rightarrow> bool" where
  "holds_chunk sv oid ps rm i l \<longleftrightarrow> i32_message_id (loc_message_id l) = Some (loc_message_id l) \<and>
     (\<exists>ct. rm (loc_peer_id l) (loc_message_id l) = Some ct \<and>
        encrypt_chunk (os_crypto sv) (os_encryption sv) oid i (ps ! i) = Inr ct)"

definition checkpoints_ok ::
  "ObjectFormatService \<Rightarrow> uuid \<Rightarrow> byte list list \<Rightarrow> string \<Rightarrow> node \<times> remote \<Rightarrow> bool" where
  "checkpoints_ok sv oid ps jid = (\<lambda>(nd, rm). \<forall>i l. i < length ps \<longrightarrow>
     checkpoint_location jid i (nd_store nd) = Some l \<longrightarrow> holds_chunk sv oid ps rm i l)"

lemma holds_chunk_mono: "holds_chunk sv oid ps rm i l \<Longrightarrow> remote_le rm rm' \<Longrightarrow> holds_chunk sv oid ps rm' i l"
  by (auto simp: holds_chunk_def remote_le_def)

lemma send_file_ok:
  assumes "delivers (pb_upload pb)" "send_file pb jid lease order bytes (nd, rm) = (Inr l, nd', rm')"
  shows "remote_le rm rm'" "rm' (loc_peer_id l) (loc_message_id l) = Some bytes"
    "i32_message_id (loc_message_id l) = Some (loc_message_id l)"
    "nd_files nd' = nd_files nd" "same_objects (nd_store nd) (nd_store nd')"
    "checkpoint_location i n (nd_store nd') =
       (if i = jid \<and> n = order then Some l else checkpoint_location i n (nd_store nd))"
proof -
  obtain a st1 st2 where s: "begin_send_attempt (pb_begin pb order) (pb_attempt pb order) jid lease order (nd_store nd) = Inr (a, st1)"
    "pb_upload pb bytes (at_token a) rm = (Inr l, rm')"
    "finish_send_attempt (pb_finish pb order) jid lease order (at_id a) l st1 = Inr ((), st2)"
    "nd' = nd\<lparr> nd_store := st2 \<rparr>"
    using assms(2) by (auto simp: send_file_def split: sum.splits prod.splits)
  note d = delivers_Inr[OF assms(1) s(2)]
  show "remote_le rm rm'" "rm' (loc_peer_id l) (loc_message_id l) = Some bytes"
    "i32_message_id (loc_message_id l) = Some (loc_message_id l)" by (rule d)+
  show "nd_files nd' = nd_files nd" by (simp add: s(4))
  show "same_objects (nd_store nd) (nd_store nd')"
    using same_objects_trans[OF same_objects_begin_send[OF s(1)] same_objects_finish_send[OF s(3)]] by (simp add: s(4))
  show "checkpoint_location i n (nd_store nd') =
       (if i = jid \<and> n = order then Some l else checkpoint_location i n (nd_store nd))"
    using finish_send_checkpoint[OF s(3), of i n] begin_send_checkpoint[OF s(1), of i n] by (simp add: s(4))
qed

text \<open>The state of a publication: nothing but jobs, attempts and checkpoints has changed.\<close>

definition publishing ::
  "ObjectFormatService \<Rightarrow> uuid \<Rightarrow> byte list list \<Rightarrow> string \<Rightarrow> node \<times> remote \<Rightarrow> node \<times> remote \<Rightarrow> bool" where
  "publishing sv oid ps jid w0 w \<longleftrightarrow> same_objects (nd_store (fst w0)) (nd_store (fst w)) \<and>
     nd_files (fst w) = nd_files (fst w0) \<and> remote_le (snd w0) (snd w) \<and> checkpoints_ok sv oid ps jid w"

lemma publish_chunk_ok:
  assumes d: "delivers (pb_upload pb)" and cr: "opens_sealed (os_crypto sv)"
    and "publish_chunk sv pb jid lease oid oid c w = (Inr c', w')"
    and inv: "publishing sv oid ps jid w0 w" and seal: "sealed sv oid ps (fst w0)"
    and c: "ck_order c < length ps" "source_object_id c = None"
  shows "publishing sv oid ps jid w0 w'" "remote_le (snd w) (snd w')"
    "\<exists>l. c' = relocate l c \<and> holds_chunk sv oid ps (snd w') (ck_order c) l"
proof -
  obtain nd rm where w: "w = (nd, rm)" by (cases w)
  have nref: "\<not> references_remote_payload c" using c(2) by (simp add: references_remote_payload_def)
  have all: "publishing sv oid ps jid w0 w' \<and> remote_le (snd w) (snd w') \<and>
      (\<exists>l. c' = relocate l c \<and> holds_chunk sv oid ps (snd w') (ck_order c) l)"
  proof (cases "checkpoint_location jid (ck_order c) (nd_store nd)")
    case (Some l)
    hence "c' = relocate l c" "w' = w" using assms(3) nref by (auto simp: publish_chunk_def w)
    moreover have "holds_chunk sv oid ps rm (ck_order c) l"
      using inv Some c(1) by (auto simp: publishing_def checkpoints_ok_def w)
    ultimately show ?thesis using inv by (auto simp: w)
  next
    case None
    obtain ct where stored: "nd_files nd oid (ck_order c) = Some ct"
      "encrypt_chunk (os_crypto sv) (os_encryption sv) oid (ck_order c) (ps ! ck_order c) = Inr ct"
      using seal inv c(1) by (auto simp: sealed_def publishing_def w)
    obtain enc where chk: "checked_staged_file sv oid oid c nd = Inr enc"
      using assms(3) nref None by (auto simp: publish_chunk_def w split: sum.splits)
    have "enc = ct"
      using chk stored by (auto simp: checked_staged_file_def result_simps split: if_splits)
    then obtain l where send1: "send_file pb jid lease (ck_order c) ct (nd, rm) = (Inr l, w')"
      and c': "c' = relocate l c"
      using assms(3) nref None chk by (auto simp: publish_chunk_def w split: sum.splits prod.splits)
    obtain nd' rm' where w': "w' = (nd', rm')" by (cases w')
    note send = send1[unfolded w'] and res = c' w'
    note ok = send_file_ok[OF d send]
    have here: "holds_chunk sv oid ps rm' (ck_order c) l"
      using ok(2,3) stored(2) by (simp add: holds_chunk_def)
    have "publishing sv oid ps jid w0 w'"
      using inv ok(1,4,5,6) here holds_chunk_mono[OF _ ok(1)]
      by (auto simp: publishing_def checkpoints_ok_def w res(2) split: if_splits
          intro: same_objects_trans remote_le_trans)
    thus ?thesis using here ok(1) res by (auto simp: w)
  qed
  thus "publishing sv oid ps jid w0 w'" "remote_le (snd w) (snd w')"
    "\<exists>l. c' = relocate l c \<and> holds_chunk sv oid ps (snd w') (ck_order c) l" by blast+
qed

definition published_as :: "ObjectFormatService \<Rightarrow> uuid \<Rightarrow> byte list list \<Rightarrow> remote \<Rightarrow> ChunkRef \<Rightarrow> ChunkRef \<Rightarrow> bool" where
  "published_as sv oid ps rm c c' \<longleftrightarrow> (\<exists>l. c' = relocate l c \<and> holds_chunk sv oid ps rm (ck_order c) l)"

lemma published_as_mono: "published_as sv oid ps rm c c' \<Longrightarrow> remote_le rm rm' \<Longrightarrow> published_as sv oid ps rm' c c'"
  by (auto simp: published_as_def intro: holds_chunk_mono)

lemma publish_chunks_ok:
  assumes d: "delivers (pb_upload pb)" and cr: "opens_sealed (os_crypto sv)"
    and "publish_chunks sv pb jid lease oid oid cs w = (Inr cs', w')"
    and "publishing sv oid ps jid w0 w" and seal: "sealed sv oid ps (fst w0)"
    and "\<forall>c \<in> set cs. ck_order c < length ps \<and> source_object_id c = None"
  shows "publishing sv oid ps jid w0 w' \<and> remote_le (snd w) (snd w') \<and>
    list_all2 (published_as sv oid ps (snd w')) cs cs'"
  using assms(3,4,6)
proof (induction cs arbitrary: w cs')
  case (Cons c cs)
  obtain c1 w1 cs1 where one: "publish_chunk sv pb jid lease oid oid c w = (Inr c1, w1)"
    and rest: "publish_chunks sv pb jid lease oid oid cs w1 = (Inr cs1, w')" "cs' = c1 # cs1"
    using Cons.prems(1) by (auto split: sum.splits prod.splits)
  have c: "ck_order c < length ps" "source_object_id c = None" using Cons.prems(3) by simp_all
  note o = publish_chunk_ok[OF d cr one Cons.prems(2) seal c]
  have ih: "publishing sv oid ps jid w0 w' \<and> remote_le (snd w1) (snd w') \<and>
      list_all2 (published_as sv oid ps (snd w')) cs cs1"
    using Cons.IH[OF rest(1) o(1)] Cons.prems(3) by simp
  have "published_as sv oid ps (snd w') c c1"
    using o(3) ih published_as_mono unfolding published_as_def[of sv oid ps "snd w1"]
    by (metis published_as_def)
  thus ?case using ih o(2) rest(2) remote_le_trans by auto
qed simp


section \<open>Reading what was published\<close>

lemma relocate_fields [simp]:
  "ck_order (relocate l c) = ck_order c" "ck_offset (relocate l c) = ck_offset c" "ck_size (relocate l c) = ck_size c"
  "ck_checksum (relocate l c) = ck_checksum c" "source_object_id (relocate l c) = source_object_id c"
  "source_chunk_order (relocate l c) = source_chunk_order c" "ck_peer_id (relocate l c) = loc_peer_id l"
  "ck_message_id (relocate l c) = loc_message_id l"
  by (simp_all add: relocate_def)

lemma published_fields:
  assumes "published_as sv oid ps rm c c'"
  shows "ck_size c' = ck_size c" "ck_checksum c' = ck_checksum c" "ck_order c' = ck_order c" "ck_offset c' = ck_offset c"
  using assms by (auto simp: published_as_def)

lemma published_chunks_fields:
  assumes "list_all2 (published_as sv oid ps rm) cs cs'"
  shows "map ck_size cs' = map ck_size cs \<and> map ck_checksum cs' = map ck_checksum cs \<and> map ck_order cs' = map ck_order cs"
    "contiguous_from off cs' = contiguous_from off cs" "orders_from i cs' = orders_from i cs"
  using assms
proof (induction cs cs' arbitrary: off i rule: list_all2_induct)
  case (Cons c cs c' cs')
  note f = published_fields[OF Cons.hyps(1)]
  { case 1 show ?case using Cons.IH(1) f by simp }
  { case 2 show ?case using Cons.IH(2) f by simp }
  { case 3 show ?case using Cons.IH(3) f by simp }
qed simp_all

lemma orders_from_sorted:
  assumes "orders_from 0 cs" "length cs \<le> u32_modulus"
  shows "map ck_order cs = [0..<length cs]"
proof (rule nth_equalityI)
  fix i assume "i < length (map ck_order cs)"
  thus "map ck_order cs ! i = [0..<length cs] ! i"
    using orders_from_nth[OF assms(1), of i] assms(2) by simp
qed simp

lemma describes_published:
  assumes "describes cr m ps" "list_all2 (published_as sv oid ps rm) (chunks m) cs'"
    "chunks m' = cs'" "content_length m' = content_length m"
  shows "describes cr m' ps" "sort_key ck_order cs' = cs'"
proof -
  note f = published_chunks_fields[OF assms(2)]
  have d: "contiguous_from 0 (chunks m)" "orders_from 0 (chunks m)" "length ps \<le> u32_modulus"
    "content_length m = total_size (chunks m)" "content_length m \<le> u64_max"
    "map ck_size (chunks m) = map length ps" "map ck_checksum (chunks m) = map (sha256_hex cr) ps"
    using assms(1) by (simp_all add: describes_def)
  show "describes cr m' ps"
    unfolding describes_def using d f assms(3,4) by (simp add: total_size_def)
  have "length (chunks m) = length ps" using map_eq_imp_length_eq[OF d(6)] .
  hence "map ck_order cs' = [0..<length (chunks m)]"
    using f(1) orders_from_sorted[OF d(2)] d(3) by simp
  thus "sort_key ck_order cs' = cs'" by (intro sort_key_id_if_sorted) simp
qed

lemma published_chunk_reads:
  assumes cr: "opens_sealed (os_crypto sv)" and d: "describes (os_crypto sv) m ps"
    and pub: "list_all2 (published_as sv oid ps rm) cs (chunks m)"
    and src: "\<forall>c \<in> set cs. source_object_id c = None \<and> source_chunk_order c = None"
    and m: "m_object_id m = oid" "enc_enabled (encryption m)"
    and c: "c \<in> set (chunks m)"
  shows "read_manifest_chunk (os_crypto sv) (os_encryption sv) (download_from rm) m c = Inr (ps ! ck_order c)"
proof -
  obtain c0 l where c0: "c0 \<in> set cs" "c = relocate l c0" "holds_chunk sv oid ps rm (ck_order c0) l"
    using pub c by (metis list_all2_conv_all_nth in_set_conv_nth published_as_def)
  obtain ct where ct: "rm (loc_peer_id l) (loc_message_id l) = Some ct"
    "encrypt_chunk (os_crypto sv) (os_encryption sv) oid (ck_order c) (ps ! ck_order c) = Inr ct"
    using c0 by (auto simp: holds_chunk_def)
  have idn: "payload_identity c (m_object_id m) = (oid, ck_order c)"
    using c0 src m(1) by (auto simp: payload_identity_def)
  have "i32_message_id (ck_message_id c) = Some (loc_message_id l)"
    using c0(2,3) by (simp add: holds_chunk_def)
  thus ?thesis
    using c0(2) ct(1) decrypt_encrypt[OF cr ct(2)] idn m(2) describes_chunk(4)[OF d c]
    by (simp add: read_manifest_chunk_def download_from_def open_payload_def)
qed

section \<open>Committing\<close>

lemma clean_jobs_objects: "same_objects (nd_store nd) (nd_store (snd (clean_jobs parse_uuid sv js nd)))"
proof (induction js arbitrary: nd)
  case (Cons j js)
  have fold: "nd_store (fold (remove_dir_all sv) ds nd) = nd_store nd" for ds nd
    by (induction ds arbitrary: nd) (simp_all add: remove_dir_all_def)
  have "same_objects st (mark_cleaned i st)" for i st
    by (simp add: mark_cleaned_def same_objects_jobs_update)
  thus ?case
    using same_objects_trans[OF _ Cons.IH] by (simp add: Let_def fold)
qed simp

lemma same_objects_lookup:
  assumes "same_objects st st'"
  shows "get_manifest oid st' = get_manifest oid st" "manifest_row_of st' oid = manifest_row_of st oid"
    "load_journal_entry st' op = load_journal_entry st op" "active_connection_id st' = active_connection_id st"
    "get_active_manifest b k st' = get_active_manifest b k st" "multipart_job jid st' = multipart_job jid st"
    "load_manifest_by_object_id st' oid = load_manifest_by_object_id st oid"
  using assms
  by (simp_all add: same_objects_def get_manifest_def load_manifest_by_object_id_def manifest_row_of_def
      load_journal_entry_def active_connection_id_def get_active_manifest_def active_object_id_def multipart_job_def
      cong: if_cong option.case_cong)

lemma commit_makes_active:
  assumes "commit_transfer_manifest parse_etag now ts op jid lease m st = Inr (m', st')"
    and j: "load_journal_entry st op = Some journal" "jd_state journal \<noteq> ''committed''"
    and row: "manifest_row_of st (m_object_id m) = Some r" "om_connection_id r = active_connection_id st"
  shows "get_active_manifest (m_bucket m) (m_key m) st' = Inr (Some (m\<lparr> commit_state := Committed \<rparr>))"
proof -
  note s = commit_transfer_steps[OF assms(1) j]
  obtain stored where "load_manifest_by_object_id st (m_object_id m) = Inr (Some stored)" using s(6) by blast
  from manifest_row_commit[OF this, of m' ts op journal] s(1) row(1)
  have row': "manifest_row_of st' (m_object_id m) =
      Some (r\<lparr> om_commit_state := Committed, om_manifest := m', om_committed_at := Some ts, om_tombstoned_at := None \<rparr>)"
    by (auto simp: manifest_row_of_def s(5))
  obtain st1 completion where c: "commit_transfer_job now op (Some (jid, lease)) (commit_index ts op journal m' st) = Inr ((), st1)"
      "close_completion now m' completion st1 = Inr ((), st')"
    by (rule commit_steps[OF assms(1)[unfolded commit_transfer_manifest_def] j]) blast
  have "app_settings st' = app_settings st"
    using close_completion_other(9)[OF c(2)] commit_transfer_job_other(3)[OF c(1)] by (simp add: commit_index_def)
  hence conn: "active_connection_id st' = active_connection_id st" by (simp add: active_connection_id_def)
  have "active_object_id st' (m_bucket m) (m_key m) = Some (m_object_id m)"
    unfolding active_object_id_def s(4) active_key_put_active by simp
  moreover have "load_manifest_by_object_id st' (m_object_id m) = Inr (Some (m\<lparr> commit_state := Committed \<rparr>))"
    using row' s(1,2) by (simp add: load_manifest_by_object_id_def manifest_row_of_def)
  ultimately show ?thesis using row' row(2) conn by (simp add: get_active_manifest_def)
qed


section \<open>A successful publication\<close>

lemma publish_manifest_location_ok:
  assumes "delivers (pb_upload pb)" "publish_manifest_location sv pb jid lease op m (nd, rm) = (Inr l, nd', rm')"
  shows "remote_le rm rm'" "same_objects (nd_store nd) (nd_store nd')"
proof -
  have "(nd', rm') = (nd, rm) \<or> send_file pb jid lease manifest_order (pb_to_json pb m) (nd, rm) = (Inr l, nd', rm')"
    using assms(2) by (auto simp: publish_manifest_location_def split: option.splits)
  thus "remote_le rm rm'" "same_objects (nd_store nd) (nd_store nd')"
    using send_file_ok(1,5)[OF assms(1)] by auto
qed

lemma publish_transfer_steps:
  assumes "publish_transfer parse_uuid sv pb job (nd, rm) = (Inr u, nd', rm')"
    "parse_uuid (tj_object_id job) = Inr oid" "tj_operation_id job = Some op" "parse_uuid op = Inr operation"
    "get_manifest oid (nd_store nd) = Inr (Some m)" "tj_lease job = Some lease"
  obtains results nd1 rm1 st2 location nd3 st4 where
    "publish_quota job m (nd_store nd) = Inr ()"
    "publish_chunks sv pb (tj_id job) lease oid operation (chunks m) (nd, rm) = (Inr results, nd1, rm1)"
    "enter_committing (pb_fence pb) (tj_id job) lease (nd_store nd1) = Inr ((), st2)"
    "publish_manifest_location sv pb (tj_id job) lease operation
       (m\<lparr> chunks := sort_key ck_order results, commit_state := Committed \<rparr>) (nd1\<lparr> nd_store := st2 \<rparr>, rm1) =
       (Inr location, nd3, rm')"
    "publish_commit pb (tj_id job) lease operation
       (m\<lparr> chunks := sort_key ck_order results, telegram := location, commit_state := Staging \<rparr>) (nd_store nd3) =
       (Inr (), st4)"
    "nd' = snd (cleanup_completed_staging parse_uuid sv (nd3\<lparr> nd_store := st4 \<rparr>))"
proof -
  note p = assms(1)[unfolded publish_transfer_def, simplified assms map_err_simps Let_def prod.case sum.case option.case]
  have q: "publish_quota job m (nd_store nd) = Inr ()"
  proof (cases "publish_quota job m (nd_store nd)")
    case (Inl e)
    thus ?thesis using p by (cases e) auto
  qed auto
  obtain rc w1 where chunks: "publish_chunks sv pb (tj_id job) lease oid operation (chunks m) (nd, rm) = (rc, w1)"
    by (cases "publish_chunks sv pb (tj_id job) lease oid operation (chunks m) (nd, rm)") auto
  obtain nd1 rm1 where w1: "w1 = (nd1, rm1)" by (cases w1)
  note p1 = p[simplified q chunks w1 prod.case sum.case]
  obtain results where rc: "rc = Inr results" using p1 by (cases rc) auto
  note p2 = p1[simplified rc prod.case sum.case]
  obtain st2 where fence: "enter_committing (pb_fence pb) (tj_id job) lease (nd_store nd1) = Inr ((), st2)"
    using p2 by (cases "enter_committing (pb_fence pb) (tj_id job) lease (nd_store nd1)") auto
  note p3 = p2[simplified fence prod.case sum.case]
  let ?m1 = "m\<lparr> chunks := sort_key ck_order results, commit_state := Committed \<rparr>"
  obtain rl w3 where loc: "publish_manifest_location sv pb (tj_id job) lease operation ?m1 (nd1\<lparr> nd_store := st2 \<rparr>, rm1) = (rl, w3)"
    by (cases "publish_manifest_location sv pb (tj_id job) lease operation ?m1 (nd1\<lparr> nd_store := st2 \<rparr>, rm1)") auto
  obtain nd3 rm3 where w3: "w3 = (nd3, rm3)" by (cases w3)
  note p4 = p3[simplified loc w3 prod.case]
  obtain location where rl: "rl = Inr location" using p4 by (cases rl) auto
  note p5 = p4[simplified rl prod.case sum.case]
  let ?m2 = "m\<lparr> chunks := sort_key ck_order results, telegram := location, commit_state := Staging \<rparr>"
  obtain r4 st4 where com: "publish_commit pb (tj_id job) lease operation ?m2 (nd_store nd3) = (r4, st4)"
    by (cases "publish_commit pb (tj_id job) lease operation ?m2 (nd_store nd3)") auto
  have r4: "r4 = Inr ()" using p5 com by (cases r4) auto
  have fin: "nd' = snd (cleanup_completed_staging parse_uuid sv (nd3\<lparr> nd_store := st4 \<rparr>))" "rm' = rm3"
    using p5 com r4 by auto
  show thesis
    by (rule that[OF q chunks[unfolded rc w1] fence loc[unfolded rl w3 fin(2)[symmetric]] com[unfolded r4] fin(1)])
qed

text \<open>
  After a publication the key resolves to a committed manifest that describes the same chunks,
  and the document of each chunk opens to its plaintext.
\<close>

lemma published_manifest:
  assumes pub: "publish_transfer parse_uuid sv pb job (nd, rm) = (Inr u, nd', rm')"
    and job: "parse_uuid (tj_object_id job) = Inr oid" "tj_operation_id job = Some oid" "parse_uuid oid = Inr oid"
      "tj_lease job = Some lease"
    and m: "get_manifest oid (nd_store nd) = Inr (Some m)" "m_object_id m = oid" "enc_enabled (encryption m)"
      "\<forall>c \<in> set (chunks m). source_object_id c = None \<and> source_chunk_order c = None"
    and row: "manifest_row_of (nd_store nd) oid = Some r" "om_connection_id r = active_connection_id (nd_store nd)"
    and journal: "load_journal_entry (nd_store nd) oid = Some entry" "jd_state entry \<noteq> ''committed''"
    and object: "multipart_job (tj_id job) (nd_store nd) = None"
    and staged: "describes (os_crypto sv) m ps" "sealed sv oid ps nd" "checkpoints_ok sv oid ps (tj_id job) (nd, rm)"
    and laws: "delivers (pb_upload pb)" "opens_sealed (os_crypto sv)"
  obtains m' where "get_active_manifest (m_bucket m) (m_key m) (nd_store nd') = Inr (Some m')"
    "commit_state m' = Committed" "expires_at m' = expires_at m" "content_length m' = content_length m"
    "describes (os_crypto sv) m' ps"
    "\<forall>c \<in> set (chunks m'). read_manifest_chunk (os_crypto sv) (os_encryption sv) (download_from rm') m' c = Inr (ps ! ck_order c)"
proof -
  obtain results nd1 rm1 st2 location nd3 st4 where s:
    "publish_chunks sv pb (tj_id job) lease oid oid (chunks m) (nd, rm) = (Inr results, nd1, rm1)"
    "enter_committing (pb_fence pb) (tj_id job) lease (nd_store nd1) = Inr ((), st2)"
    "publish_manifest_location sv pb (tj_id job) lease oid
       (m\<lparr> chunks := sort_key ck_order results, commit_state := Committed \<rparr>) (nd1\<lparr> nd_store := st2 \<rparr>, rm1) =
       (Inr location, nd3, rm')"
    "publish_commit pb (tj_id job) lease oid
       (m\<lparr> chunks := sort_key ck_order results, telegram := location, commit_state := Staging \<rparr>) (nd_store nd3) =
       (Inr (), st4)"
    "nd' = snd (cleanup_completed_staging parse_uuid sv (nd3\<lparr> nd_store := st4 \<rparr>))"
    by (rule publish_transfer_steps[OF pub job(1,2,3) m(1) job(4)])
  have orders: "\<forall>c \<in> set (chunks m). ck_order c < length ps \<and> source_object_id c = None"
    using describes_chunk(1)[OF staged(1)] m(4) staged(1) map_eq_imp_length_eq[of ck_size "chunks m" length ps]
    by (auto simp: describes_def)
  have "publishing sv oid ps (tj_id job) (nd, rm) (nd, rm)" using staged(3) by (simp add: publishing_def)
  hence chunks_ok: "publishing sv oid ps (tj_id job) (nd, rm) (nd1, rm1)"
    "list_all2 (published_as sv oid ps rm1) (chunks m) results"
    using publish_chunks_ok[OF laws s(1) _ _ orders, of "(nd, rm)"] staged(2) by simp_all
  have same1: "same_objects (nd_store nd) (nd_store nd1)" using chunks_ok(1) by (simp add: publishing_def)
  note same2 = same_objects_jobs_update_one[OF s(2)[unfolded enter_committing_def]]
  note loc = publish_manifest_location_ok[OF laws(1) s(3)]
  have same: "same_objects (nd_store nd) (nd_store nd3)"
    using same_objects_trans[OF same_objects_trans[OF same1 same2]] loc(2) by simp
  note look = same_objects_lookup[OF same]
  have pub': "list_all2 (published_as sv oid ps rm') (chunks m) results"
    using chunks_ok(2) by (rule list_all2_mono) (rule published_as_mono[OF _ loc(1)])
  define m2 where "m2 = m\<lparr> chunks := results, telegram := location, commit_state := Staging \<rparr>"
  have sorted: "sort_key ck_order results = results"
    by (rule describes_published(2)[OF staged(1) chunks_ok(2), of "m\<lparr> chunks := results \<rparr>"]) simp_all
  obtain m3 where "commit_transfer_manifest (pb_parse_etag pb) (pb_commit pb) (pb_text pb) oid (tj_id job) lease m2 (nd_store nd3) =
      Inr (m3, st4)"
    using s(4) object look(6) by (auto simp: publish_commit_def Let_def sorted m2_def[symmetric] split: sum.splits)
  hence act: "get_active_manifest (m_bucket m2) (m_key m2) st4 = Inr (Some (m2\<lparr> commit_state := Committed \<rparr>))"
    by (rule commit_makes_active) (use look row journal m(2) in \<open>simp_all add: m2_def\<close>)
  let ?m' = "m2\<lparr> commit_state := Committed \<rparr>"
  have d': "describes (os_crypto sv) ?m' ps"
    by (rule describes_published(1)[OF staged(1) pub']) (simp_all add: m2_def)
  have "same_objects st4 (nd_store nd')"
    using clean_jobs_objects[of "nd3\<lparr> nd_store := st4 \<rparr>"] by (simp add: s(5) cleanup_completed_staging_def)
  hence act': "get_active_manifest (m_bucket m) (m_key m) (nd_store nd') = Inr (Some ?m')"
    using same_objects_lookup(5) act by (simp add: m2_def)
  have reads: "\<forall>c \<in> set (chunks ?m'). read_manifest_chunk (os_crypto sv) (os_encryption sv) (download_from rm') ?m' c =
      Inr (ps ! ck_order c)"
  proof
    fix c assume "c \<in> set (chunks ?m')"
    thus "read_manifest_chunk (os_crypto sv) (os_encryption sv) (download_from rm') ?m' c = Inr (ps ! ck_order c)"
      using published_chunk_reads[OF laws(2) d', of oid rm' "chunks m" c] pub' m(2,3,4) by (simp add: m2_def)
  qed
  show thesis by (rule that[OF act' _ _ _ d' reads]) (simp_all add: m2_def)
qed

end
