(* ===== verification/End_To_End.thy ===== *)
theory End_To_End
  imports Publish
begin

text \<open>
  Reception, claim, publication and read composed: what a client stores is what a client
  reads.
\<close>

section \<open>What a reception leaves alone\<close>

definition admitted :: "store \<Rightarrow> store \<Rightarrow> bool" where
  "admitted st st' \<longleftrightarrow> app_settings st' = app_settings st \<and> transfer_chunks st' = transfer_chunks st \<and>
     multipart_jobs st' = multipart_jobs st \<and> (jobs_wf st \<longrightarrow> jobs_wf st')"

lemma admitted_refl [simp]: "admitted st st"
  by (simp add: admitted_def)

lemma admitted_trans: "admitted st st1 \<Longrightarrow> admitted st1 st2 \<Longrightarrow> admitted st st2"
  by (simp add: admitted_def)

lemma jobs_update_one_rest:
  assumes "jobs_update_one P f err st = Inr (u, st')"
  shows "app_settings st' = app_settings st" "transfer_chunks st' = transfer_chunks st"
    "multipart_jobs st' = multipart_jobs st" "operation_journal st' = operation_journal st"
    "object_manifests st' = object_manifests st"
  using assms by (auto simp: jobs_update_one_def jobs_update_def split: if_splits)

lemma admitted_reserve:
  assumes "reserve_staging now jid n budget st = Inr (u, st')"
  shows "admitted st st'"
  using jobs_update_one_rest[OF reserve_staging_update[OF assms]] jobs_wf_admission(1)[OF _ assms]
  by (simp add: admitted_def)

lemma admitted_conditionals:
  assumes "set_transfer_conditionals now jid c st = Inr (u, st')"
  shows "admitted st st'"
  using jobs_update_one_rest[OF assms[unfolded set_transfer_conditionals_def]] jobs_wf_admission(3)[OF _ assms]
  by (simp add: admitted_def)

lemma admitted_queue:
  assumes "queue_transfer now jid op n st = Inr (u, st')"
  shows "admitted st st'"
  using jobs_update_one_rest[OF assms[unfolded queue_transfer_def]] jobs_wf_admission(2)[OF _ assms]
  by (simp add: admitted_def)

lemma admitted_begin:
  assumes "begin_transfer now jid b k st = Inr (i, st')"
  shows "admitted st st'"
proof -
  have "app_settings st' = app_settings st" "transfer_chunks st' = transfer_chunks st"
    "multipart_jobs st' = multipart_jobs st"
    using assms by (auto simp: begin_transfer_def split: if_splits)
  thus ?thesis using jobs_wf_begin_transfer[OF _ assms] by (simp add: admitted_def)
qed

lemma admitted_chunk:
  assumes "stage_transfer_chunk sv now oid bytes sg nd = (r, sg', nd')"
  shows "admitted (nd_store nd) (nd_store nd')"
  using stage_chunk_store[OF assms] admitted_reserve by auto

lemma admitted_all:
  "stage_all sv now oid bs sg nd = (r, sg', nd') \<Longrightarrow> admitted (nd_store nd) (nd_store nd')"
proof (induction bs arbitrary: sg nd)
  case (Cons b bs)
  obtain r1 sg1 nd1 where one: "stage_transfer_chunk sv now oid b sg nd = (r1, sg1, nd1)"
    by (cases "stage_transfer_chunk sv now oid b sg nd") auto
  note a = admitted_chunk[OF one]
  show ?case
  proof (cases r1)
    case (Inl e)
    thus ?thesis using Cons.prems one a by simp
  next
    case (Inr u)
    thus ?thesis using Cons.prems one admitted_trans[OF a Cons.IH] by simp
  qed
qed simp

lemma admitted_body:
  assumes "receive_body sv now oid frames interrupted nd = Some (r, sg, nd')"
  shows "admitted (nd_store nd) (nd_store nd')"
proof -
  obtain full pending where fill: "fill_frames (os_chunk_size sv) [] frames [] = Some (full, pending)"
    using assms by (auto simp: receive_body_def split: option.splits)
  obtain r1 sg1 nd1 where all: "stage_all sv now oid full empty_staging nd = (r1, sg1, nd1)"
    by (cases "stage_all sv now oid full empty_staging nd") auto
  note a = admitted_all[OF all]
  have "(r, sg, nd') = (r, sg, nd1) \<or> stage_transfer_chunk sv now oid pending sg1 nd1 = (r, sg, nd')"
    using assms fill all by (auto simp: receive_body_def split: sum.splits if_splits)
  thus ?thesis using a admitted_trans[OF a admitted_chunk] by auto
qed

lemma find_upsert_journal:
  "load_journal_entry (put_journal_row ts d st) (jd_operation_id d) = Some d"
proof -
  let ?r = "\<lparr> oj_operation_id = jd_operation_id d, oj_object_id = jd_object_id d, oj_bucket = jd_bucket d,
      oj_key = jd_key d, oj_kind = jd_kind d, oj_state = ''staging'', oj_details = d,
      oj_error = None, oj_created_at = ts, oj_updated_at = ts \<rparr>"
  obtain f where rows: "operation_journal (put_journal_row ts d st) = upsert oj_operation_id ?r f (operation_journal st)"
    and f: "\<And>e. oj_operation_id (f e) = oj_operation_id e" "\<And>e. oj_details (f e) = d"
    by (simp add: put_journal_row_def)
  have "find (\<lambda>e. oj_operation_id e = jd_operation_id d) (upsert oj_operation_id ?r f (operation_journal st)) =
      (case find (\<lambda>e. oj_operation_id e = jd_operation_id d) (operation_journal st) of None \<Rightarrow> Some ?r | Some z \<Rightarrow> Some (f z))"
    by (subst find_upsert) (simp_all add: f)
  thus ?thesis
    unfolding load_journal_entry_def rows by (auto simp: f split: option.splits)
qed


lemma stage_manifest_tables:
  assumes "stage_manifest ts Put m st = Inr (op, st')"
  shows "admitted st st'" "\<exists>d. load_journal_entry st' (m_object_id m) = Some d \<and> jd_state d = ''staging''"
    "\<exists>r. manifest_row_of st' (m_object_id m) = Some r \<and> om_connection_id r = active_connection_id st \<and>
       om_manifest r = m\<lparr> commit_state := Staging \<rparr>"
proof -
  define d where "d = \<lparr> jd_operation_id = m_object_id m, jd_object_id = m_object_id m, jd_bucket = m_bucket m,
     jd_key = m_key m, jd_kind = Put, jd_state = ''staging'', jd_reason = None \<rparr>"
  have st': "st' = ensure_recovery_marker ts d (put_journal_row ts d (put_manifest_row ts m st))"
    using assms by (auto simp: stage_manifest_def result_simps Let_def d_def)
  have tables: "app_settings st' = app_settings st" "transfer_chunks st' = transfer_chunks st"
    "multipart_jobs st' = multipart_jobs st" "transfer_jobs st' = transfer_jobs st"
    "transfer_sequence st' = transfer_sequence st" "send_attempts st' = send_attempts st"
    "operation_journal st' = operation_journal (put_journal_row ts d (put_manifest_row ts m st))"
    "object_manifests st' = object_manifests (put_manifest_row ts m st)"
    by (simp_all add: st' ensure_recovery_marker_def put_marker_def put_journal_row_def put_manifest_row_def Let_def)
  show "admitted st st'" using tables jobs_wf_cong[of st' st] by (simp add: admitted_def)
  show "\<exists>d. load_journal_entry st' (m_object_id m) = Some d \<and> jd_state d = ''staging''"
    using find_upsert_journal[of ts d "put_manifest_row ts m st"]
    by (intro exI[of _ d]) (simp add: load_journal_entry_def tables(7) d_def)
  show "\<exists>r. manifest_row_of st' (m_object_id m) = Some r \<and> om_connection_id r = active_connection_id st \<and>
       om_manifest r = m\<lparr> commit_state := Staging \<rparr>"
    using find_upsert_row[of om_object_id "\<lparr> om_object_id = m_object_id m, om_connection_id = active_connection_id st,
       om_bucket = m_bucket m, om_key = m_key m, om_version_id = version_id m,
       om_commit_state = Staging, om_manifest = m\<lparr> commit_state := Staging \<rparr>,
       om_created_at = ts, om_committed_at = None, om_tombstoned_at = None \<rparr>" "object_manifests st"]
    by (simp add: manifest_row_of_def tables(8) put_manifest_row_def Let_def)
qed

definition accepted_tables :: "uuid \<Rightarrow> instant option \<Rightarrow> store \<Rightarrow> bool" where
  "accepted_tables oid expires st \<longleftrightarrow>
     (\<exists>d. load_journal_entry st oid = Some d \<and> jd_state d = ''staging'') \<and>
     (\<exists>r. manifest_row_of st oid = Some r \<and> om_connection_id r = active_connection_id st \<and>
        expires_at (om_manifest r) = expires)"

lemma finalize_accepted:
  assumes "finalize_reception sv now ts utc jid args conds st = (Inr job, st')"
  shows "admitted st st'" "accepted_tables (ba_object_id args) (ba_expires_at args) st'"
proof -
  let ?m = "new_manifest (os_encryption sv) utc (os_storage_chat_id sv) args"
  obtain op st1 st2 where s: "stage_manifest ts Put ?m st = Inr (op, st1)"
    "set_transfer_conditionals now jid conds st1 = Inr ((), st2)"
    "queue_transfer now jid op (length (chunks ?m)) st2 = Inr ((), st')"
    using assms by (auto simp: finalize_reception_def Let_def split: sum.splits option.splits)
  note t = stage_manifest_tables[OF s(1)]
  note c = jobs_update_one_rest[OF s(2)[unfolded set_transfer_conditionals_def]]
    and q = jobs_update_one_rest[OF s(3)[unfolded queue_transfer_def]]
  show a: "admitted st st'"
    by (rule admitted_trans[OF t(1) admitted_trans[OF admitted_conditionals[OF s(2)] admitted_queue[OF s(3)]]])
  have m: "m_object_id ?m = ba_object_id args" "expires_at ?m = ba_expires_at args"
    by (simp_all add: new_manifest_def)
  have "active_connection_id st' = active_connection_id st"
    using a by (simp add: admitted_def active_connection_id_def)
  thus "accepted_tables (ba_object_id args) (ba_expires_at args) st'"
    using t(2,3) m c q by (auto simp: accepted_tables_def load_journal_entry_def manifest_row_of_def)
qed

lemma enqueue_accepted:
  assumes "enqueue_with_part sv now ts utc oid bucket key ctype frames interrupted None conds expires nd = Some (Inr job, nd')"
  shows "admitted (nd_store nd) (nd_store nd')" "accepted_tables oid expires (nd_store nd')"
proof -
  have "admitted (nd_store nd) (nd_store nd') \<and> accepted_tables oid expires (nd_store nd')"
  proof (rule enqueue_steps[OF assms])
    fix st1 r1 nd1
    assume b: "begin_transfer now oid bucket key (nd_store nd) = Inr (oid, st1)"
      and rc: "received sv now ts utc oid bucket key ctype frames interrupted None conds expires (nd\<lparr> nd_store := st1 \<rparr>) =
           Some (r1, nd1)"
      and res: "Inr job = r1" "nd' = (case r1 of Inr _ \<Rightarrow> nd1
           | Inl _ \<Rightarrow> (remove_dir_all sv oid nd1)\<lparr> nd_store :=
               snd (fail_reception now oid (os_remove_dir sv oid) reception_failed_message
                 (nd_store (remove_dir_all sv oid nd1))) \<rparr>)"
    have nd': "nd' = nd1" using res by auto
    let ?nd1 = "nd\<lparr> nd_store := st1 \<rparr>"
    obtain sg nd2 u where body: "receive_body sv now oid frames interrupted ?nd1 = Some (Inr u, sg, nd2)"
      and fin: "\<exists>st3. finalize_reception sv now ts utc oid
        \<lparr> ba_object_id = oid, ba_bucket = bucket, ba_key = key, ba_content_type = ctype,
          ba_expires_at = expires, ba_commit_state = Staging, ba_chunks = sg_chunks sg,
          ba_whole_checksum = sha256_hex (os_crypto sv) (sg_hashed sg) \<rparr> conds (nd_store nd2) = (Inr job, st3) \<and>
        nd1 = nd2\<lparr> nd_store := st3 \<rparr>"
      using rc res(1)
      by (auto simp: received_def link_part_def part_checksum_ok_def Let_def split: option.splits sum.splits prod.splits)
    obtain st3 where fin': "finalize_reception sv now ts utc oid
        \<lparr> ba_object_id = oid, ba_bucket = bucket, ba_key = key, ba_content_type = ctype,
          ba_expires_at = expires, ba_commit_state = Staging, ba_chunks = sg_chunks sg,
          ba_whole_checksum = sha256_hex (os_crypto sv) (sg_hashed sg) \<rparr> conds (nd_store nd2) = (Inr job, st3)"
        "nd1 = nd2\<lparr> nd_store := st3 \<rparr>"
      using fin by blast
    note f = finalize_accepted[OF fin'(1)]
    have "admitted st1 st3" using admitted_trans[OF admitted_body[OF body]] f(1) by simp
    thus ?thesis using admitted_trans[OF admitted_begin[OF b]] f(2) nd' fin'(2) by simp
  qed simp
  thus "admitted (nd_store nd) (nd_store nd')" "accepted_tables oid expires (nd_store nd')" by blast+
qed

section \<open>What a claim leaves alone\<close>

lemma claim_same_objects:
  "same_objects st (snd (claim_transfer now lease st))"
  "transfer_chunks (snd (claim_transfer now lease st)) = transfer_chunks st"
proof -
  have r: "same_objects st (recover_transfers now st)" "transfer_chunks (recover_transfers now st) = transfer_chunks st"
    by (simp_all add: recover_transfers_def supersede_older_def cancel_closed_multipart_def expire_attempts_def
        park_ambiguous_def expire_receptions_def jobs_update_def attempts_update_def same_objects_def)
  show "same_objects st (snd (claim_transfer now lease st))"
    using r(1) same_objects_trans[OF r(1) same_objects_jobs_update]
    by (simp add: claim_transfer_def Let_def split: option.splits)
  show "transfer_chunks (snd (claim_transfer now lease st)) = transfer_chunks st"
    using r(2) by (simp add: claim_transfer_def Let_def split: option.splits)
qed

lemma claimed_job:
  assumes "jobs_wf st" "claim_transfer now lease st = (Some j, st')" "transfer (tj_id j) st = Some j0"
  shows "j = claim_row now lease j0"
proof -
  obtain c where c: "c \<in> set (transfer_jobs (recover_transfers now st))" "claimable now (recover_transfers now st) c"
    "j = claim_row now lease c"
    by (rule claim_transfer_Some[OF assms(1,2)]) blast
  obtain c0 where c0: "c0 \<in> set (transfer_jobs st)" "demoted c0 c" using recover_row[OF c(1)] by blast
  have "c = c0" using c(2) c0(2) by (auto simp: demoted_def claimable_def sending_state_def)
  moreover have "c0 = j0"
    using find_Some_mem[OF assms(3)[unfolded transfer_def]] c0 c(3) assms(1)
    by (intro distinct_key_eq[of tj_id "transfer_jobs st"]) (auto simp: jobs_wf_def claim_row_def demoted_def)
  ultimately show ?thesis using c(3) by simp
qed


section \<open>Properties\<close>

definition fresh_upload :: "uuid \<Rightarrow> store \<Rightarrow> bool" where
  "fresh_upload oid st \<longleftrightarrow> fresh_object oid st \<and> oid \<notin> tc_job ` set (transfer_chunks st) \<and>
     oid \<notin> mj_job_id ` set (multipart_jobs st)"

text \<open>
  C1: What is stored is what is read.  When an upload with a fresh id was accepted, its job
  was claimed and its publication succeeded, a read of any range of the key returns exactly
  that range of the uploaded body, through every retry and checkpoint the publication went
  through.  The cipher opens what it sealed, and a send that reports a location stored the
  bytes there.
\<close>

theorem put_then_get:
  assumes up: "enqueue_with_part sv now ts utc oid bucket key ctype frames interrupted None conds expires nd =
      Some (Inr job0, nd1)"
    and claim: "claim_transfer now1 lease (nd_store nd1) = (Some job, st2)" "tj_id job = oid"
    and pub: "publish_transfer parse_uuid sv pb job (nd1\<lparr> nd_store := st2 \<rparr>, rm) = (Inr u, nd3, rm3)"
    and fresh: "fresh_upload oid (nd_store nd)" "jobs_wf (nd_store nd)" "0 < os_chunk_size sv" "parse_uuid oid = Inr oid"
    and laws: "delivers (pb_upload pb)" "opens_sealed (os_crypto sv)"
    and live: "case expires of None \<Rightarrow> True | Some e \<Rightarrow> utc2 < e"
    and range: "a \<le> b" "b \<le> length (concat frames)"
  shows "read_range_to_writer (os_crypto sv) (os_encryption sv) (download_from rm3) utc2 bucket key a b (nd_store nd3) =
    Inr (drop a (take b (concat frames)))"
proof -
  have fo: "fresh_object oid (nd_store nd)" using fresh(1) by (simp add: fresh_upload_def)
  obtain m ps where e: "concat ps = concat frames" "describes (os_crypto sv) m ps" "sealed sv oid ps nd1"
    "\<forall>c \<in> set (chunks m). source_object_id c = None \<and> source_chunk_order c = None"
    "enc_enabled (encryption m)" "m_object_id m = oid" "m_bucket m = bucket" "m_key m = key"
    "get_manifest oid (nd_store nd1) = Inr (Some m)"
    "tj_operation_id job0 = Some oid" "transfer oid (nd_store nd1) = Some job0" "tj_object_id job0 = oid"
    by (rule enqueue_staged[OF up fresh(3) fo]) blast
  note adm = enqueue_accepted[OF up]
  have j: "job = claim_row now1 lease job0"
    using claimed_job[OF _ claim(1)] claim(2) e(11) adm(1) fresh(2) by (simp add: admitted_def)
  have st2: "same_objects (nd_store nd1) st2" "transfer_chunks st2 = transfer_chunks (nd_store nd1)"
    using claim_same_objects[where st = "nd_store nd1" and now = now1 and lease = lease] claim(1) by simp_all
  note look = same_objects_lookup[OF st2(1)]
  obtain d r where dr: "load_journal_entry (nd_store nd1) oid = Some d" "jd_state d = ''staging''"
    "manifest_row_of (nd_store nd1) oid = Some r" "om_connection_id r = active_connection_id (nd_store nd1)"
    "expires_at (om_manifest r) = expires"
    using adm(2) by (auto simp: accepted_tables_def)
  have exp: "expires_at m = expires"
    using e(9) dr(3,5) by (auto simp: get_manifest_def load_manifest_by_object_id_def manifest_row_of_def split: sum.splits)
  have chk: "checkpoints_ok sv oid ps oid (nd1\<lparr> nd_store := st2 \<rparr>, rm)"
    using fresh(1) adm(1) st2(2)
    by (auto simp: checkpoints_ok_def checkpoint_location_def fresh_upload_def admitted_def image_iff
        dest!: find_Some_mem)
  have part: "multipart_job oid st2 = None"
    using fresh(1) adm(1) look(6)
    by (auto simp: multipart_job_def fresh_upload_def admitted_def find_None_iff_all image_iff)
  have obj: "tj_object_id job = oid" "tj_operation_id job = Some oid" "tj_lease job = Some lease"
    using j e(10,12) by (simp_all add: claim_row_def)
  obtain m' where m': "get_active_manifest (m_bucket m) (m_key m) (nd_store nd3) = Inr (Some m')"
    "commit_state m' = Committed" "expires_at m' = expires_at m" "content_length m' = content_length m"
    "describes (os_crypto sv) m' ps"
    "\<forall>c \<in> set (chunks m'). read_manifest_chunk (os_crypto sv) (os_encryption sv) (download_from rm3) m' c = Inr (ps ! ck_order c)"
    by (rule published_manifest[OF pub, of oid lease m r d ps])
      (use obj fresh(4) e look dr chk part claim(2) laws in \<open>simp_all add: sealed_def\<close>)
  have len: "content_length m' = length (concat frames)"
    using e(1,2) m'(4) by (simp add: describes_def total_size_def length_concat flip: e(1))
  have "read_manifest_range (os_crypto sv) (os_encryption sv) (download_from rm3) m' a b = Inr (drop a (take b (concat ps)))"
    by (rule read_range_slice[OF m'(5)]) (use range len m'(6) in simp_all)
  moreover have "\<not> is_expired m' utc2"
    using live exp m'(3) by (auto simp: is_expired_def split: option.splits)
  ultimately show ?thesis
    using m'(1,2) e(1,7,8) by (simp add: read_range_to_writer_def)
qed


definition token_id :: "string \<Rightarrow> int" where
  "token_id t = int (foldl (\<lambda>a c. (a * 31 + of_char c) mod 1000003) 7 t) + 1"

definition toy_send :: uploader where
  "toy_send b t rm =
     (if rm ''chat'' (token_id t) = None
      then (Inr \<lparr> loc_peer_id = ''chat'', loc_message_id = token_id t, loc_document_id = None \<rparr>,
            rm(''chat'' := (rm ''chat'')(token_id t \<mapsto> b)))
      else (Inl (Telegram (Rpc ''busy'')), rm))"

definition toy_publisher :: publisher where
  "toy_publisher = \<lparr> pb_upload = toy_send, pb_to_json = (\<lambda>_. [123, 125]), pb_parse_etag = (\<lambda>_. None),
     pb_attempt = show_nat, pb_begin = (\<lambda>_. 2), pb_finish = (\<lambda>_. 3), pb_fence = 4, pb_commit = 5,
     pb_text = ''t2'', pb_utc = 0 \<rparr>"

definition toy_stored :: node where
  "toy_stored = (case toy_upload False of Some (_, nd) \<Rightarrow> nd | None \<Rightarrow> toy_node)"

definition toy_claim :: "transfer_row option \<times> store" where
  "toy_claim = claim_transfer 1 ''L'' (nd_store toy_stored)"

definition toy_published :: "(ObjectFormatError + unit) \<times> node \<times> remote" where
  "toy_published = publish_transfer Inr toy_service toy_publisher (the (fst toy_claim))
     (toy_stored\<lparr> nd_store := snd toy_claim \<rparr>, \<lambda>_ _. None)"

lemma toy_delivers: "delivers (pb_upload toy_publisher)"
proof -
  have "i32_message_id (token_id t) = Some (token_id t)" for t
  proof -
    have "foldl (\<lambda>a c. (a * 31 + of_char c) mod 1000003) n t < (1000003 :: nat)" if "n < 1000003" for n
      using that by (induction t arbitrary: n) simp_all
    from this[of 7] have "0 < token_id t \<and> token_id t \<le> 1000003" by (simp add: token_id_def)
    thus ?thesis by (simp add: i32_message_id_def)
  qed
  thus ?thesis by (auto simp: delivers_def toy_publisher_def toy_send_def remote_le_def)
qed

lemma toy_opens: "opens_sealed (os_crypto toy_service)"
  by (simp add: opens_sealed_def toy_service_def toy_crypto_def)

theorem put_then_get_witness:
  "\<exists>nd3 rm3. toy_published = (Inr (), nd3, rm3) \<and>
     read_range_to_writer toy_crypto (os_encryption toy_service) (download_from rm3) 9 ''b'' ''k'' 1 4 (nd_store nd3) =
       Inr [2, 3, 4]"
proof -
  have "case toy_upload False of Some (Inr _, _) \<Rightarrow> True | _ \<Rightarrow> False" by code_simp
  then obtain job0 where up: "toy_upload False = Some (Inr job0, toy_stored)"
    unfolding toy_stored_def by (auto split: option.splits sum.splits prod.splits)
  have "map_option tj_id (fst toy_claim) = Some ''o''" by code_simp
  then obtain job where claim: "claim_transfer 1 ''L'' (nd_store toy_stored) = (Some job, snd toy_claim)"
      "tj_id job = ''o''" "fst toy_claim = Some job"
    by (auto simp: toy_claim_def prod_eq_iff)
  have "case toy_published of (Inr _, _) \<Rightarrow> True | _ \<Rightarrow> False" by code_simp
  then obtain nd3 rm3 where pub: "toy_published = (Inr (), nd3, rm3)"
    by (auto split: sum.splits prod.splits)
  have pub': "publish_transfer Inr toy_service toy_publisher job (toy_stored\<lparr> nd_store := snd toy_claim \<rparr>, \<lambda>_ _. None) =
      (Inr (), nd3, rm3)"
    using pub claim(3) by (simp add: toy_published_def)
  have fresh: "fresh_upload ''o'' (nd_store toy_node)" "jobs_wf (nd_store toy_node)"
    using toy_fresh(2)
    by (simp_all add: fresh_upload_def toy_node_def bucket_store_def empty_store_def jobs_wf_def)
  have "read_range_to_writer (os_crypto toy_service) (os_encryption toy_service) (download_from rm3) 9 ''b'' ''k'' 1 4
      (nd_store nd3) = Inr (drop 1 (take 4 (concat [[1, 2], [3, 4, 5]])))"
    using put_then_get[OF up[unfolded toy_upload_def] claim(1,2) pub' fresh toy_fresh(1) _ toy_delivers toy_opens]
    by simp
  thus ?thesis using pub by (intro exI[of _ nd3] exI[of _ rm3]) (simp add: toy_service_def)
qed

end
