(* ===== verification/Workers.thy ===== *)
theory Workers
  imports End_To_End
begin

text \<open>
  The background workers (\<open>object_format/workflow.rs\<close>): reconciliation of sends whose
  acknowledgement was lost, the decision a failed publication leads to, what a waiting
  client is told, and the processing of one cleanup target.  The chat history is a list of
  messages, newest first.
\<close>

section \<open>Reconciling a lost acknowledgement\<close>

record remote_document =
  rd_name :: "string option"
  rd_id :: string
  rd_bytes :: "ObjectFormatError + byte list"

record remote_message =
  rg_id :: int
  rg_date :: seconds
  rg_document :: "remote_document option"

datatype RemoteReconciliation = Match TelegramLocation | Absent

text \<open>
  \<open>scanned\<close> counts the messages seen, including the one that ends the scan.  An item of the
  history is the next message or the error the iterator reports; \<open>content\<close> is what reading
  the local file gives.
\<close>

fun scan_history ::
  "string \<Rightarrow> ObjectFormatError + byte list \<Rightarrow> string \<Rightarrow> seconds \<Rightarrow> (ObjectFormatError + remote_message) list \<Rightarrow>
   nat \<Rightarrow> ObjectFormatError + RemoteReconciliation" where
  "scan_history chat content token started_at [] scanned =
     (if 1000 \<le> scanned
      then Inl (InvalidPlan ''Telegram reconciliation scan limit reached before the attempt boundary'')
      else Inr Absent)"
| "scan_history chat content token started_at (Inl e # msgs) scanned = Inl e"
| "scan_history chat content token started_at (Inr msg # msgs) scanned =
     (if rg_date msg < started_at then Inr Absent
      else
        (case rg_document msg of
           None \<Rightarrow> scan_history chat content token started_at msgs (Suc scanned)
         | Some d \<Rightarrow>
             if rd_name d \<noteq> Some token then scan_history chat content token started_at msgs (Suc scanned)
             else
               bind_res (rd_bytes d) (\<lambda>remote.
               bind_res content (\<lambda>local.
               if local \<noteq> remote
               then Inl (InvalidPlan ''Telegram reconciliation found a token collision with different bytes'')
               else
                 bind_res (storage_chat_id chat) (\<lambda>peer.
                 Inr (Match \<lparr> loc_peer_id = peer, loc_message_id = rg_id msg, loc_document_id = Some (rd_id d) \<rparr>))))))"

text \<open>\<open>messages\<close> is the history of the storage chat, or why the transport does not give it.\<close>

definition reconcile_remote_file ::
  "string \<Rightarrow> ObjectFormatError + (ObjectFormatError + remote_message) list \<Rightarrow> ObjectFormatError + byte list \<Rightarrow>
   string \<Rightarrow> seconds \<Rightarrow> ObjectFormatError + RemoteReconciliation" where
  "reconcile_remote_file chat messages content token started_at =
     bind_res messages (\<lambda>history. scan_history chat content token started_at (take 1000 history) 0)"

type_synonym reconciler =
  "ObjectFormatError + byte list \<Rightarrow> string \<Rightarrow> seconds \<Rightarrow> ObjectFormatError + RemoteReconciliation"

definition absent_message :: string where
  "absent_message = ''No matching document was found after scanning messages newer than the attempt''"

text \<open>
  \<open>staged_file\<close> is the content of the file an attempt sent, if it still exists; the result
  says whether every attempt was resolved.
\<close>

fun reconcile_attempts ::
  "reconciler \<Rightarrow> (nat \<Rightarrow> byte list option) \<Rightarrow>
   seconds \<Rightarrow> attempt_row list \<Rightarrow> bool \<Rightarrow> store \<Rightarrow> (ObjectFormatError + bool) \<times> store" where
  "reconcile_attempts reconcile staged_file now [] resolved st = (Inr resolved, st)"
| "reconcile_attempts reconcile staged_file now (a # as) resolved st =
     (case staged_file (sa_order a) of
        None \<Rightarrow> reconcile_attempts reconcile staged_file now as False st
      | Some bytes \<Rightarrow>
          (case reconcile (Inr bytes) (sa_token a) (sa_started_at a) of
             Inr (Match location) \<Rightarrow>
               (case resolve_send_attempt now (sa_job a) (sa_order a) (sa_id a) (Some location) None st of
                  Inl e \<Rightarrow> (Inl (Metadata e), st)
                | Inr (_, st1) \<Rightarrow> reconcile_attempts reconcile staged_file now as resolved st1)
           | Inr Absent \<Rightarrow>
               (case resolve_send_attempt now (sa_job a) (sa_order a) (sa_id a) None (Some absent_message) st of
                  Inl e \<Rightarrow> (Inl (Metadata e), st)
                | Inr (_, st1) \<Rightarrow> reconcile_attempts reconcile staged_file now as resolved st1)
           | Inl e \<Rightarrow>
               reconcile_attempts reconcile staged_file now as False
                 (keep st (set_transfer_error now (sa_job a)
                    ''Automatic reconciliation is waiting for Telegram connectivity'' st))))"

definition attempt_file :: "(uuid \<Rightarrow> byte list option) \<Rightarrow> node \<Rightarrow> uuid \<Rightarrow> nat \<Rightarrow> byte list option" where
  "attempt_file manifest_file nd operation order =
     (if order = manifest_order then manifest_file operation else nd_files nd operation order)"

fun reconcile_jobs ::
  "(string \<Rightarrow> string + uuid) \<Rightarrow> reconciler \<Rightarrow>
   (uuid \<Rightarrow> byte list option) \<Rightarrow> seconds \<Rightarrow> transfer_row list \<Rightarrow> node \<Rightarrow> (ObjectFormatError + unit) \<times> node" where
  "reconcile_jobs parse_uuid reconcile manifest_file now [] nd = (Inr (), nd)"
| "reconcile_jobs parse_uuid reconcile manifest_file now (j # js) nd =
     (let attempts = unresolved_send_attempts (tj_id j) (nd_store nd) in
      if attempts = [] then reconcile_jobs parse_uuid reconcile manifest_file now js nd
      else
        (case map_err InvalidPlan (parse_uuid (case tj_operation_id j of None \<Rightarrow> [] | Some op \<Rightarrow> op)) of
           Inl e \<Rightarrow> (Inl e, nd)
         | Inr operation \<Rightarrow>
             (case reconcile_attempts reconcile (attempt_file manifest_file nd operation) now attempts True (nd_store nd) of
                (Inl e, st1) \<Rightarrow> (Inl e, nd\<lparr> nd_store := st1 \<rparr>)
              | (Inr resolved, st1) \<Rightarrow>
                  reconcile_jobs parse_uuid reconcile manifest_file now js
                    (nd\<lparr> nd_store := (if resolved then snd (queue_after_reconciliation now (tj_id j) st1) else st1) \<rparr>))))"

definition reconcile_unknown_transfers ::
  "(string \<Rightarrow> string + uuid) \<Rightarrow> reconciler \<Rightarrow>
   (uuid \<Rightarrow> byte list option) \<Rightarrow> seconds \<Rightarrow> node \<Rightarrow> (ObjectFormatError + unit) \<times> node" where
  "reconcile_unknown_transfers parse_uuid reconcile manifest_file now nd =
     reconcile_jobs parse_uuid reconcile manifest_file now
       (filter (\<lambda>j. tj_state j = TRecoveryRequired) (transfers 100 0 (nd_store nd))) nd"

section \<open>After a publication\<close>




text \<open>One look of \<open>wait_transfer\<close> at the job; \<open>None\<close> means it sleeps and looks again.\<close>

definition waited_part ::
  "(string \<Rightarrow> string + uuid) \<Rightarrow> string \<Rightarrow> store \<Rightarrow> (ObjectFormatError + MultipartPart option) option" where
  "waited_part parse_uuid jid st =
     (case multipart_job jid st of
        Some (upload, number) \<Rightarrow>
          if 0 < number
          then Some (map_sum InvalidPlan (\<lambda>u. get_multipart_part u number st) (parse_uuid upload))
          else None
      | None \<Rightarrow> None)"

definition wait_transfer_poll ::
  "(string \<Rightarrow> string + uuid) \<Rightarrow> string \<Rightarrow> store \<Rightarrow> (ObjectFormatError + ObjectManifest) option" where
  "wait_transfer_poll parse_uuid jid st =
     (case transfer jid st of
        None \<Rightarrow> Some (Inl (InvalidPlan ''transfer missing''))
      | Some job \<Rightarrow>
          if tj_state job \<in> {TCompleted, TCleaned} then
            (case waited_part parse_uuid (tj_id job) st of
               Some (Inl e) \<Rightarrow> Some (Inl e)
             | Some (Inr part) \<Rightarrow>
                 Some (ok_or (InvalidPlan ''completed multipart part manifest missing'') (Option.bind part mp_manifest))
             | None \<Rightarrow>
                 Some (bind_res (map_err InvalidPlan (parse_uuid (tj_object_id job))) (\<lambda>oid.
                       bind_res (map_err Metadata (get_manifest oid st)) (\<lambda>m.
                       ok_or (InvalidPlan ''completed manifest missing'') m))))
          else if tj_state job = TSuperseded then
            (case waited_part parse_uuid (tj_id job) st of
               Some (Inl e) \<Rightarrow> Some (Inl e)
             | Some (Inr (Some part)) \<Rightarrow>
                 (case mp_manifest part of
                    Some m \<Rightarrow> Some (Inr m)
                  | None \<Rightarrow> Some (Inl (InvalidPlan (case tj_error job of None \<Rightarrow> ''transfer was superseded'' | Some s \<Rightarrow> s))))
             | _ \<Rightarrow> Some (Inl (InvalidPlan (case tj_error job of None \<Rightarrow> ''transfer was superseded'' | Some s \<Rightarrow> s))))
          else if tj_state job \<in> {TCancelled, TRecoveryRequired, TReceptionFailed}
          then Some (Inl (InvalidPlan (case tj_error job of None \<Rightarrow> ''transfer needs recovery'' | Some s \<Rightarrow> s)))
          else None)"

section \<open>Cleaning up\<close>

definition location_is :: "CleanupTarget \<Rightarrow> TelegramLocation \<Rightarrow> bool" where
  "location_is t l \<longleftrightarrow> loc_peer_id l = cl_peer_id t \<and> loc_message_id l = cl_message_id t"

definition chunk_is :: "CleanupTarget \<Rightarrow> ChunkRef \<Rightarrow> bool" where
  "chunk_is t c \<longleftrightarrow> ck_peer_id c = cl_peer_id t \<and> ck_message_id c = cl_message_id t"

definition cleanup_location_is_referenced :: "CleanupTarget \<Rightarrow> store \<Rightarrow> MetadataError + bool" where
  "cleanup_location_is_referenced t st =
     bind_res (list_manifests st) (\<lambda>ms. Inr (
       list_ex (\<lambda>m. m_object_id m \<noteq> cl_object_id t \<and> commit_state m \<noteq> Tombstoned \<and>
                    (location_is t (telegram m) \<or> list_ex (chunk_is t) (chunks m))) ms \<or>
       list_ex (\<lambda>s. list_ex (\<lambda>p. location_is t (mp_telegram p) \<or>
                       (case mp_manifest p of None \<Rightarrow> False | Some m \<Rightarrow> list_ex (chunk_is t) (chunks m)))
                     (list_multipart_parts (ms_upload_id s) st)) (list_multipart_sessions None None st)))"

text \<open>
  Deleting messages is the transport's; \<open>deletes_only\<close> is what the code relies on: a call
  removes nothing but the messages it names in the chat it names, also when it fails.
\<close>

type_synonym deleter = "string \<Rightarrow> int list \<Rightarrow> remote \<Rightarrow> (ObjectFormatError + unit) \<times> remote"

definition deletes_only :: "deleter \<Rightarrow> bool" where
  "deletes_only del \<longleftrightarrow>
     (\<forall>chat ids rm c i. snd (del chat ids rm) c i \<noteq> rm c i \<longrightarrow> c = chat \<and> i \<in> set ids)"

definition delete_telegram_messages ::
  "deleter \<Rightarrow> string \<Rightarrow> int list \<Rightarrow> remote \<Rightarrow> (ObjectFormatError + unit) \<times> remote" where
  "delete_telegram_messages del chat ids rm = (if ids = [] then (Inr (), rm) else del chat ids rm)"

record cleaner =
  cw_upload :: uploader
  cw_delete :: deleter
  cw_evidence :: "uuid \<Rightarrow> ObjectManifest option \<Rightarrow> byte list"
  cw_write_evidence :: "uuid \<Rightarrow> ObjectFormatError option"
  cw_remove_local :: "uuid \<Rightarrow> ObjectFormatError option"
  cw_nonce :: string
  cw_now :: seconds

definition finish_cleanup ::
  "(string \<Rightarrow> string + uuid) \<Rightarrow> cleaner \<Rightarrow> CleanupTarget \<Rightarrow> store \<Rightarrow> ObjectFormatError + unit" where
  "finish_cleanup parse_uuid cw t st =
     (if cleanup_complete_for_object (cl_object_id t) st then
        (case parse_uuid (cl_object_id t) of
           Inl _ \<Rightarrow> Inr ()
         | Inr oid \<Rightarrow> (case cw_remove_local cw oid of None \<Rightarrow> Inr () | Some e \<Rightarrow> Inl e))
      else Inr ())"

definition process_evidence ::
  "(string \<Rightarrow> string + uuid) \<Rightarrow> cleaner \<Rightarrow> CleanupTarget \<Rightarrow> store \<times> remote \<Rightarrow> (ObjectFormatError + unit) \<times> store \<times> remote" where
  "process_evidence parse_uuid cw t = (\<lambda>(st, rm).
     (let m = (case parse_uuid (cl_object_id t) of
                 Inl _ \<Rightarrow> None
               | Inr oid \<Rightarrow> (case get_manifest oid st of Inr (Some m) \<Rightarrow> Some m | _ \<Rightarrow> None)) in
      case cw_write_evidence cw (cl_object_id t) of
        Some e \<Rightarrow> (Inl e, st, rm)
      | None \<Rightarrow>
     (case begin_cleanup_evidence_attempt (cw_now cw) (cw_nonce cw) (cl_id t) (cl_lease t) (cl_object_id t) st of
        Inl e \<Rightarrow> (Inl (Metadata e), st, rm)
      | Inr ((token, _), st1) \<Rightarrow>
     (case cw_upload cw (cw_evidence cw (cl_object_id t) m) token rm of
        (Inl _, rm1) \<Rightarrow>
          (Inr (), quarantine_cleanup (cl_id t) (cl_lease t)
             ''Deletion-evidence acknowledgement is unknown; recovery material retained'' st1, rm1)
      | (Inr location, rm1) \<Rightarrow>
          (case complete_cleanup (cl_id t) (cl_lease t) (Some location) st1 of
             (held, st2) \<Rightarrow>
               if held then (finish_cleanup parse_uuid cw t st2, st2, rm1)
               else (Inl (InvalidPlan ''cleanup evidence lease lost''), st2, rm1))))))"

definition process_message ::
  "(string \<Rightarrow> string + uuid) \<Rightarrow> ObjectFormatService \<Rightarrow> cleaner \<Rightarrow> CleanupTarget \<Rightarrow> store \<times> remote \<Rightarrow>
   (ObjectFormatError + unit) \<times> store \<times> remote" where
  "process_message parse_uuid sv cw t = (\<lambda>(st, rm).
     (let deleted = (case cleanup_location_is_referenced t st of
            Inl e \<Rightarrow> (Inl (Metadata e), rm)
          | Inr True \<Rightarrow> (Inr (), rm)
          | Inr False \<Rightarrow>
              (case i32_message_id (cl_message_id t) of
                 None \<Rightarrow> (Inl (InvalidPlan ''cleanup message id out of range''), rm)
               | Some i \<Rightarrow> delete_telegram_messages (cw_delete cw) (os_storage_chat_id sv) [i] rm))
      in case deleted of
           (Inl e, rm1) \<Rightarrow> (Inl e, st, rm1)
         | (Inr _, rm1) \<Rightarrow>
             (case complete_cleanup (cl_id t) (cl_lease t) None st of
                (held, st1) \<Rightarrow>
                  if held then (finish_cleanup parse_uuid cw t st1, st1, rm1)
                  else (Inl (InvalidPlan ''cleanup lease lost''), st1, rm1))))"

definition process_cleanup_target ::
  "(string \<Rightarrow> string + uuid) \<Rightarrow> (uuid \<Rightarrow> bool) \<Rightarrow> ObjectFormatService \<Rightarrow> cleaner \<Rightarrow> CleanupTarget \<Rightarrow> store \<times> remote \<Rightarrow>
   (ObjectFormatError + unit) \<times> store \<times> remote" where
  "process_cleanup_target parse_uuid pinned sv cw t = (\<lambda>(st, rm).
     (if app_settings st ''telegram_active_connection_id'' \<noteq> Some (cl_connection_id t)
      then (Inr (), quarantine_cleanup (cl_id t) (cl_lease t)
              ''Cleanup belongs to a detached Telegram connection; recovery material retained'' st, rm)
      else if (case parse_uuid (cl_object_id t) of Inl _ \<Rightarrow> False | Inr oid \<Rightarrow> pinned oid)
      then (Inr (), fail_cleanup (cw_now cw) (cl_id t) (cl_lease t) 5 ''Cleanup deferred while a read is active'' st, rm)
      else if cl_kind t = Evidence then process_evidence parse_uuid cw t (st, rm)
      else process_message parse_uuid sv cw t (st, rm)))"

fun reconcile_evidence ::
  "reconciler \<Rightarrow> (string \<Rightarrow> byte list option) \<Rightarrow> seconds \<Rightarrow> CleanupEvidenceAttempt list \<Rightarrow> store \<Rightarrow> store" where
  "reconcile_evidence reconcile evidence_file now [] st = st"
| "reconcile_evidence reconcile evidence_file now (a # as) st =
     (let st1 =
        (if app_settings st ''telegram_active_connection_id'' \<noteq> Some (ce_connection_id a) then st
         else (case evidence_file (ce_object_id a) of
                 None \<Rightarrow> st
               | Some bytes \<Rightarrow>
                   (case reconcile (Inr bytes) (ce_token a) (ce_started_at a) of
                      Inr (Match location) \<Rightarrow> resolve_cleanup_evidence (ce_id a) location st
                    | Inr Absent \<Rightarrow> retry_cleanup_evidence_after_reconciliation now (ce_id a)
                        ''Reconciled absent; a new uniquely-tokened evidence attempt is safe'' st
                    | Inl _ \<Rightarrow> st)))
      in reconcile_evidence reconcile evidence_file now as st1)"

definition reconcile_cleanup_evidence ::
  "reconciler \<Rightarrow> (string \<Rightarrow> byte list option) \<Rightarrow> seconds \<Rightarrow> store \<Rightarrow> store" where
  "reconcile_cleanup_evidence reconcile evidence_file now st =
     reconcile_evidence reconcile evidence_file now (cleanup_evidence_attempts now 25 st) st"

definition cleanup_worker_step ::
  "(string \<Rightarrow> string + uuid) \<Rightarrow> (uuid \<Rightarrow> bool) \<Rightarrow> ObjectFormatService \<Rightarrow> cleaner \<Rightarrow> string \<Rightarrow> store \<times> remote \<Rightarrow> store \<times> remote" where
  "cleanup_worker_step parse_uuid pinned sv cw lease = (\<lambda>(st, rm).
     (case claim_cleanup (cw_now cw) lease st of
        (None, st1) \<Rightarrow> (st1, rm)
      | (Some t, st1) \<Rightarrow>
          (case process_cleanup_target parse_uuid pinned sv cw t (st1, rm) of
             (Inr _, w) \<Rightarrow> w
           | (Inl e, st2, rm2) \<Rightarrow>
               (let delay = max 1 (case parse_flood_wait_seconds (object_error_text e) of None \<Rightarrow> 30 | Some n \<Rightarrow> n)
                in (fail_cleanup (cw_now cw) (cl_id t) (cl_lease t) delay ''Cleanup failed; durable retry scheduled'' st2, rm2)))))"

section \<open>Reconciliation tells the truth\<close>

lemma scan_history_Match:
  assumes "scan_history chat content token t0 (map Inr msgs) n = Inr (Match l)"
  obtains msg d where "msg \<in> set msgs" "rg_document msg = Some d" "rd_name d = Some token"
    "rd_bytes d = content" "t0 \<le> rg_date msg" "loc_peer_id l = chat" "loc_message_id l = rg_id msg"
proof -
  have "\<exists>msg d. msg \<in> set msgs \<and> rg_document msg = Some d \<and> rd_name d = Some token \<and>
      rd_bytes d = content \<and> t0 \<le> rg_date msg \<and> loc_peer_id l = chat \<and> loc_message_id l = rg_id msg"
    using assms
  proof (induction msgs arbitrary: n)
    case (Cons m msgs)
    have date: "\<not> rg_date m < t0" using Cons.prems by auto
    show ?case
    proof (cases "\<exists>d. rg_document m = Some d \<and> rd_name d = Some token")
      case True
      then obtain d where d: "rg_document m = Some d" "rd_name d = Some token" by blast
      thus ?thesis using Cons.prems date
        by (auto simp: bind_res_Inr_iff storage_chat_id_def split: if_splits)
    next
      case False
      hence "scan_history chat content token t0 (map Inr msgs) (Suc n) = Inr (Match l)"
        using Cons.prems date by (auto split: option.splits if_splits)
      thus ?thesis using Cons.IH by (meson list.set_intros(2))
    qed
  qed (simp split: if_splits)
  thus thesis using that by blast
qed

lemma scan_history_Absent:
  assumes "scan_history chat content token t0 (map Inr msgs) n = Inr Absent"
    and "sorted_wrt (\<lambda>a b. rg_date b \<le> rg_date a) (msgs @ rest)"
    and "rest = [] \<or> 1000 \<le> n + length msgs"
    and "msg \<in> set (msgs @ rest)" "t0 \<le> rg_date msg" "rg_document msg = Some d"
  shows "rd_name d \<noteq> Some token"
  using assms
proof (induction msgs arbitrary: n)
  case Nil
  thus ?case by (auto split: if_splits)
next
  case (Cons m msgs)
  have "rg_date msg \<le> rg_date m" using Cons.prems(2,4) by auto
  hence date: "\<not> rg_date m < t0" using Cons.prems(5) by simp
  have other: "rd_name d' \<noteq> Some token" if "rg_document m = Some d'" for d'
  proof
    assume "rd_name d' = Some token"
    thus False using Cons.prems(1) that date by (auto simp: bind_res_Inr_iff split: if_splits)
  qed
  have scan: "scan_history chat content token t0 (map Inr msgs) (Suc n) = Inr Absent"
    using Cons.prems(1) date other by (auto split: option.splits if_splits)
  show ?case
  proof (cases "msg = m")
    case True
    thus ?thesis using other Cons.prems(6) by simp
  next
    case False
    show ?thesis
      by (rule Cons.IH[OF scan]) (use Cons.prems False in auto)
  qed
qed

text \<open>
  C19: Reconciliation of a lost acknowledgement tells the truth about the chat.  When it reports a match,
  a message of the chat dated at or after the attempt carries a document of the attempt's name with exactly
  the bytes of the local file, and the reported location is that message's.  When it reports absence, then
  no message of the whole history (not only of the thousand newest that are scanned) dated at or after the
  attempt carries a document of that name, so sending again makes no duplicate.
\<close>

theorem reconciliation_is_truthful:
  assumes "sorted_wrt (\<lambda>a b. rg_date b \<le> rg_date a) history"
  shows "(\<forall>l. reconcile_remote_file chat (Inr (map Inr history)) content token t0 = Inr (Match l) \<longrightarrow>
            (\<exists>msg \<in> set history. \<exists>d. rg_document msg = Some d \<and> rd_name d = Some token \<and> rd_bytes d = content \<and>
               t0 \<le> rg_date msg \<and> loc_peer_id l = chat \<and> loc_message_id l = rg_id msg)) \<and>
         (reconcile_remote_file chat (Inr (map Inr history)) content token t0 = Inr Absent \<longrightarrow>
            (\<forall>msg \<in> set history. \<forall>d. t0 \<le> rg_date msg \<and> rg_document msg = Some d \<longrightarrow> rd_name d \<noteq> Some token))"
proof (intro conjI allI impI ballI)
  fix l assume "reconcile_remote_file chat (Inr (map Inr history)) content token t0 = Inr (Match l)"
  hence "scan_history chat content token t0 (map Inr (take 1000 history)) 0 = Inr (Match l)"
    by (simp add: reconcile_remote_file_def take_map)
  thus "\<exists>msg \<in> set history. \<exists>d. rg_document msg = Some d \<and> rd_name d = Some token \<and> rd_bytes d = content \<and>
      t0 \<le> rg_date msg \<and> loc_peer_id l = chat \<and> loc_message_id l = rg_id msg"
    by (rule scan_history_Match) (blast dest: in_set_takeD)
next
  fix msg d
  assume "reconcile_remote_file chat (Inr (map Inr history)) content token t0 = Inr Absent"
    and msg: "msg \<in> set history" "t0 \<le> rg_date msg \<and> rg_document msg = Some d"
  hence scan: "scan_history chat content token t0 (map Inr (take 1000 history)) 0 = Inr Absent"
    by (simp add: reconcile_remote_file_def take_map)
  show "rd_name d \<noteq> Some token"
    by (rule scan_history_Absent[OF scan, of "drop 1000 history"]) (use assms msg in auto)
qed

definition toy_history :: "remote_message list" where
  "toy_history =
     [\<lparr> rg_id = 9, rg_date = 30, rg_document = None \<rparr>,
      \<lparr> rg_id = 8, rg_date = 20, rg_document = Some \<lparr> rd_name = Some ''tok'', rd_id = ''d'', rd_bytes = Inr [1, 2] \<rparr> \<rparr>,
      \<lparr> rg_id = 7, rg_date = 5, rg_document = Some \<lparr> rd_name = Some ''old'', rd_id = ''e'', rd_bytes = Inr [3] \<rparr> \<rparr>]"

lemma toy_history_sorted: "sorted_wrt (\<lambda>a b. rg_date b \<le> rg_date a) toy_history"
  by (simp add: toy_history_def)

theorem reconciliation_is_truthful_witness:
  "(\<exists>msg \<in> set toy_history. \<exists>d. rg_document msg = Some d \<and> rd_name d = Some ''tok'' \<and> rd_bytes d = Inr [1, 2] \<and>
      10 \<le> rg_date msg \<and> rg_id msg = 8) \<and>
   \<not> (\<exists>msg \<in> set toy_history. \<exists>d. 10 \<le> rg_date msg \<and> rg_document msg = Some d \<and> rd_name d = Some ''old'')"
proof -
  have "reconcile_remote_file ''c'' (Inr (map Inr toy_history)) (Inr [1, 2]) ''tok'' 10 =
      Inr (Match \<lparr> loc_peer_id = ''c'', loc_message_id = 8, loc_document_id = Some ''d'' \<rparr>)"
    "reconcile_remote_file ''c'' (Inr (map Inr toy_history)) (Inr [3]) ''old'' 10 = Inr Absent"
    by (simp_all add: reconcile_remote_file_def toy_history_def storage_chat_id_def)
  thus ?thesis
    using reconciliation_is_truthful[OF toy_history_sorted, of "''c''" "Inr [1, 2]" "''tok''" 10]
      reconciliation_is_truthful[OF toy_history_sorted, of "''c''" "Inr [3]" "''old''" 10]
    by force
qed

text \<open>
  The date of a message is the server's and \<open>started_at\<close> is the local clock's.  With a local clock
  ahead of the server's, a delivered document is reported absent.
\<close>

lemma clock_ahead_hides_a_delivered_document:
  "reconcile_remote_file ''c'' (Inr (map Inr toy_history)) (Inr [1, 2]) ''tok'' 21 = Inr Absent"
  by (simp add: reconcile_remote_file_def toy_history_def)

section \<open>A failed publication is parked\<close>







section \<open>Cleanup spares what is in use\<close>

text \<open>The documents that live objects other than \<open>oid\<close> and open multipart uploads refer to.\<close>

definition manifest_locations :: "ObjectManifest \<Rightarrow> (string \<times> int) list" where
  "manifest_locations m =
     (loc_peer_id (telegram m), loc_message_id (telegram m)) # map (\<lambda>c. (ck_peer_id c, ck_message_id c)) (chunks m)"

definition part_locations :: "MultipartPart \<Rightarrow> (string \<times> int) list" where
  "part_locations p =
     (loc_peer_id (mp_telegram p), loc_message_id (mp_telegram p)) #
     (case mp_manifest p of None \<Rightarrow> [] | Some m \<Rightarrow> map (\<lambda>c. (ck_peer_id c, ck_message_id c)) (chunks m))"

definition live_locations :: "string \<Rightarrow> ObjectManifest list \<Rightarrow> store \<Rightarrow> (string \<times> int) list" where
  "live_locations oid ms st =
     concat (map manifest_locations (filter (\<lambda>m. m_object_id m \<noteq> oid \<and> commit_state m \<noteq> Tombstoned) ms)) @
     concat (map (\<lambda>s. concat (map part_locations (list_multipart_parts (ms_upload_id s) st)))
       (list_multipart_sessions None None st))"

lemma chunk_locations_iff:
  "(cl_peer_id t, cl_message_id t) \<in> set (map (\<lambda>c. (ck_peer_id c, ck_message_id c)) cs) \<longleftrightarrow> list_ex (chunk_is t) cs"
  by (force simp: chunk_is_def list_ex_iff)

lemma manifest_locations_iff:
  "(cl_peer_id t, cl_message_id t) \<in> set (manifest_locations m) \<longleftrightarrow>
   location_is t (telegram m) \<or> list_ex (chunk_is t) (chunks m)"
  unfolding manifest_locations_def set_simps insert_iff chunk_locations_iff by (auto simp: location_is_def)

lemma part_locations_iff:
  "(cl_peer_id t, cl_message_id t) \<in> set (part_locations p) \<longleftrightarrow>
   location_is t (mp_telegram p) \<or>
   (case mp_manifest p of None \<Rightarrow> False | Some m \<Rightarrow> list_ex (chunk_is t) (chunks m))"
proof (cases "mp_manifest p")
  case None
  thus ?thesis by (auto simp: part_locations_def location_is_def)
next
  case (Some m)
  have "(cl_peer_id t, cl_message_id t) \<in> set (part_locations p) \<longleftrightarrow>
      location_is t (mp_telegram p) \<or> list_ex (chunk_is t) (chunks m)"
    unfolding part_locations_def Some option.case set_simps insert_iff chunk_locations_iff
    by (auto simp: location_is_def)
  thus ?thesis using Some by simp
qed

lemma referenced_iff:
  assumes "list_manifests st = Inr ms"
  shows "cleanup_location_is_referenced t st =
    Inr ((cl_peer_id t, cl_message_id t) \<in> set (live_locations (cl_object_id t) ms st))"
proof -
  have "(cl_peer_id t, cl_message_id t) \<in> set (live_locations (cl_object_id t) ms st) \<longleftrightarrow>
      (\<exists>m \<in> set ms. m_object_id m \<noteq> cl_object_id t \<and> commit_state m \<noteq> Tombstoned \<and>
         (cl_peer_id t, cl_message_id t) \<in> set (manifest_locations m)) \<or>
      (\<exists>s \<in> set (list_multipart_sessions None None st). \<exists>p \<in> set (list_multipart_parts (ms_upload_id s) st).
         (cl_peer_id t, cl_message_id t) \<in> set (part_locations p))"
    unfolding live_locations_def by auto
  thus ?thesis
    unfolding manifest_locations_iff part_locations_iff
    by (simp add: cleanup_location_is_referenced_def assms list_ex_iff[abs_def] conj_ac)
qed

lemma process_message_remote:
  assumes "process_message parse_uuid sv cw t (st, rm) = (r, st', rm')" "deletes_only (cw_delete cw)"
    and "list_manifests st = Inr ms" "rm' p i \<noteq> rm p i"
  shows "p = os_storage_chat_id sv \<and> i = cl_message_id t \<and>
    (cl_peer_id t, cl_message_id t) \<notin> set (live_locations (cl_object_id t) ms st)"
proof (cases "(cl_peer_id t, cl_message_id t) \<in> set (live_locations (cl_object_id t) ms st)")
  case True
  hence "rm' = rm" using assms(1)
    by (auto simp: process_message_def referenced_iff[OF assms(3)] split: prod.splits if_splits)
  thus ?thesis using assms(4) by simp
next
  case False
  show ?thesis
  proof (cases "i32_message_id (cl_message_id t)")
    case None
    hence "rm' = rm" using assms(1) False
      by (auto simp: process_message_def referenced_iff[OF assms(3)])
    thus ?thesis using assms(4) by simp
  next
    case (Some j)
    have j: "j = cl_message_id t" using Some by (simp add: i32_message_id_def split: if_splits)
    obtain d rm1 where d: "cw_delete cw (os_storage_chat_id sv) [j] rm = (d, rm1)" by fastforce
    have "rm' = rm1" using assms(1) False Some d
      by (auto simp: process_message_def referenced_iff[OF assms(3)] delete_telegram_messages_def
          split: sum.splits prod.splits if_splits)
    hence "p = os_storage_chat_id sv \<and> i \<in> set [j]"
      using assms(2,4) d unfolding deletes_only_def by (metis snd_conv)
    thus ?thesis using False j by simp
  qed
qed

lemma process_evidence_remote:
  assumes "process_evidence parse_uuid cw t (st, rm) = (r, st', rm')" "delivers (cw_upload cw)"
  shows "remote_le rm rm'"
proof -
  have up: "remote_le rm (snd (cw_upload cw b tok rm))" for b tok
    using assms(2) by (simp add: delivers_def)
  have "rm' = rm \<or> (\<exists>b tok. rm' = snd (cw_upload cw b tok rm))"
    using assms(1) unfolding process_evidence_def Let_def prod.case
    by (auto split: option.splits sum.splits prod.splits if_splits) (metis snd_conv)+
  thus ?thesis using up by auto
qed

text \<open>
  C6: Cleanup never takes a document that something else still needs.  While the target lies in the chat the
  service is connected to, processing it leaves every document in place that a live object (other than the one
  being cleaned up) or a part of an open multipart upload refers to, whatever the transport answers.
\<close>

theorem cleanup_spares_documents_in_use:
  assumes "process_cleanup_target parse_uuid pinned sv cw t (st, rm) = (r, st', rm')"
    and "deletes_only (cw_delete cw)" "delivers (cw_upload cw)"
    and "cl_peer_id t = os_storage_chat_id sv" "list_manifests st = Inr ms"
    and "(p, i) \<in> set (live_locations (cl_object_id t) ms st)" "rm p i = Some doc"
  shows "rm' p i = Some doc"
proof -
  consider "rm' = rm" | "process_evidence parse_uuid cw t (st, rm) = (r, st', rm')"
    | "process_message parse_uuid sv cw t (st, rm) = (r, st', rm')"
    using assms(1) unfolding process_cleanup_target_def prod.case by (auto split: if_splits)
  thus ?thesis
  proof cases
    case 1
    thus ?thesis using assms(7) by simp
  next
    case 2
    thus ?thesis using process_evidence_remote[OF 2 assms(3)] assms(7) by (simp add: remote_le_def)
  next
    case 3
    thus ?thesis using process_message_remote[OF 3 assms(2,5), of p i] assms(4,6,7) by auto
  qed
qed

definition shared_manifest :: "uuid \<Rightarrow> CommitState \<Rightarrow> ObjectManifest" where
  "shared_manifest oid state = (example_manifest oid oid [example_chunk 0 0 3 8])\<lparr> commit_state := state \<rparr>"

definition shared_row :: "uuid \<Rightarrow> CommitState \<Rightarrow> manifest_row" where
  "shared_row oid state =
     \<lparr> om_object_id = oid, om_connection_id = ''legacy'', om_bucket = ''b'', om_key = oid, om_version_id = None,
       om_commit_state = state, om_manifest = shared_manifest oid state, om_created_at = ''t'',
       om_committed_at = None, om_tombstoned_at = None \<rparr>"

text \<open>The tombstoned object \<open>o1\<close> and the committed object \<open>o2\<close> share the document 8 of the chat \<open>p\<close>.\<close>

definition shared_store :: store where
  "shared_store = empty_store\<lparr> object_manifests := [shared_row ''o1'' Tombstoned, shared_row ''o2'' Committed],
     app_settings := [''telegram_active_connection_id'' \<mapsto> ''legacy''] \<rparr>"

definition toy_cleaner :: cleaner where
  "toy_cleaner = \<lparr> cw_upload = toy_send,
     cw_delete = (\<lambda>chat ids rm. (Inr (), rm(chat := (\<lambda>i. if i \<in> set ids then None else rm chat i)))),
     cw_evidence = (\<lambda>_ _. []), cw_write_evidence = (\<lambda>_. None), cw_remove_local = (\<lambda>_. None),
     cw_nonce = ''n'', cw_now = 10 \<rparr>"

definition toy_target :: "string \<Rightarrow> CleanupTarget" where
  "toy_target peer = \<lparr> cl_id = 1, cl_object_id = ''o1'', cl_connection_id = ''legacy'', cl_peer_id = peer,
     cl_message_id = 8, cl_kind = Message, cl_lease = ''l'' \<rparr>"

definition toy_documents :: remote where
  "toy_documents = (\<lambda>p i. if p = ''p'' \<and> i = 8 then Some [1, 2, 3] else None)"

definition toy_cleaned :: "string \<Rightarrow> (ObjectFormatError + unit) \<times> store \<times> remote" where
  "toy_cleaned peer = process_cleanup_target Inr (\<lambda>_. False) (toy_service\<lparr> os_storage_chat_id := ''p'' \<rparr>) toy_cleaner
     (toy_target peer) (shared_store, toy_documents)"

lemma shared_manifests:
  "list_manifests shared_store = Inr [shared_manifest ''o1'' Tombstoned, shared_manifest ''o2'' Committed]"
  by code_simp

theorem cleanup_spares_documents_in_use_witness:
  "snd (snd (toy_cleaned ''p'')) ''p'' 8 = Some [1, 2, 3]"
proof -
  obtain r st' rm' where c: "toy_cleaned ''p'' = (r, st', rm')" by (metis prod.collapse)
  have "deletes_only (cw_delete toy_cleaner)" by (auto simp: deletes_only_def toy_cleaner_def)
  moreover have "delivers (cw_upload toy_cleaner)"
    using toy_delivers by (simp add: toy_cleaner_def toy_publisher_def)
  moreover have "(''p'', 8) \<in> set (live_locations (cl_object_id (toy_target ''p''))
      [shared_manifest ''o1'' Tombstoned, shared_manifest ''o2'' Committed] shared_store)"
    by (simp add: live_locations_def manifest_locations_def shared_manifest_def toy_target_def example_manifest_def
        example_chunk_def)
  moreover have "cl_peer_id (toy_target ''p'') = os_storage_chat_id (toy_service\<lparr> os_storage_chat_id := ''p'' \<rparr>)"
    by (simp add: toy_target_def)
  ultimately have "rm' ''p'' 8 = Some [1, 2, 3]"
    using cleanup_spares_documents_in_use[OF c[unfolded toy_cleaned_def] _ _ _ shared_manifests, of "''p''" 8 "[1, 2, 3]"]
    by (simp add: toy_documents_def)
  thus ?thesis by (simp add: c)
qed

text \<open>
  The check looks at the peer the target names, the deletion at the chat the service is connected to.  After the
  storage chat changed from \<open>q\<close> to \<open>p\<close>, cleaning up message 8 of \<open>q\<close> takes message 8 of \<open>p\<close>, the
  payload of the committed object \<open>o2\<close>.
\<close>

lemma cleanup_after_chat_change_takes_a_live_document:
  "snd (snd (toy_cleaned ''q'')) ''p'' 8 = None"
  by code_simp

end
