(* ===== verification/S3_Surface.thy ===== *)
theory S3_Surface
  imports S3_Listing Reception Workers
begin

text \<open>
  The S3 requests (\<open>src/src/s3_server.rs\<close>): how errors become S3 errors, the expiry headers,
  byte ranges, the conditional headers, and the handlers of the object requests down to the
  service operations they call.  A header is what \<open>to_str\<close> gives of it.  The parser of ETag
  conditions and their text, RFC 3339 texts and the addition on \<open>OffsetDateTime\<close> belong to
  libraries and are parameters; additions of u64 wrap, as in a build without overflow checks.
\<close>

section \<open>Errors\<close>

datatype S3ErrorCode =
    S_NoSuchBucket | S_BucketAlreadyOwnedByYou | S_InvalidBucketName | S_BucketNotEmpty | S_NoSuchKey
  | S_PreconditionFailed | S_EntityTooLarge | S_InternalError | S_InvalidArgument | S_InvalidRange
  | S_NotModified | S_NoSuchUpload | S_InvalidPart

type_synonym S3Error = "S3ErrorCode \<times> string"

fun map_object_error :: "ObjectFormatError \<Rightarrow> S3Error" where
  "map_object_error (Metadata (BucketNotFound bucket)) = (S_NoSuchBucket, bucket)"
| "map_object_error (Metadata (BucketAlreadyExists bucket)) = (S_BucketAlreadyOwnedByYou, bucket)"
| "map_object_error (InvalidBucketName message) = (S_InvalidBucketName, message)"
| "map_object_error (Metadata (BucketNotEmpty bucket)) = (S_BucketNotEmpty, bucket)"
| "map_object_error (Metadata (ManifestNotFound _)) = (S_NoSuchKey, ''object does not exist'')"
| "map_object_error (Metadata (PreconditionFailed message)) = (S_PreconditionFailed, message)"
| "map_object_error (Metadata (QuotaExceeded message)) = (S_EntityTooLarge, message)"
| "map_object_error other = (S_InternalError, object_error_text other)"

section \<open>Headers\<close>

type_synonym headers = "string \<Rightarrow> string option"

definition EXPIRY_AT_HEADER :: string where "EXPIRY_AT_HEADER = ''x-amz-meta-telegram-s3-expires-at''"

definition EXPIRY_IN_HEADER :: string where "EXPIRY_IN_HEADER = ''x-amz-meta-telegram-s3-expires-in''"

text \<open>\<open>None\<close> is the panic of \<open>now + Duration\<close> when the sum is no date the library represents.\<close>

definition parse_expiry_headers ::
  "(string \<Rightarrow> instant option) \<Rightarrow> (instant \<Rightarrow> int \<Rightarrow> instant option) \<Rightarrow> instant \<Rightarrow> headers \<Rightarrow>
   (S3Error + instant option) option" where
  "parse_expiry_headers parse_rfc3339 add_seconds utc hs =
     (let at = hs EXPIRY_AT_HEADER; in_seconds = hs EXPIRY_IN_HEADER;
          future = (\<lambda>e. if e \<le> utc then Inl (S_InvalidArgument, ''object expiry must be in the future'')
                        else Inr (Some e)) in
      if at \<noteq> None \<and> in_seconds \<noteq> None
      then Some (Inl (S_InvalidArgument,
             ''set only one of x-amz-meta-telegram-s3-expires-at and x-amz-meta-telegram-s3-expires-in''))
      else (case at of
        Some v \<Rightarrow>
          (case parse_rfc3339 v of
             None \<Rightarrow> Some (Inl (S_InvalidArgument, ''invalid object expiry timestamp''))
           | Some e \<Rightarrow> Some (future e))
      | None \<Rightarrow>
          (case in_seconds of
             None \<Rightarrow> Some (Inr None)
           | Some v \<Rightarrow>
               (case parse_i64 v of
                  None \<Rightarrow> Some (Inl (S_InvalidArgument, ''invalid object expiry seconds''))
                | Some n \<Rightarrow>
                    if n \<le> 0 then Some (Inl (S_InvalidArgument, ''object expiry seconds must be positive''))
                    else map_option future (add_seconds utc n)))))"

definition add_expiry_metadata ::
  "(instant \<Rightarrow> string option) \<Rightarrow> (string \<Rightarrow> string option) \<Rightarrow> ObjectManifest \<Rightarrow> (string \<Rightarrow> string option)" where
  "add_expiry_metadata format_rfc3339 metadata m =
     (case Option.bind (expires_at m) format_rfc3339 of
        None \<Rightarrow> metadata
      | Some v \<Rightarrow> metadata(''telegram-s3-expires-at'' \<mapsto> v))"

definition wrapping_succ :: "nat \<Rightarrow> nat" where
  "wrapping_succ n = (n + 1) mod (u64_max + 1)"

definition range_end :: "nat \<Rightarrow> string \<Rightarrow> S3Error + nat" where
  "range_end len e =
     (if e = [] then Inr len
      else map_sum id wrapping_succ (ok_or (S_InvalidRange, ''invalid range end'') (parse_u64 e)))"

definition content_range_text :: "nat \<Rightarrow> nat \<Rightarrow> nat \<Rightarrow> string" where
  "content_range_text a b len = ''bytes '' @ show_nat a @ ''-'' @ show_nat (b - 1) @ ''/'' @ show_nat len"

definition object_range :: "headers \<Rightarrow> nat \<Rightarrow> S3Error + (nat \<times> nat) \<times> string option" where
  "object_range hs len =
     (case hs ''range'' of
        None \<Rightarrow> Inr ((0, len), None)
      | Some h \<Rightarrow>
          bind_res (ok_or (S_InvalidRange, ''unsupported range header'') (strip_prefix ''bytes='' h)) (\<lambda>v.
          case split_once (CHR ''-'') v of
            None \<Rightarrow> Inl (S_InvalidRange, ''unsupported range header'')
          | Some (s, e) \<Rightarrow>
              if s = [] then
                bind_res (ok_or (S_InvalidRange, ''invalid suffix range'') (parse_u64 e)) (\<lambda>n.
                Inr ((len - n, len), Some (content_range_text (len - n) len len)))
              else
                bind_res (ok_or (S_InvalidRange, ''invalid range start'') (parse_u64 s)) (\<lambda>a.
                bind_res (range_end len e) (\<lambda>b.
                if b < a \<or> len < b then Inl (S_InvalidRange, ''requested range is invalid'')
                else Inr ((a, b), Some (content_range_text a b len))))))"

definition parse_byte_range :: "string \<Rightarrow> nat \<Rightarrow> S3Error + nat \<times> nat" where
  "parse_byte_range v len =
     bind_res (ok_or (S_InvalidRange, ''unsupported range header'') (strip_prefix ''bytes='' v)) (\<lambda>v.
     bind_res (ok_or (S_InvalidRange, ''invalid range header'') (split_once (CHR ''-'') v)) (\<lambda>(s, e).
     bind_res (ok_or (S_InvalidRange, ''invalid range start'') (parse_u64 s)) (\<lambda>a.
     bind_res (range_end len e) (\<lambda>b.
     if b < a \<or> len < b then Inl (S_InvalidRange, ''requested range is invalid'') else Inr (a, b)))))"

section \<open>Conditional requests\<close>

abbreviation etag_of :: "ObjectManifest \<Rightarrow> string" where
  "etag_of m \<equiv> whole_object (m_checksum m)"

definition enforce_read_conditionals ::
  "ETagCondition option \<Rightarrow> ETagCondition option \<Rightarrow> instant option \<Rightarrow> instant option \<Rightarrow> ObjectManifest \<Rightarrow> S3Error + unit" where
  "enforce_read_conditionals if_match if_none_match modified unmodified m =
     (case if_match of
        Some c \<Rightarrow>
          if etag_condition_matches c (etag_of m) then Inr ()
          else Inl (S_PreconditionFailed, ''if-match precondition failed'')
      | None \<Rightarrow>
          if (case unmodified of None \<Rightarrow> False | Some t \<Rightarrow> t < created_at m)
          then Inl (S_PreconditionFailed, ''if-unmodified-since precondition failed'')
          else if (case if_none_match of None \<Rightarrow> False | Some c \<Rightarrow> etag_condition_matches c (etag_of m))
          then Inl (S_NotModified, ''object not modified'')
          else if (case modified of None \<Rightarrow> False | Some t \<Rightarrow> created_at m \<le> t)
          then Inl (S_NotModified, ''object not modified'')
          else Inr ())"

definition enforce_write_conditionals ::
  "ETagCondition option \<Rightarrow> ETagCondition option \<Rightarrow> ObjectManifest option \<Rightarrow> S3Error + unit" where
  "enforce_write_conditionals if_match if_none_match current =
     (case current of
        None \<Rightarrow> if if_match \<noteq> None then Inl (S_PreconditionFailed, ''if-match precondition failed'') else Inr ()
      | Some m \<Rightarrow>
          (case if_match of
             Some c \<Rightarrow>
               if etag_condition_matches c (etag_of m) then Inr ()
               else Inl (S_PreconditionFailed, ''if-match precondition failed'')
           | None \<Rightarrow>
               if (case if_none_match of None \<Rightarrow> False | Some c \<Rightarrow> etag_condition_matches c (etag_of m))
               then Inl (S_PreconditionFailed, ''if-none-match precondition failed'') else Inr ()))"

definition write_conditionals_snapshot ::
  "(ETagCondition \<Rightarrow> string) \<Rightarrow> ETagCondition option \<Rightarrow> ETagCondition option \<Rightarrow> TransferWriteConditionals option" where
  "write_conditionals_snapshot to_http if_match if_none_match =
     (if if_match = None \<and> if_none_match = None then None
      else Some \<lparr> twc_if_match = map_option to_http if_match, twc_if_none_match = map_option to_http if_none_match \<rparr>)"

definition enforce_copy_source_conditionals ::
  "ETagCondition option \<Rightarrow> ETagCondition option \<Rightarrow> instant option \<Rightarrow> instant option \<Rightarrow> ObjectManifest \<Rightarrow> S3Error + unit" where
  "enforce_copy_source_conditionals if_match if_none_match modified unmodified m =
     (case if_match of
        Some c \<Rightarrow>
          if etag_condition_matches c (etag_of m) then Inr ()
          else Inl (S_PreconditionFailed, ''copy-source if-match precondition failed'')
      | None \<Rightarrow>
          if (case unmodified of None \<Rightarrow> False | Some t \<Rightarrow> t < created_at m)
          then Inl (S_PreconditionFailed, ''copy-source if-unmodified-since precondition failed'')
          else if (case if_none_match of None \<Rightarrow> False | Some c \<Rightarrow> etag_condition_matches c (etag_of m))
          then Inl (S_PreconditionFailed, ''copy-source if-none-match precondition failed'')
          else if (case modified of None \<Rightarrow> False | Some t \<Rightarrow> created_at m \<le> t)
          then Inl (S_PreconditionFailed, ''copy-source if-modified-since precondition failed'')
          else Inr ())"

definition enforce_delete_conditionals ::
  "ETagCondition option \<Rightarrow> instant option \<Rightarrow> int option \<Rightarrow> ObjectManifest \<Rightarrow> S3Error + unit" where
  "enforce_delete_conditionals if_match if_time if_size m =
     (if (case if_match of None \<Rightarrow> False | Some c \<Rightarrow> \<not> etag_condition_matches c (etag_of m))
      then Inl (S_PreconditionFailed, ''if-match precondition failed'')
      else if (case if_time of None \<Rightarrow> False | Some t \<Rightarrow> created_at m \<noteq> t)
      then Inl (S_PreconditionFailed, ''if-match-last-modified-time precondition failed'')
      else if (case if_size of None \<Rightarrow> False | Some n \<Rightarrow> u64_as_i64 (content_length m) \<noteq> n)
      then Inl (S_PreconditionFailed, ''if-match-size precondition failed'')
      else Inr ())"

section \<open>Buckets\<close>

definition s3_create_bucket :: "string \<Rightarrow> string \<Rightarrow> store \<Rightarrow> S3Error + unit \<times> store" where
  "s3_create_bucket ts bucket st = map_sum map_object_error (\<lambda>(_, st'). ((), st')) (create_bucket ts bucket st)"

definition head_bucket :: "string \<Rightarrow> store \<Rightarrow> S3Error + unit" where
  "head_bucket bucket st =
     (if \<not> bucket_exists bucket st then Inl (S_NoSuchBucket, ''bucket does not exist'') else Inr ())"

section \<open>Reading objects\<close>

definition resolve_manifest ::
  "(string \<Rightarrow> string + uuid) \<Rightarrow> (string \<Rightarrow> bool) \<Rightarrow> instant \<Rightarrow> string \<Rightarrow> string \<Rightarrow> string option \<Rightarrow> store \<Rightarrow>
   ObjectFormatError + ObjectManifest option" where
  "resolve_manifest parse_uuid rechunk_locked utc bucket key version st =
     (case version of
        Some v \<Rightarrow> get_manifest_by_version parse_uuid utc bucket key v st
      | None \<Rightarrow> visible_manifest rechunk_locked utc bucket key st)"

record ObjectRequest =
  or_bucket :: string
  or_key :: string
  or_version_id :: "string option"
  or_if_match :: "ETagCondition option"
  or_if_none_match :: "ETagCondition option"
  or_if_modified_since :: "instant option"
  or_if_unmodified_since :: "instant option"
  or_headers :: headers

record ObjectOutput =
  oo_content_length :: int
  oo_content_type :: string
  oo_e_tag :: string
  oo_last_modified :: instant
  oo_metadata :: "string \<Rightarrow> string option"
  oo_version_id :: "string option"
  oo_content_range :: "string option"

definition readable_manifest ::
  "(string \<Rightarrow> string + uuid) \<Rightarrow> (string \<Rightarrow> bool) \<Rightarrow> instant \<Rightarrow> ObjectRequest \<Rightarrow> store \<Rightarrow> S3Error + ObjectManifest" where
  "readable_manifest parse_uuid rechunk_locked utc req st =
     bind_res (map_err map_object_error
       (resolve_manifest parse_uuid rechunk_locked utc (or_bucket req) (or_key req) (or_version_id req) st)) (\<lambda>found.
     bind_res (ok_or (S_NoSuchKey, ''object does not exist'') found) (\<lambda>m.
     if commit_state m \<noteq> Committed then Inl (S_NoSuchKey, ''object does not exist'')
     else bind_res (enforce_read_conditionals (or_if_match req) (or_if_none_match req) (or_if_modified_since req)
            (or_if_unmodified_since req) m) (\<lambda>_. Inr m)))"

definition object_output ::
  "(instant \<Rightarrow> string option) \<Rightarrow> ObjectManifest \<Rightarrow> nat \<Rightarrow> string option \<Rightarrow> ObjectOutput" where
  "object_output format_rfc3339 m len content_range =
     \<lparr> oo_content_length = u64_as_i64 len, oo_content_type = content_type m, oo_e_tag = etag_of m,
       oo_last_modified = created_at m,
       oo_metadata = add_expiry_metadata format_rfc3339 (map_of (user_metadata m)) m,
       oo_version_id = version_id m, oo_content_range = content_range \<rparr>"

definition head_object ::
  "(string \<Rightarrow> string + uuid) \<Rightarrow> (instant \<Rightarrow> string option) \<Rightarrow> (string \<Rightarrow> bool) \<Rightarrow> instant \<Rightarrow> ObjectRequest \<Rightarrow> store \<Rightarrow>
   S3Error + ObjectOutput" where
  "head_object parse_uuid format_rfc3339 rechunk_locked utc req st =
     bind_res (readable_manifest parse_uuid rechunk_locked utc req st) (\<lambda>m.
     Inr (object_output format_rfc3339 m (content_length m) None))"

text \<open>The body of the response is the stream of the planned spans of the manifest.\<close>

definition get_object ::
  "(string \<Rightarrow> string + uuid) \<Rightarrow> (instant \<Rightarrow> string option) \<Rightarrow> (string \<Rightarrow> bool) \<Rightarrow> instant \<Rightarrow> ObjectRequest \<Rightarrow> store \<Rightarrow>
   S3Error + ObjectOutput \<times> ObjectManifest \<times> ReadSpan list" where
  "get_object parse_uuid format_rfc3339 rechunk_locked utc req st =
     bind_res (readable_manifest parse_uuid rechunk_locked utc req st) (\<lambda>m.
     bind_res (object_range (or_headers req) (content_length m)) (\<lambda>((a, b), content_range).
     bind_res (map_err map_object_error (plan_read m a b)) (\<lambda>plan.
     Inr (object_output format_rfc3339 m (b - a) content_range, m, rp_chunks plan))))"

section \<open>Writing and deleting objects\<close>

definition enqueue_stream_with_expiry ::
  "ObjectFormatService \<Rightarrow> seconds \<Rightarrow> string \<Rightarrow> instant \<Rightarrow> uuid \<Rightarrow> string \<Rightarrow> string \<Rightarrow> string \<Rightarrow>
   byte list list \<Rightarrow> bool \<Rightarrow> TransferWriteConditionals option \<Rightarrow> instant option \<Rightarrow> node \<Rightarrow>
   ((ObjectFormatError + transfer_row) \<times> node) option" where
  "enqueue_stream_with_expiry sv now ts utc oid bucket key ctype frames interrupted conditionals expires nd =
     (case bind_res (ensure_connection_not_removing (nd_store nd)) (\<lambda>_. ensure_quota_available (nd_store nd)) of
        Inl e \<Rightarrow> Some (Inl e, nd)
      | Inr _ \<Rightarrow> enqueue_with_part sv now ts utc oid bucket key ctype frames interrupted None conditionals expires nd)"

record PutRequest =
  pq_bucket :: string
  pq_key :: string
  pq_content_type :: "string option"
  pq_if_match :: "ETagCondition option"
  pq_if_none_match :: "ETagCondition option"

definition put_guard :: "(string \<Rightarrow> bool) \<Rightarrow> instant \<Rightarrow> PutRequest \<Rightarrow> store \<Rightarrow> S3Error + unit" where
  "put_guard rechunk_locked utc req st =
     (if \<not> bucket_exists (pq_bucket req) st then Inl (S_NoSuchBucket, ''bucket does not exist'')
      else bind_res (map_err map_object_error (visible_manifest rechunk_locked utc (pq_bucket req) (pq_key req) st))
             (enforce_write_conditionals (pq_if_match req) (pq_if_none_match req)))"

text \<open>
  The request up to the durable job it then waits for with \<open>wait_transfer\<close>; \<open>expiry\<close> is the
  result of \<open>parse_expiry_headers\<close>, which runs first.
\<close>

definition put_object ::
  "(ETagCondition \<Rightarrow> string) \<Rightarrow> (string \<Rightarrow> bool) \<Rightarrow> ObjectFormatService \<Rightarrow> seconds \<Rightarrow> string \<Rightarrow> instant \<Rightarrow> uuid \<Rightarrow>
   S3Error + instant option \<Rightarrow> PutRequest \<Rightarrow> byte list list \<Rightarrow> bool \<Rightarrow> node \<Rightarrow> ((S3Error + transfer_row) \<times> node) option" where
  "put_object to_http rechunk_locked sv now ts utc oid expiry req frames interrupted nd =
     (case bind_res expiry (\<lambda>e. bind_res (put_guard rechunk_locked utc req (nd_store nd)) (\<lambda>_. Inr e)) of
        Inl e \<Rightarrow> Some (Inl e, nd)
      | Inr expires \<Rightarrow>
          map_option (\<lambda>(r, nd'). (map_err map_object_error r, nd'))
            (enqueue_stream_with_expiry sv now ts utc oid (pq_bucket req) (pq_key req)
               (case pq_content_type req of None \<Rightarrow> ''application/octet-stream'' | Some t \<Rightarrow> t) frames interrupted
               (write_conditionals_snapshot to_http (pq_if_match req) (pq_if_none_match req)) expires nd))"

record DeleteRequest =
  dq_bucket :: string
  dq_key :: string
  dq_version_id :: "string option"
  dq_if_match :: "ETagCondition option"
  dq_if_time :: "instant option"
  dq_if_size :: "int option"

definition delete_version ::
  "(string \<Rightarrow> string + uuid) \<Rightarrow> seconds \<Rightarrow> string \<Rightarrow> instant \<Rightarrow> DeleteRequest \<Rightarrow> string \<Rightarrow> store \<Rightarrow>
   S3Error + ObjectManifest option \<times> store" where
  "delete_version parse_uuid now ts utc req version st =
     bind_res (map_err map_object_error
       (get_manifest_by_version parse_uuid utc (dq_bucket req) (dq_key req) version st)) (\<lambda>found.
     bind_res (ok_or (S_NoSuchKey, ''object does not exist'') found) (\<lambda>m.
     bind_res (enforce_delete_conditionals (dq_if_match req) (dq_if_time req) (dq_if_size req) m) (\<lambda>_.
     map_sum (\<lambda>e. map_object_error (Metadata e)) (\<lambda>(d, st'). (Some d, st'))
       (tombstone_manifest_with_conditionals now ts (m_object_id m) ''deleted via S3''
          (dq_if_match req) (dq_if_time req) (dq_if_size req) st))))"

definition delete_current ::
  "(string \<Rightarrow> bool) \<Rightarrow> seconds \<Rightarrow> string \<Rightarrow> instant \<Rightarrow> DeleteRequest \<Rightarrow> store \<Rightarrow> S3Error + ObjectManifest option \<times> store" where
  "delete_current rechunk_locked now ts utc req st =
     bind_res (map_err map_object_error (visible_manifest rechunk_locked utc (dq_bucket req) (dq_key req) st)) (\<lambda>found.
     bind_res (case found of
                 None \<Rightarrow> Inr ()
               | Some m \<Rightarrow> enforce_delete_conditionals (dq_if_match req) (dq_if_time req) (dq_if_size req) m) (\<lambda>_.
     map_err (\<lambda>e. map_object_error (Metadata e))
       (delete_active_key now ts (dq_bucket req) (dq_key req) ''deleted via S3''
          (dq_if_match req) (dq_if_time req) (dq_if_size req) st)))"

definition delete_object ::
  "(string \<Rightarrow> string + uuid) \<Rightarrow> (string \<Rightarrow> bool) \<Rightarrow> seconds \<Rightarrow> string \<Rightarrow> instant \<Rightarrow> DeleteRequest \<Rightarrow> store \<Rightarrow>
   S3Error + (bool \<times> string option) \<times> store" where
  "delete_object parse_uuid rechunk_locked now ts utc req st =
     bind_res (case dq_version_id req of
                 Some v \<Rightarrow> delete_version parse_uuid now ts utc req v st
               | None \<Rightarrow> delete_current rechunk_locked now ts utc req st) (\<lambda>(deleted, st').
     Inr ((deleted \<noteq> None, map_option m_object_id deleted), st'))"

section \<open>Versions\<close>

text \<open>An object version, or a delete marker, which has no ETag, size and storage class.\<close>

record version_entry =
  ve_key :: string
  ve_last_modified :: instant
  ve_is_latest :: bool
  ve_version_id :: string
  ve_e_tag :: "string option"
  ve_size :: "int option"
  ve_storage_class :: "string option"

definition latest_of :: "ObjectManifest list \<Rightarrow> string \<Rightarrow> string option" where
  "latest_of ms k = map_option m_object_id (find (\<lambda>m. m_key m = k) ms)"

definition version_entry_of :: "ObjectManifest list \<Rightarrow> ObjectManifest \<Rightarrow> version_entry" where
  "version_entry_of ms m =
     \<lparr> ve_key = m_key m, ve_last_modified = created_at m, ve_is_latest = (latest_of ms (m_key m) = Some (m_object_id m)),
       ve_version_id = m_object_id m,
       ve_e_tag = (if commit_state m = Committed then Some (etag_of m) else None),
       ve_size = (if commit_state m = Committed then Some (u64_as_i64 (content_length m)) else None),
       ve_storage_class = (if commit_state m = Committed then Some ''STANDARD'' else None) \<rparr>"

definition listed_versions :: "instant \<Rightarrow> string \<Rightarrow> string \<Rightarrow> ObjectManifest list \<Rightarrow> ObjectManifest list" where
  "listed_versions utc bucket prefix ms =
     sort_key (\<lambda>m. - created_at m)
       (filter (\<lambda>m. \<not> is_expired m utc)
         (filter (\<lambda>m. prefix = [] \<or> strip_prefix prefix (m_key m) \<noteq> None)
           (filter (\<lambda>m. m_bucket m = bucket) ms)))"

definition list_object_versions ::
  "instant \<Rightarrow> string \<Rightarrow> string option \<Rightarrow> store \<Rightarrow> S3Error + version_entry list \<times> version_entry list" where
  "list_object_versions utc bucket prefix st =
     (if \<not> bucket_exists bucket st then Inl (S_NoSuchBucket, ''bucket does not exist'')
      else bind_res (map_err (\<lambda>e. map_object_error (Metadata e)) (list_manifests st)) (\<lambda>all.
        let ms = listed_versions utc bucket (case prefix of None \<Rightarrow> [] | Some p \<Rightarrow> p) all in
        Inr (map (version_entry_of ms) (filter (\<lambda>m. commit_state m = Committed) ms),
             map (version_entry_of ms) (filter (\<lambda>m. commit_state m = Tombstoned) ms))))"

section \<open>Ranges\<close>

lemma is_ascii_digit_digit_char: "n < 10 \<Longrightarrow> is_ascii_digit (digit_char n) \<and> of_char (digit_char n) = n + 48"
  by (simp add: is_ascii_digit_def digit_char_def)

lemma show_nat_digits: "show_nat n \<noteq> [] \<and> list_all is_ascii_digit (show_nat n) \<and> digits_value (show_nat n) = n"
proof (induction n rule: show_nat.induct)
  case (1 n)
  show ?case
  proof (cases "n < 10")
    case True
    thus ?thesis using is_ascii_digit_digit_char[OF True]
      by (simp add: show_nat.simps[of n] digits_value_def)
  next
    case False
    have "n mod 10 < 10" by simp
    thus ?thesis using 1[OF False] False is_ascii_digit_digit_char[of "n mod 10"]
      by (simp add: show_nat.simps[of n] digits_value_def)
  qed
qed

lemma parse_show_u64: "n \<le> u64_max \<Longrightarrow> parse_u64 (show_nat n) = Some n"
proof -
  assume n: "n \<le> u64_max"
  obtain c cs where s: "show_nat n = c # cs" using show_nat_digits[of n] by (cases "show_nat n") auto
  have "c \<noteq> CHR ''+''" using show_nat_digits[of n] s by (auto simp: is_ascii_digit_def)
  thus ?thesis using n show_nat_digits[of n] s by (simp add: parse_u64_def parse_unsigned_def)
qed

lemma object_range_inside:
  assumes "object_range hs len = Inr ((a, b), cr)"
  shows "a \<le> b \<and> b \<le> len"
proof (cases "hs ''range''")
  case None
  thus ?thesis using assms by (simp add: object_range_def)
next
  case (Some h)
  obtain v where v: "strip_prefix ''bytes='' h = Some v"
    using assms Some by (auto simp: object_range_def bind_res_Inr_iff ok_or_Inr_iff)
  obtain s e where se: "split_once (CHR ''-'') v = Some (s, e)"
    using assms Some v by (cases "split_once (CHR ''-'') v") (auto simp: object_range_def)
  note r = assms[unfolded object_range_def Some option.case v ok_or_simps bind_res_simps se prod.case]
  show ?thesis
  proof (cases "s = []")
    case True
    thus ?thesis using r by (auto simp: bind_res_Inr_iff)
  next
    case False
    thus ?thesis using r by (auto simp: bind_res_Inr_iff split: if_splits)
  qed
qed

lemma split_once_digits: "list_all is_ascii_digit s \<Longrightarrow> split_once (CHR ''-'') (s @ CHR ''-'' # e) = Some (s, e)"
  by (induction s) (auto simp: is_ascii_digit_def)

text \<open>
  C23: Byte ranges of a GET request.  Whatever the header says, an accepted range lies inside the object.
  Without a header it is the whole object.  \<open>bytes=i-j\<close> with \<open>i \<le> j\<close> inside the object gives exactly the
  bytes i to j and says so in the content range; \<open>bytes=i-\<close> gives the bytes from i on and \<open>bytes=-n\<close> the last
  n bytes, or the whole object if it is shorter.
\<close>

theorem object_range_exact:
  assumes "len \<le> u64_max"
  shows "(\<forall>hs a b cr. object_range hs len = Inr ((a, b), cr) \<longrightarrow> a \<le> b \<and> b \<le> len) \<and>
    (\<forall>hs. hs ''range'' = None \<longrightarrow> object_range hs len = Inr ((0, len), None)) \<and>
    (\<forall>hs i j. hs ''range'' = Some (''bytes='' @ show_nat i @ ''-'' @ show_nat j) \<and> i \<le> j \<and> j < len \<longrightarrow>
       object_range hs len = Inr ((i, j + 1), Some (content_range_text i (j + 1) len))) \<and>
    (\<forall>hs i. hs ''range'' = Some (''bytes='' @ show_nat i @ ''-'') \<and> i \<le> len \<longrightarrow>
       object_range hs len = Inr ((i, len), Some (content_range_text i len len))) \<and>
    (\<forall>hs n. hs ''range'' = Some (''bytes=-'' @ show_nat n) \<and> n \<le> u64_max \<longrightarrow>
       object_range hs len = Inr ((len - n, len), Some (content_range_text (len - n) len len)))"
proof (intro conjI allI impI)
  fix hs a b cr assume r: "object_range hs len = Inr ((a, b), cr)"
  show "a \<le> b" "b \<le> len"
    using object_range_inside[OF r] by simp_all
next
  fix hs :: headers assume "hs ''range'' = None"
  thus "object_range hs len = Inr ((0, len), None)" by (simp add: object_range_def)
next
  fix hs :: headers and i j
  assume h: "hs ''range'' = Some (''bytes='' @ show_nat i @ ''-'' @ show_nat j) \<and> i \<le> j \<and> j < len"
  have "split_once (CHR ''-'') (show_nat i @ CHR ''-'' # show_nat j) = Some (show_nat i, show_nat j)"
    using show_nat_digits by (intro split_once_digits) blast
  thus "object_range hs len = Inr ((i, j + 1), Some (content_range_text i (j + 1) len))"
    using h assms show_nat_digits[of i] show_nat_digits[of j] parse_show_u64[of i] parse_show_u64[of j]
    by (simp add: object_range_def strip_prefix_def range_end_def wrapping_succ_def)
next
  fix hs :: headers and i
  assume h: "hs ''range'' = Some (''bytes='' @ show_nat i @ ''-'') \<and> i \<le> len"
  have "split_once (CHR ''-'') (show_nat i @ CHR ''-'' # []) = Some (show_nat i, [])"
    using show_nat_digits by (intro split_once_digits) blast
  thus "object_range hs len = Inr ((i, len), Some (content_range_text i len len))"
    using h assms show_nat_digits[of i] parse_show_u64[of i]
    by (simp add: object_range_def strip_prefix_def range_end_def)
next
  fix hs :: headers and n
  assume h: "hs ''range'' = Some (''bytes=-'' @ show_nat n) \<and> n \<le> u64_max"
  thus "object_range hs len = Inr ((len - n, len), Some (content_range_text (len - n) len len))"
    using parse_show_u64[of n] by (simp add: object_range_def strip_prefix_def)
qed

theorem object_range_exact_witness:
  "object_range [''range'' \<mapsto> ''bytes=2-4''] 10 = Inr ((2, 5), Some ''bytes 2-4/10'')"
proof -
  have h: "[''range'' \<mapsto> ''bytes=2-4''] ''range'' = Some (''bytes='' @ show_nat 2 @ ''-'' @ show_nat 4)"
    "content_range_text 2 5 10 = ''bytes 2-4/10''" "(10::nat) \<le> u64_max"
    by code_simp+
  have "object_range [''range'' \<mapsto> ''bytes=2-4''] 10 = Inr ((2, 4 + 1), Some (content_range_text 2 (4 + 1) 10))"
    by (rule conjunct1[OF conjunct2[OF conjunct2[OF object_range_exact[OF h(3)]]], rule_format]) (use h(1) in simp)
  thus ?thesis using h(2) by simp
qed

text \<open>The end of a range may be the largest u64: its successor wraps to 0 and the response is empty.\<close>

lemma range_end_wraps:
  "object_range [''range'' \<mapsto> ''bytes=0-18446744073709551615''] 10 = Inr ((0, 0), Some ''bytes 0-0/10'')"
  by code_simp

lemma range_beyond_the_end_is_refused:
  "object_range [''range'' \<mapsto> ''bytes=0-10''] 10 = Inl (S_InvalidRange, ''requested range is invalid'')"
  by code_simp

section \<open>Conditions are decided alike twice\<close>

text \<open>
  C29: The condition stored with an upload decides at commit time as the condition of the request decided
  at admission, for whatever object is then current.  With the ETag library reading back the conditions it
  writes, the snapshot of a request is absent exactly when the request is unconditional, and then nothing is
  checked; otherwise commit and admission accept the same objects.  The conditions of a delete are decided
  alike by the handler and inside the transaction.
\<close>

theorem stored_conditions_decide_alike:
  assumes "\<forall>c. parse_etag (to_http c) = Some c"
  shows "(write_conditionals_snapshot to_http if_match if_none_match = None \<longrightarrow>
            enforce_write_conditionals if_match if_none_match current = Inr ()) \<and>
    (\<forall>conds. write_conditionals_snapshot to_http if_match if_none_match = Some conds \<longrightarrow>
       (enforce_write_conditionals_snapshot parse_etag conds current = Inr () \<longleftrightarrow>
        enforce_write_conditionals if_match if_none_match current = Inr ())) \<and>
    (\<forall>t n m. enforce_delete_conditionals_snapshot if_match t n m = Inr () \<longleftrightarrow>
        enforce_delete_conditionals if_match t n m = Inr ())"
proof (intro conjI allI impI)
  assume "write_conditionals_snapshot to_http if_match if_none_match = None"
  thus "enforce_write_conditionals if_match if_none_match current = Inr ()"
    by (cases current) (simp_all add: write_conditionals_snapshot_def enforce_write_conditionals_def split: if_splits)
next
  fix conds assume "write_conditionals_snapshot to_http if_match if_none_match = Some conds"
  hence conds: "conds = \<lparr> twc_if_match = map_option to_http if_match, twc_if_none_match = map_option to_http if_none_match \<rparr>"
    by (simp add: write_conditionals_snapshot_def split: if_splits)
  show "enforce_write_conditionals_snapshot parse_etag conds current = Inr () \<longleftrightarrow>
      enforce_write_conditionals if_match if_none_match current = Inr ()"
    by (cases current; cases if_match; cases if_none_match)
      (simp_all add: conds assms[rule_format] enforce_write_conditionals_def enforce_write_conditionals_snapshot_def)
next
  fix t n m
  show "enforce_delete_conditionals_snapshot if_match t n m = Inr () \<longleftrightarrow> enforce_delete_conditionals if_match t n m = Inr ()"
    unfolding enforce_delete_conditionals_def enforce_delete_conditionals_snapshot_def by simp
qed

definition toy_etag_text :: "ETagCondition \<Rightarrow> string" where
  "toy_etag_text c = (case c of AnyETag \<Rightarrow> ''*'' | StrongETag e \<Rightarrow> CHR ''s'' # e | WeakETag e \<Rightarrow> CHR ''w'' # e)"

definition toy_etag_parse :: "string \<Rightarrow> ETagCondition option" where
  "toy_etag_parse s = (case s of [] \<Rightarrow> None | c # e \<Rightarrow>
     if c = CHR ''s'' then Some (StrongETag e) else if c = CHR ''w'' then Some (WeakETag e) else Some AnyETag)"

theorem stored_conditions_decide_alike_witness:
  "enforce_write_conditionals_snapshot toy_etag_parse \<lparr> twc_if_match = None, twc_if_none_match = Some ''*'' \<rparr>
     (Some (shared_manifest ''o'' Committed)) \<noteq> Inr ()"
proof -
  have law: "\<forall>c. toy_etag_parse (toy_etag_text c) = Some c"
    by (simp add: toy_etag_parse_def toy_etag_text_def split: ETagCondition.splits)
  have s: "write_conditionals_snapshot toy_etag_text None (Some AnyETag) =
      Some \<lparr> twc_if_match = None, twc_if_none_match = Some ''*'' \<rparr>"
    by (simp add: write_conditionals_snapshot_def toy_etag_text_def)
  have "enforce_write_conditionals None (Some AnyETag) (Some (shared_manifest ''o'' Committed)) \<noteq> Inr ()"
    by (simp add: enforce_write_conditionals_def)
  thus ?thesis
    using stored_conditions_decide_alike[OF law, of None "Some AnyETag" "Some (shared_manifest ''o'' Committed)"] s by blast
qed

section \<open>What a GET request serves\<close>

lemma loaded_validates: "load_manifest_by_object_id st oid = Inr (Some m) \<Longrightarrow> validate m = Inr ()"
  by (auto simp: load_manifest_by_object_id_def split: option.splits sum.splits)

lemma resolved_validates:
  assumes "resolve_manifest parse_uuid locked utc b k v st = Inr (Some m)"
  shows "validate m = Inr ()" "\<not> is_expired m utc"
proof -
  have "(\<exists>oid. load_manifest_by_object_id st oid = Inr (Some m)) \<and> \<not> is_expired m utc"
  proof (cases v)
    case None
    hence "visible_manifest locked utc b k st = Inr (Some m)" using assms by (simp add: resolve_manifest_def)
    hence "get_active_manifest b k st = Inr (Some m)" "\<not> is_expired m utc"
      by (auto simp: visible_manifest_def result_simps split: option.splits if_splits)
    thus ?thesis by (auto simp: get_active_manifest_def split: option.splits if_splits)
  next
    case (Some w)
    hence "get_manifest_by_version parse_uuid utc b k w st = Inr (Some m)" using assms by (simp add: resolve_manifest_def)
    then obtain oid x where "get_manifest oid st = Inr x"
        "(case x of None \<Rightarrow> None | Some m \<Rightarrow> if m_bucket m = b \<and> m_key m = k \<and> \<not> is_expired m utc then Some m else None) = Some m"
      by (auto simp: get_manifest_by_version_def result_simps)
    thus ?thesis by (auto simp: get_manifest_def split: option.splits if_splits)
  qed
  thus "validate m = Inr ()" "\<not> is_expired m utc" using loaded_validates by blast+
qed

lemma readable_manifest_Inr:
  assumes "readable_manifest parse_uuid locked utc req st = Inr m"
  shows "validate m = Inr ()" "\<not> is_expired m utc" "commit_state m = Committed"
    "enforce_read_conditionals (or_if_match req) (or_if_none_match req) (or_if_modified_since req)
       (or_if_unmodified_since req) m = Inr ()"
proof -
  have r: "resolve_manifest parse_uuid locked utc (or_bucket req) (or_key req) (or_version_id req) st = Inr (Some m)"
    "commit_state m = Committed"
    "enforce_read_conditionals (or_if_match req) (or_if_none_match req) (or_if_modified_since req)
       (or_if_unmodified_since req) m = Inr ()"
    using assms by (auto simp: readable_manifest_def result_simps split: if_splits)
  show "validate m = Inr ()" "\<not> is_expired m utc" by (rule resolved_validates[OF r(1)])+
  show "commit_state m = Committed"
    "enforce_read_conditionals (or_if_match req) (or_if_none_match req) (or_if_modified_since req)
       (or_if_unmodified_since req) m = Inr ()"
    by (fact r(2), fact r(3))
qed

text \<open>
  C22: A GET request that is answered is answered consistently.  The object is committed, not expired and
  meets the conditions of the request; and for any contents of its chunks that have the recorded sizes, the
  spans the body streams, one after the other, are exactly the bytes of the requested range, as many as the
  declared content length.
\<close>

theorem get_object_serves_the_range:
  assumes "get_object parse_uuid format_rfc3339 locked utc req st = Inr (out, m, spans)"
    and "\<forall>c \<in> set (chunks m). length (pt (ck_order c)) = ck_size c" "content_length m \<le> nat i64_max"
  shows "\<exists>a b. object_range (or_headers req) (content_length m) = Inr ((a, b), oo_content_range out) \<and>
    concat (map (span_piece pt) spans) = drop a (take b (concat (map (\<lambda>c. pt (ck_order c)) (chunks m)))) \<and>
    oo_content_length out = int (length (concat (map (span_piece pt) spans))) \<and>
    commit_state m = Committed \<and> \<not> is_expired m utc \<and>
    enforce_read_conditionals (or_if_match req) (or_if_none_match req) (or_if_modified_since req)
      (or_if_unmodified_since req) m = Inr ()"
proof -
  obtain a b crange plan where g: "readable_manifest parse_uuid locked utc req st = Inr m"
      "object_range (or_headers req) (content_length m) = Inr ((a, b), crange)" "plan_read m a b = Inr plan"
      "out = object_output format_rfc3339 m (b - a) crange" "spans = rp_chunks plan"
    using assms(1) by (auto simp: get_object_def result_simps)
  note r = readable_manifest_Inr[OF g(1)]
  note inside = object_range_inside[OF g(2)]
  note v = validate_contiguous[OF r(1)]
  have small: "0 + total_size (chunks m) \<le> u64_max"
    using v(2,3) by (auto simp: u64_max_def)
  obtain sp where sp: "read_spans a b (chunks m) = Inr sp"
      "concat (map (span_piece pt) sp) = drop a (take b (concat (map (\<lambda>c. pt (ck_order c)) (chunks m))))"
    using read_spans_slices[OF v(1) small, of pt a b] assms(2) by auto
  have spans: "spans = sp" using g(3,5) sp(1) inside by (auto simp: plan_read_def)
  have "length (concat (map (\<lambda>c. pt (ck_order c)) (chunks m))) = content_length m"
    using assms(2) v(2) by (simp add: length_concat total_size_def comp_def cong: map_cong)
  hence "length (concat (map (span_piece pt) spans)) = b - a" using sp(2) spans inside by simp
  moreover have "u64_as_i64 (b - a) = int (b - a)"
    using assms(3) inside by (simp add: u64_as_i64_def i64_max_def)
  ultimately have "oo_content_length out = int (length (concat (map (span_piece pt) spans)))"
    by (simp add: g(4) object_output_def)
  thus ?thesis using g(2,4) sp(2) spans r by (auto simp: object_output_def)
qed

definition toy_get_request :: ObjectRequest where
  "toy_get_request = \<lparr> or_bucket = ''b'', or_key = ''k'', or_version_id = None, or_if_match = None, or_if_none_match = None,
     or_if_modified_since = None, or_if_unmodified_since = None, or_headers = [''range'' \<mapsto> ''bytes=1-3''] \<rparr>"

definition toy_get :: "S3Error + ObjectOutput \<times> ObjectManifest \<times> ReadSpan list" where
  "toy_get = get_object Inr (\<lambda>_. None) (\<lambda>_. False) 9 toy_get_request (nd_store (fst (snd toy_published)))"

theorem get_object_serves_the_range_witness:
  "\<exists>out m spans. toy_get = Inr (out, m, spans) \<and>
     oo_content_length out = int (length (concat (map (span_piece (\<lambda>i. replicate (ck_size (chunks m ! i)) 0)) spans))) \<and>
     oo_content_length out = 3"
proof -
  have "case toy_get of Inl _ \<Rightarrow> False | Inr (out, m, spans) \<Rightarrow> oo_content_length out = 3 \<and>
      list_all (\<lambda>c. ck_size (chunks m ! ck_order c) = ck_size c) (chunks m) \<and> content_length m \<le> nat i64_max"
    by code_simp
  then obtain out m spans where g: "toy_get = Inr (out, m, spans)" "oo_content_length out = 3"
      "\<forall>c \<in> set (chunks m). ck_size (chunks m ! ck_order c) = ck_size c" "content_length m \<le> nat i64_max"
    by (auto simp: list_all_iff split: sum.splits)
  have "\<forall>c \<in> set (chunks m). length (replicate (ck_size (chunks m ! ck_order c)) (0::byte)) = ck_size c"
    using g(3) by simp
  from get_object_serves_the_range[OF g(1)[unfolded toy_get_def], of "\<lambda>i. replicate (ck_size (chunks m ! i)) 0", OF this g(4)]
  show ?thesis using g(1,2) by metis
qed

section \<open>Versions\<close>




definition versioned_row :: "uuid \<Rightarrow> instant \<Rightarrow> CommitState \<Rightarrow> manifest_row" where
  "versioned_row oid at state = (shared_row oid state)\<lparr> om_key := ''k'',
     om_manifest := (shared_manifest oid state)\<lparr> m_key := ''k'', created_at := at \<rparr> \<rparr>"

definition versions_store :: "CommitState \<Rightarrow> store" where
  "versions_store state = bucket_store\<lparr> object_manifests := [versioned_row ''o1'' 5 Committed, versioned_row ''o2'' 7 state] \<rparr>"

definition toy_versions :: "CommitState \<Rightarrow> version_entry list \<times> version_entry list" where
  "toy_versions state = (case list_object_versions 9 ''b'' None (versions_store state) of Inr r \<Rightarrow> r | Inl _ \<Rightarrow> ([], []))"


text \<open>While a newer upload of the key is staged, no version of it is marked latest.\<close>

lemma staged_upload_hides_the_latest:
  "map ve_is_latest (fst (toy_versions Staging)) = [False] \<and> snd (toy_versions Staging) = []"
  by code_simp

end
