(* ===== verification/Operators.thy ===== *)
theory Operators
  imports Display Leases
begin

text \<open>
  Operator accounts: the \<open>users\<close> and \<open>admin_sessions\<close> tables (\<open>src/src/metadata/auth.rs\<close> and the setup
  statements of \<open>durable.rs\<close>), the account rules of \<open>src/src/auth.rs\<close>, and the sessions of the admin
  interface (\<open>src/src/admin.rs\<close>).  Argon2, base64, HMAC and the JSON form of the claims are parameters,
  as are fresh identifiers and the clock; the work a dummy verification burns is not modelled.
\<close>

section \<open>Tables\<close>

record DbUser =
  us_id :: string
  us_username :: string
  us_password_hash :: string
  us_role :: string
  us_display_name :: string
  us_disabled :: bool
  us_token_version :: int
  us_created_at :: string
  us_updated_at :: string

record DbSession =
  se_cookie_id :: string
  se_user_id :: string
  se_token_version :: int
  se_issued_at :: instant
  se_expires_at :: instant
  se_created_ip :: "string option"
  se_revoked_at :: "string option"

record operators =
  op_users :: "DbUser list"
  op_sessions :: "DbSession list"
  op_setup_complete :: "string option"

definition get_user :: "string \<Rightarrow> operators \<Rightarrow> DbUser option" where
  "get_user username ops = find (\<lambda>u. us_username u = username) (op_users ops)"

definition get_user_by_id :: "string \<Rightarrow> operators \<Rightarrow> DbUser option" where
  "get_user_by_id i ops = find (\<lambda>u. us_id u = i) (op_users ops)"

definition list_users :: "operators \<Rightarrow> DbUser list" where
  "list_users ops = sort_key us_username (op_users ops)"

definition user_count :: "operators \<Rightarrow> nat" where
  "user_count ops = length (op_users ops)"

definition enabled_superadmin :: "DbUser \<Rightarrow> bool" where
  "enabled_superadmin u \<longleftrightarrow> us_role u = ''superadmin'' \<and> \<not> us_disabled u"

definition enabled_superadmin_count :: "operators \<Rightarrow> nat" where
  "enabled_superadmin_count ops = count_where enabled_superadmin (op_users ops)"

definition insert_user :: "DbUser \<Rightarrow> operators \<Rightarrow> MetadataError + operators" where
  "insert_user u ops =
     (if exists_where (\<lambda>v. us_id v = us_id u) (op_users ops)
      then Inl (Sqlite ''UNIQUE constraint failed: users.id'')
      else if exists_where (\<lambda>v. us_username v = us_username u) (op_users ops)
      then Inl (Sqlite ''UNIQUE constraint failed: users.username'')
      else Inr (ops\<lparr> op_users := op_users ops @ [u] \<rparr>))"

definition new_user :: "string \<Rightarrow> string \<Rightarrow> string \<Rightarrow> string \<Rightarrow> string \<Rightarrow> string \<Rightarrow> DbUser" where
  "new_user i username hash role display ts =
     \<lparr> us_id = i, us_username = username, us_password_hash = hash, us_role = role, us_display_name = display,
       us_disabled = False, us_token_version = 0, us_created_at = ts, us_updated_at = ts \<rparr>"

definition create_user ::
  "string \<Rightarrow> string \<Rightarrow> string \<Rightarrow> string \<Rightarrow> string \<Rightarrow> string \<Rightarrow> operators \<Rightarrow> MetadataError + DbUser \<times> operators" where
  "create_user ts i username hash role display ops =
     (let effective = (if op_users ops = [] then ''superadmin'' else role) in
      bind_res (insert_user (new_user i username hash effective display ts) ops) (\<lambda>ops1.
      let ops2 = ops1\<lparr> op_setup_complete := Some ''true'' \<rparr> in
      bind_res (ok_or (InvalidManifest ''created user not readable'') (get_user_by_id i ops2)) (\<lambda>u. Inr (u, ops2))))"

definition update_user_profile :: "string \<Rightarrow> string \<Rightarrow> string \<Rightarrow> string option \<Rightarrow> operators \<Rightarrow> operators" where
  "update_user_profile ts i display hash ops =
     ops\<lparr> op_users := update_where (\<lambda>u. us_id u = i)
       (\<lambda>u. case hash of
          Some h \<Rightarrow> u\<lparr> us_display_name := display, us_password_hash := h, us_token_version := us_token_version u + 1,
                     us_updated_at := ts \<rparr>
        | None \<Rightarrow> u\<lparr> us_display_name := display, us_updated_at := ts \<rparr>) (op_users ops) \<rparr>"

text \<open>Sessions go with their user: the foreign key cascades.\<close>

definition delete_user :: "string \<Rightarrow> operators \<Rightarrow> MetadataError + operators" where
  "delete_user i ops =
     (if map_option us_role (get_user_by_id i ops) = Some ''superadmin'' \<and> enabled_superadmin_count ops \<le> 1
      then Inl (InvalidManifest ''cannot delete the last enabled superadmin'')
      else Inr (ops\<lparr> op_users := delete_where (\<lambda>u. us_id u = i) (op_users ops),
                     op_sessions := (if get_user_by_id i ops = None then op_sessions ops
                                     else delete_where (\<lambda>s. se_user_id s = i) (op_sessions ops)) \<rparr>))"

definition set_user_password :: "string \<Rightarrow> string \<Rightarrow> string \<Rightarrow> operators \<Rightarrow> operators" where
  "set_user_password ts i hash ops =
     ops\<lparr> op_users := update_where (\<lambda>u. us_id u = i)
       (\<lambda>u. u\<lparr> us_password_hash := hash, us_token_version := us_token_version u + 1, us_updated_at := ts \<rparr>)
       (op_users ops) \<rparr>"

definition set_user_disabled :: "string \<Rightarrow> string \<Rightarrow> bool \<Rightarrow> operators \<Rightarrow> MetadataError + operators" where
  "set_user_disabled ts i disabled ops =
     (if disabled \<and>
         map_option us_role (find (\<lambda>u. us_id u = i \<and> \<not> us_disabled u) (op_users ops)) = Some ''superadmin'' \<and>
         enabled_superadmin_count ops \<le> 1
      then Inl (InvalidManifest ''cannot disable the last enabled superadmin'')
      else Inr (ops\<lparr> op_users := update_where (\<lambda>u. us_id u = i)
                  (\<lambda>u. u\<lparr> us_disabled := disabled, us_updated_at := ts \<rparr>) (op_users ops) \<rparr>))"

definition current_token_version :: "string \<Rightarrow> operators \<Rightarrow> int" where
  "current_token_version i ops = (case get_user_by_id i ops of None \<Rightarrow> 0 | Some u \<Rightarrow> us_token_version u)"

definition insert_session :: "DbSession \<Rightarrow> operators \<Rightarrow> MetadataError + operators" where
  "insert_session s ops =
     (if exists_where (\<lambda>t. se_cookie_id t = se_cookie_id s) (op_sessions ops)
      then Inl (Sqlite ''UNIQUE constraint failed: admin_sessions.cookie_id'')
      else if get_user_by_id (se_user_id s) ops = None then Inl (Sqlite ''FOREIGN KEY constraint failed'')
      else Inr (ops\<lparr> op_sessions := op_sessions ops @ [s\<lparr> se_revoked_at := None \<rparr>] \<rparr>))"

definition get_session :: "string \<Rightarrow> operators \<Rightarrow> DbSession option" where
  "get_session cookie ops = find (\<lambda>s. se_cookie_id s = cookie) (op_sessions ops)"

definition revoke_where :: "(DbSession \<Rightarrow> bool) \<Rightarrow> string \<Rightarrow> operators \<Rightarrow> operators" where
  "revoke_where P ts ops =
     ops\<lparr> op_sessions := update_where (\<lambda>s. P s \<and> se_revoked_at s = None) (\<lambda>s. s\<lparr> se_revoked_at := Some ts \<rparr>)
            (op_sessions ops) \<rparr>"

definition revoke_session :: "string \<Rightarrow> string \<Rightarrow> operators \<Rightarrow> operators" where
  "revoke_session ts cookie = revoke_where (\<lambda>s. se_cookie_id s = cookie) ts"

definition revoke_user_sessions :: "string \<Rightarrow> string \<Rightarrow> operators \<Rightarrow> operators" where
  "revoke_user_sessions ts i = revoke_where (\<lambda>s. se_user_id s = i) ts"

text \<open>The column holds RFC 3339 text and is compared as text.\<close>

definition sweep_sessions :: "string \<Rightarrow> operators \<Rightarrow> nat \<times> operators" where
  "sweep_sessions cutoff ops =
     (let P = (\<lambda>s. case se_revoked_at s of None \<Rightarrow> False | Some t \<Rightarrow> t < cutoff) in
      (count_where P (op_sessions ops), ops\<lparr> op_sessions := delete_where P (op_sessions ops) \<rparr>))"

text \<open>\<open>setup_required\<close> reads one row; without it the query has no result and fails.\<close>

definition setup_required :: "operators \<Rightarrow> MetadataError + bool" where
  "setup_required ops =
     map_sum id (\<lambda>v. v = ''false'' \<and> op_users ops = [])
       (ok_or (Sqlite ''Query returned no rows'') (op_setup_complete ops))"

definition create_first_user ::
  "string \<Rightarrow> string \<Rightarrow> string \<Rightarrow> string \<Rightarrow> string \<Rightarrow> operators \<Rightarrow> MetadataError + DbUser \<times> operators" where
  "create_first_user ts i username hash display ops =
     (if \<not> (op_setup_complete ops = Some ''false'' \<and> op_users ops = [])
      then Inl (InvalidManifest ''setup is already complete'')
      else
        bind_res (insert_user (new_user i username hash ''superadmin'' display ts)
                    (ops\<lparr> op_setup_complete := Some ''true'' \<rparr>)) (\<lambda>ops1.
        bind_res (ok_or (InvalidManifest ''created account missing'') (get_user_by_id i ops1)) (\<lambda>u. Inr (u, ops1))))"

section \<open>Account rules\<close>

datatype AuthErrorKind =
    InvalidUsername | InvalidDisplayName | WeakPassword | UnknownUser | InvalidPassword | Disabled
  | LockedOut | RateLimited | UsernameTaken | NotAllowed | Internal

record AuthError =
  ae_kind :: AuthErrorKind
  ae_message :: string
  ae_retry_after_secs :: "nat option"

definition auth_error :: "AuthErrorKind \<Rightarrow> string \<Rightarrow> AuthError" where
  "auth_error kind message = \<lparr> ae_kind = kind, ae_message = message, ae_retry_after_secs = None \<rparr>"

fun http_status :: "AuthErrorKind \<Rightarrow> nat" where
  "http_status RateLimited = 429"
| "http_status LockedOut = 429"
| "http_status NotAllowed = 403"
| "http_status UsernameTaken = 409"
| "http_status InvalidUsername = 400"
| "http_status InvalidDisplayName = 400"
| "http_status WeakPassword = 400"
| "http_status UnknownUser = 401"
| "http_status InvalidPassword = 401"
| "http_status Disabled = 401"
| "http_status Internal = 500"

definition store_error :: "MetadataError \<Rightarrow> AuthError" where
  "store_error e = auth_error Internal (''store error: '' @ metadata_error_text e)"

definition char_lower :: "char \<Rightarrow> char" where
  "char_lower c = (let n = (of_char c :: nat) in
     if (65 \<le> n \<and> n \<le> 90) \<or> (192 \<le> n \<and> n \<le> 222 \<and> n \<noteq> 215) then char_of (n + 32) else c)"

definition utf8_length :: "string \<Rightarrow> nat" where
  "utf8_length s = sum_list (map (\<lambda>c. if (of_char c :: nat) < 128 then 1 else 2) s)"

definition is_ascii_control :: "char \<Rightarrow> bool" where
  "is_ascii_control c = (let n = (of_char c :: nat) in n < 32 \<or> n = 127)"

definition is_ascii_whitespace :: "char \<Rightarrow> bool" where
  "is_ascii_whitespace c = ((of_char c :: nat) \<in> {9, 10, 12, 13, 32})"

definition is_control :: "char \<Rightarrow> bool" where
  "is_control c = (let n = (of_char c :: nat) in n < 32 \<or> (127 \<le> n \<and> n < 160))"

definition normalize_username :: "string \<Rightarrow> AuthError + string" where
  "normalize_username raw =
     (let v = map char_lower (trim raw) in
      if v = [] \<or> 64 < utf8_length v \<or> list_ex (\<lambda>c. is_ascii_control c \<or> is_ascii_whitespace c) v
      then Inl (auth_error InvalidUsername ''username must be 1-64 non-control characters'')
      else Inr v)"

definition normalize_display_name :: "string \<Rightarrow> AuthError + string" where
  "normalize_display_name raw =
     (let v = trim raw in
      if v = [] \<or> 120 < length v \<or> list_ex is_control v
      then Inl (auth_error InvalidDisplayName ''display name must be 1-120 non-control characters'')
      else Inr v)"

definition MIN_PASSWORD_LENGTH :: nat where "MIN_PASSWORD_LENGTH = 12"

definition validate_password :: "string \<Rightarrow> AuthError + unit" where
  "validate_password password =
     (if length password < MIN_PASSWORD_LENGTH
      then Inl (auth_error WeakPassword ''password must be at least 12 characters'') else Inr ())"

definition is_superadmin :: "DbUser \<Rightarrow> bool" where
  "is_superadmin u \<longleftrightarrow> us_role u = ''superadmin''"

definition validate_role :: "string \<Rightarrow> bool" where
  "validate_role role \<longleftrightarrow> role = ''admin'' \<or> role = ''superadmin''"

text \<open>What the Argon2 library says of a password and a stored hash, and the hash it makes.\<close>

datatype phc_verdict = Unparsable | Matches | Mismatch | Broken string

record hasher =
  hs_hash :: "string \<Rightarrow> string + string"
  hs_verify :: "string \<Rightarrow> string \<Rightarrow> phc_verdict"

definition hash_password :: "hasher \<Rightarrow> string \<Rightarrow> AuthError + string" where
  "hash_password h password =
     map_err (\<lambda>e. auth_error Internal (''password hashing failed: '' @ e)) (hs_hash h password)"

definition verify_password :: "hasher \<Rightarrow> string \<Rightarrow> string \<Rightarrow> AuthError + unit" where
  "verify_password h password phc =
     (case hs_verify h password phc of
        Unparsable \<Rightarrow> Inl (auth_error UnknownUser ''invalid stored credential'')
      | Matches \<Rightarrow> Inr ()
      | Mismatch \<Rightarrow> Inl (auth_error InvalidPassword ''invalid username or password'')
      | Broken e \<Rightarrow> Inl (auth_error Internal (''password verification failed: '' @ e)))"

definition create_account ::
  "hasher \<Rightarrow> string \<Rightarrow> string \<Rightarrow> string \<Rightarrow> string \<Rightarrow> string \<Rightarrow> string \<Rightarrow> operators \<Rightarrow> AuthError + DbUser \<times> operators" where
  "create_account h ts i raw password requested display ops =
     bind_res (normalize_username raw) (\<lambda>username.
     bind_res (validate_password password) (\<lambda>_.
     if \<not> validate_role requested then Inl (auth_error NotAllowed ''unknown role requested'')
     else if get_user username ops \<noteq> None then Inl (auth_error UsernameTaken ''username taken'')
     else
       (let role = (if user_count ops = 0 then ''superadmin'' else requested) in
        bind_res (hash_password h password) (\<lambda>hash.
        bind_res (map_err (\<lambda>e. auth_error Internal (''failed to store user: '' @ metadata_error_text e))
                    (create_user ts i username hash role display ops)) (\<lambda>(_, ops1).
        bind_res (ok_or (auth_error Internal ''created user is unreadable'') (get_user username ops1)) (\<lambda>u.
        Inr (u, ops1)))))))"

definition authenticate :: "hasher \<Rightarrow> string \<Rightarrow> string \<Rightarrow> operators \<Rightarrow> AuthError + DbUser" where
  "authenticate h raw password ops =
     bind_res (normalize_username raw) (\<lambda>username.
     bind_res (ok_or (auth_error UnknownUser ''invalid username or password'') (get_user username ops)) (\<lambda>u.
     bind_res (verify_password h password (us_password_hash u)) (\<lambda>_.
     if us_disabled u then Inl (auth_error Disabled ''account is disabled'') else Inr u)))"

definition change_password ::
  "hasher \<Rightarrow> string \<Rightarrow> string \<Rightarrow> string \<Rightarrow> operators \<Rightarrow> AuthError + operators" where
  "change_password h ts i password ops =
     bind_res (validate_password password) (\<lambda>_.
     bind_res (hash_password h password) (\<lambda>hash.
     Inr (revoke_user_sessions ts i (set_user_password ts i hash ops))))"

definition profile_password_ok ::
  "hasher \<Rightarrow> string \<Rightarrow> string option \<Rightarrow> string option \<Rightarrow> operators \<Rightarrow> AuthError + unit" where
  "profile_password_ok h i current new ops =
     (case new of
        None \<Rightarrow> Inr ()
      | Some password \<Rightarrow>
          bind_res (ok_or (auth_error InvalidPassword ''current password is required to change password'') current) (\<lambda>cur.
          bind_res (ok_or (auth_error UnknownUser ''account not found'') (get_user_by_id i ops)) (\<lambda>u.
          bind_res (verify_password h cur (us_password_hash u)) (\<lambda>_.
          validate_password password))))"

definition update_profile ::
  "hasher \<Rightarrow> string \<Rightarrow> string \<Rightarrow> string \<Rightarrow> string option \<Rightarrow> string option \<Rightarrow> operators \<Rightarrow> AuthError + operators" where
  "update_profile h ts i raw_display current new ops =
     bind_res (normalize_display_name raw_display) (\<lambda>display.
     bind_res (profile_password_ok h i current new ops) (\<lambda>_.
     bind_res (case new of None \<Rightarrow> Inr None | Some p \<Rightarrow> map_sum id Some (hash_password h p)) (\<lambda>hash.
     let ops1 = update_user_profile ts i display hash ops in
     Inr (if new \<noteq> None then revoke_user_sessions ts i ops1 else ops1))))"

section \<open>The accounts as a state machine\<close>

text \<open>
  One step per operation the admin interface and the command line perform on the tables; a failed operation
  changes nothing.
\<close>

inductive operator_step :: "operators \<Rightarrow> operators \<Rightarrow> bool" where
  create: "create_account h ts i raw password role display ops = Inr (u, ops') \<Longrightarrow> operator_step ops ops'"
| first_account: "normalize_username raw = Inr name \<Longrightarrow> create_first_user ts i name hash display ops = Inr (u, ops') \<Longrightarrow>
    operator_step ops ops'"
| password: "change_password h ts i p ops = Inr ops' \<Longrightarrow> operator_step ops ops'"
| profile: "update_profile h ts i display cur new ops = Inr ops' \<Longrightarrow> operator_step ops ops'"
| disable: "set_user_disabled ts i b ops = Inr ops' \<Longrightarrow> operator_step ops ops'"
| delete: "delete_user i ops = Inr ops' \<Longrightarrow> operator_step ops ops'"
| issue: "insert_session s ops = Inr ops' \<Longrightarrow> get_user_by_id (se_user_id s) ops = Some u \<Longrightarrow>
    se_token_version s = us_token_version u \<Longrightarrow> operator_step ops ops'"
| revoke: "operator_step ops (revoke_session ts c ops)"
| revoke_user: "operator_step ops (revoke_user_sessions ts i ops)"
| sweep: "operator_step ops (snd (sweep_sessions cutoff ops))"

inductive_cases operator_stepE: "operator_step ops ops'"

definition account_ok :: "DbUser \<Rightarrow> bool" where
  "account_ok u \<longleftrightarrow> normalize_username (us_username u) = Inr (us_username u) \<and> validate_role (us_role u)"

definition session_ok :: "DbUser list \<Rightarrow> DbSession \<Rightarrow> bool" where
  "session_ok us s \<longleftrightarrow> (\<exists>u \<in> set us. us_id u = se_user_id s \<and> se_token_version s \<le> us_token_version u)"

definition accounts_wf :: "operators \<Rightarrow> bool" where
  "accounts_wf ops \<longleftrightarrow>
     distinct (map us_id (op_users ops)) \<and> distinct (map us_username (op_users ops)) \<and>
     distinct (map se_cookie_id (op_sessions ops)) \<and>
     list_all account_ok (op_users ops) \<and> list_all (session_ok (op_users ops)) (op_sessions ops) \<and>
     (op_users ops = [] \<or> list_ex enabled_superadmin (op_users ops))"

abbreviation no_accounts :: "operators \<Rightarrow> bool" where
  "no_accounts ops \<equiv> op_users ops = [] \<and> op_sessions ops = []"

abbreviation operators_reachable :: "operators \<Rightarrow> bool" where
  "operators_reachable \<equiv> reachable no_accounts operator_step"

named_theorems accounts_ops \<open>preservation of the account invariant\<close>

subsection \<open>Normal names\<close>

lemma char_lower_idem [simp]: "char_lower (char_lower c) = char_lower c"
  by (simp add: char_lower_def Let_def)

lemma char_lower_whitespace [simp]: "is_whitespace (char_lower c) = is_whitespace c"
  by (auto simp: char_lower_def is_whitespace_def Let_def)

lemma trim_map_lower: "trim (map char_lower s) = map char_lower (trim s)"
proof -
  have drop: "dropWhile is_whitespace (map char_lower xs) = map char_lower (dropWhile is_whitespace xs)" for xs
    by (induction xs) auto
  show ?thesis by (simp add: trim_def trim_start_def trim_end_def drop rev_map)
qed

lemma normalize_idem: "normalize_username raw = Inr v \<Longrightarrow> normalize_username v = Inr v"
  by (auto simp: normalize_username_def Let_def trim_map_lower comp_def split: if_splits)

subsection \<open>Every operation keeps the invariant\<close>

text \<open>Rewriting accounts without touching identity, name and role.\<close>

lemma accounts_wf_update:
  assumes wf: "accounts_wf ops"
    and same: "\<And>u. us_id (f u) = us_id u \<and> us_username (f u) = us_username u \<and> us_role (f u) = us_role u \<and>
      us_token_version u \<le> us_token_version (f u)"
    and admin: "op_users ops \<noteq> [] \<Longrightarrow> list_ex enabled_superadmin (update_where P f (op_users ops))"
  shows "accounts_wf (ops\<lparr> op_users := update_where P f (op_users ops) \<rparr>)"
proof -
  have ids: "map us_id (update_where P f us) = map us_id us" "map us_username (update_where P f us) = map us_username us" for us
    using same by (induction us) auto
  have "list_all account_ok us \<Longrightarrow> list_all account_ok (update_where P f us)" for us
    using same by (induction us) (auto simp: account_ok_def)
  hence "list_all account_ok (update_where P f (op_users ops))" using wf by (simp add: accounts_wf_def)
  moreover have sessions: "session_ok (update_where P f us) s" if ok: "session_ok us s" for us s
  proof -
    obtain u where u: "u \<in> set us" "us_id u = se_user_id s" "se_token_version s \<le> us_token_version u"
      using ok by (auto simp: session_ok_def)
    let ?v = "if P u then f u else u"
    have "?v \<in> set (update_where P f us)" using u(1) by (auto simp: mem_update_where)
    moreover have "us_id ?v = se_user_id s \<and> se_token_version s \<le> us_token_version ?v"
      using u(2,3) same[of u] by auto
    ultimately show ?thesis by (auto simp: session_ok_def)
  qed
  have "list_all (session_ok (update_where P f (op_users ops))) (op_sessions ops)"
    using wf sessions by (auto simp: accounts_wf_def list_all_iff)
  ultimately have rows: "list_all account_ok (update_where P f (op_users ops))"
    "list_all (session_ok (update_where P f (op_users ops))) (op_sessions ops)" by blast+
  moreover have "update_where P f (op_users ops) = [] \<or> list_ex enabled_superadmin (update_where P f (op_users ops))"
    using admin by (cases "op_users ops") auto
  ultimately show ?thesis
    using wf by (simp add: accounts_wf_def ids)
qed

text \<open>Sessions may go, and may be revoked.\<close>

lemma accounts_wf_sessions:
  assumes wf: "accounts_wf ops"
    and same: "\<forall>s \<in> set ss. \<exists>t \<in> set (op_sessions ops). se_user_id s = se_user_id t \<and> se_token_version s = se_token_version t"
    and "distinct (map se_cookie_id ss)"
  shows "accounts_wf (ops\<lparr> op_sessions := ss \<rparr>)"
  using assms by (fastforce simp: accounts_wf_def list_all_iff session_ok_def)

lemma accounts_wf_revoke [accounts_ops]: "accounts_wf ops \<Longrightarrow> accounts_wf (revoke_where P ts ops)"
proof -
  assume wf: "accounts_wf ops"
  let ?ss = "update_where (\<lambda>s. P s \<and> se_revoked_at s = None) (\<lambda>s. s\<lparr> se_revoked_at := Some ts \<rparr>) (op_sessions ops)"
  have "\<exists>t \<in> set (op_sessions ops). se_user_id s = se_user_id t \<and> se_token_version s = se_token_version t"
    if "s \<in> set ?ss" for s
    using that by (rule update_where_cases) (auto intro: bexI[of _ s])
  moreover have "distinct (map se_cookie_id ?ss)"
    using wf by (simp add: accounts_wf_def map_update_where_same)
  ultimately show ?thesis unfolding revoke_where_def by (intro accounts_wf_sessions[OF wf]) blast+
qed

lemma accounts_wf_revokes [accounts_ops]:
  "accounts_wf ops \<Longrightarrow> accounts_wf (revoke_session ts c ops)"
  "accounts_wf ops \<Longrightarrow> accounts_wf (revoke_user_sessions ts i ops)"
  by (simp_all add: revoke_session_def revoke_user_sessions_def accounts_wf_revoke)

lemma accounts_wf_sweep [accounts_ops]: "accounts_wf ops \<Longrightarrow> accounts_wf (snd (sweep_sessions cutoff ops))"
  unfolding sweep_sessions_def Let_def snd_conv
  by (rule accounts_wf_sessions, assumption, unfold mem_delete_where Ball_def, blast)
    (simp add: accounts_wf_def distinct_map_delete_where)

lemma accounts_wf_insert:
  assumes wf: "accounts_wf ops" and ins: "insert_user u ops = Inr ops'"
    and ok: "account_ok u" "op_users ops = [] \<Longrightarrow> enabled_superadmin u"
  shows "accounts_wf (ops'\<lparr> op_setup_complete := v \<rparr>)"
proof -
  have ops': "ops' = ops\<lparr> op_users := op_users ops @ [u] \<rparr>" "us_id u \<notin> us_id ` set (op_users ops)"
      "us_username u \<notin> us_username ` set (op_users ops)"
    using ins by (auto simp: insert_user_def split: if_splits)
  have "session_ok (op_users ops @ [u]) s" if "session_ok (op_users ops) s" for s
    using that by (auto simp: session_ok_def)
  thus ?thesis using wf ok ops' by (auto simp: accounts_wf_def list_all_iff)
qed

lemma accounts_wf_create:
  assumes wf: "accounts_wf ops" and c: "create_account h ts i raw p role display ops = Inr (u, ops')"
  shows "accounts_wf ops'"
proof -
  let ?role = "if op_users ops = [] then ''superadmin'' else if user_count ops = 0 then ''superadmin'' else role"
  obtain name hash ops1 where s: "normalize_username raw = Inr name" "validate_role role"
      "insert_user (new_user i name hash ?role display ts) ops = Inr ops1"
      "ops' = ops1\<lparr> op_setup_complete := Some ''true'' \<rparr>"
    using c by (auto simp: create_account_def create_user_def Let_def result_simps split: if_splits)
  have "account_ok (new_user i name hash ?role display ts)"
    using normalize_idem[OF s(1)] s(2) by (simp add: account_ok_def new_user_def validate_role_def)
  thus ?thesis unfolding s(4)
    by (rule accounts_wf_insert[OF wf s(3)]) (simp add: enabled_superadmin_def new_user_def)
qed

lemma accounts_wf_first:
  assumes wf: "accounts_wf ops" and name: "normalize_username raw = Inr name"
    and c: "create_first_user ts i name hash display ops = Inr (u, ops')"
  shows "accounts_wf ops'"
proof -
  let ?u = "new_user i name hash ''superadmin'' display ts"
  have "accounts_wf (ops\<lparr> op_setup_complete := Some ''true'' \<rparr>)" using wf by (simp add: accounts_wf_def)
  moreover have "insert_user ?u (ops\<lparr> op_setup_complete := Some ''true'' \<rparr>) = Inr ops'"
    using c by (auto simp: create_first_user_def result_simps split: if_splits)
  moreover have "account_ok ?u" "enabled_superadmin ?u"
    using normalize_idem[OF name] by (simp_all add: account_ok_def new_user_def validate_role_def enabled_superadmin_def)
  ultimately show ?thesis
    using accounts_wf_insert[of "ops\<lparr> op_setup_complete := Some ''true'' \<rparr>" ?u ops' "op_setup_complete ops'"] by simp
qed

lemma superadmin_kept_by_update:
  assumes "accounts_wf ops" "op_users ops \<noteq> []" "\<And>u. enabled_superadmin (f u) = enabled_superadmin u"
  shows "list_ex enabled_superadmin (update_where P f (op_users ops))"
proof -
  obtain a where a: "a \<in> set (op_users ops)" "enabled_superadmin a"
    using assms(1,2) by (auto simp: accounts_wf_def list_ex_iff)
  let ?a = "if P a then f a else a"
  have "?a \<in> set (update_where P f (op_users ops))" using a(1) by (auto simp: mem_update_where)
  moreover have "enabled_superadmin ?a" using a(2) assms(3) by simp
  ultimately show ?thesis unfolding list_ex_iff by blast
qed

lemma accounts_wf_password: "accounts_wf ops \<Longrightarrow> accounts_wf (set_user_password ts i hash ops)"
  unfolding set_user_password_def
  by (rule accounts_wf_update, assumption, simp, rule superadmin_kept_by_update) (simp_all add: enabled_superadmin_def)

lemma accounts_wf_profile: "accounts_wf ops \<Longrightarrow> accounts_wf (update_user_profile ts i display hash ops)"
  unfolding update_user_profile_def
  by (rule accounts_wf_update, assumption, simp split: option.split, rule superadmin_kept_by_update)
    (simp_all add: enabled_superadmin_def split: option.split)

text \<open>Two enabled superadmins: one remains when an account goes or is disabled.\<close>

lemma count_where_two:
  assumes "1 < count_where P rows" "distinct (map g rows)"
  shows "\<exists>r \<in> set rows. P r \<and> g r \<noteq> k"
proof (rule ccontr)
  assume "\<not> ?thesis"
  hence "count_where P rows = count_where (\<lambda>r. g r = k \<and> P r) rows"
    unfolding count_where_def by (intro arg_cong[where f = length] filter_cong) auto
  thus False using assms(1) count_where_key_le[OF assms(2), of k P] by (simp split: if_splits)
qed

lemma other_superadmin:
  assumes wf: "accounts_wf ops" and t: "t \<in> set (op_users ops)" "us_id t = i"
    and two: "enabled_superadmin t \<Longrightarrow> 1 < enabled_superadmin_count ops"
  shows "\<exists>a \<in> set (op_users ops). enabled_superadmin a \<and> us_id a \<noteq> i"
proof (cases "enabled_superadmin t")
  case True
  thus ?thesis using count_where_two[of enabled_superadmin "op_users ops" us_id i] two wf
    by (auto simp: enabled_superadmin_count_def accounts_wf_def)
next
  case False
  obtain a where a: "a \<in> set (op_users ops)" "enabled_superadmin a"
    using wf t(1) by (auto simp: accounts_wf_def list_ex_iff)
  have "us_id a \<noteq> i"
    using distinct_key_eq[of us_id "op_users ops" a t] wf a t False by (auto simp: accounts_wf_def)
  thus ?thesis using a by blast
qed

lemma get_user_by_id_Some:
  assumes "accounts_wf ops" "t \<in> set (op_users ops)"
  shows "get_user_by_id (us_id t) ops = Some t"
proof -
  have "find (\<lambda>u. us_id u = us_id t) us = Some t" if "distinct (map us_id us)" "t \<in> set us" for us
    using that by (induction us) auto
  thus ?thesis using assms by (simp add: get_user_by_id_def accounts_wf_def)
qed

lemma accounts_wf_disable:
  assumes wf: "accounts_wf ops" and d: "set_user_disabled ts i b ops = Inr ops'"
  shows "accounts_wf ops'"
proof -
  let ?f = "\<lambda>u. u\<lparr> us_disabled := b, us_updated_at := ts \<rparr>"
  have ops': "ops' = ops\<lparr> op_users := update_where (\<lambda>u. us_id u = i) ?f (op_users ops) \<rparr>"
    and guard: "b \<Longrightarrow> map_option us_role (find (\<lambda>u. us_id u = i \<and> \<not> us_disabled u) (op_users ops)) = Some ''superadmin'' \<Longrightarrow>
      1 < enabled_superadmin_count ops"
    using d by (auto simp: set_user_disabled_def split: if_splits)
  have "list_ex enabled_superadmin (update_where (\<lambda>u. us_id u = i) ?f (op_users ops))" if ne: "op_users ops \<noteq> []"
  proof (cases "\<exists>t \<in> set (op_users ops). us_id t = i \<and> b")
    case True
    then obtain t where t: "t \<in> set (op_users ops)" "us_id t = i" "b" by blast
    have "find (\<lambda>u. us_id u = i \<and> \<not> us_disabled u) us = Some t" if "distinct (map us_id us)" "t \<in> set us" "\<not> us_disabled t" for us
      using that t(2) by (induction us) auto
    hence "enabled_superadmin t \<Longrightarrow> 1 < enabled_superadmin_count ops"
      using guard[OF t(3)] wf t(1) by (simp add: enabled_superadmin_def accounts_wf_def)
    then obtain a where "a \<in> set (op_users ops)" "enabled_superadmin a" "us_id a \<noteq> i"
      using other_superadmin[OF wf t(1,2)] by blast
    moreover from this have "a \<in> set (update_where (\<lambda>u. us_id u = i) ?f (op_users ops))"
      by (auto simp: mem_update_where intro: bexI[of _ a])
    ultimately show ?thesis unfolding list_ex_iff by blast
  next
    case False
    obtain a where a: "a \<in> set (op_users ops)" "enabled_superadmin a" using wf ne by (auto simp: accounts_wf_def list_ex_iff)
    let ?a = "if us_id a = i then ?f a else a"
    have "?a \<in> set (update_where (\<lambda>u. us_id u = i) ?f (op_users ops))" using a(1) by (auto simp: mem_update_where)
    moreover have "enabled_superadmin ?a" using a False by (auto simp: enabled_superadmin_def)
    ultimately show ?thesis unfolding list_ex_iff by blast
  qed
  thus ?thesis unfolding ops' by (intro accounts_wf_update[OF wf]) simp_all
qed

lemma accounts_wf_delete:
  assumes wf: "accounts_wf ops" and d: "delete_user i ops = Inr ops'"
  shows "accounts_wf ops'"
proof (cases "get_user_by_id i ops")
  case None
  hence "delete_where (\<lambda>u. us_id u = i) (op_users ops) = op_users ops"
    by (auto simp: get_user_by_id_def find_None_iff_all delete_where_def filter_id_conv)
  thus ?thesis using d None wf by (auto simp: delete_user_def split: if_splits)
next
  case (Some t)
  have t: "t \<in> set (op_users ops)" "us_id t = i"
    using find_Some_mem[OF Some[unfolded get_user_by_id_def]] by auto
  have ops': "ops' = ops\<lparr> op_users := delete_where (\<lambda>u. us_id u = i) (op_users ops),
      op_sessions := delete_where (\<lambda>s. se_user_id s = i) (op_sessions ops) \<rparr>"
    and guard: "us_role t = ''superadmin'' \<Longrightarrow> 1 < enabled_superadmin_count ops"
    using d Some by (auto simp: delete_user_def split: if_splits)
  obtain a where a: "a \<in> set (op_users ops)" "enabled_superadmin a" "us_id a \<noteq> i"
    using other_superadmin[OF wf t] guard by (auto simp: enabled_superadmin_def)
  have "session_ok (delete_where (\<lambda>u. us_id u = i) (op_users ops)) s"
    if "session_ok (op_users ops) s" "se_user_id s \<noteq> i" for s
    using that by (auto simp: session_ok_def mem_delete_where)
  moreover have "list_ex enabled_superadmin (delete_where (\<lambda>u. us_id u = i) (op_users ops))"
    unfolding list_ex_iff using a by (intro bexI[of _ a]) (simp_all add: mem_delete_where)
  ultimately show ?thesis
    using wf by (auto simp: ops' accounts_wf_def list_all_iff mem_delete_where distinct_map_delete_where)
qed

lemma accounts_wf_issue:
  assumes wf: "accounts_wf ops" and s: "insert_session s ops = Inr ops'" "get_user_by_id (se_user_id s) ops = Some u"
    "se_token_version s = us_token_version u"
  shows "accounts_wf ops'"
proof -
  have u: "u \<in> set (op_users ops)" "us_id u = se_user_id s"
    using find_Some_mem[OF s(2)[unfolded get_user_by_id_def]] by auto
  hence "session_ok (op_users ops) (s\<lparr> se_revoked_at := None \<rparr>)" using s(3) by (auto simp: session_ok_def)
  moreover have "ops' = ops\<lparr> op_sessions := op_sessions ops @ [s\<lparr> se_revoked_at := None \<rparr>] \<rparr>"
    "se_cookie_id s \<notin> se_cookie_id ` set (op_sessions ops)"
    using s(1) by (auto simp: insert_session_def split: if_splits)
  ultimately show ?thesis using wf by (simp add: accounts_wf_def)
qed

lemma accounts_wf_step: "accounts_wf ops \<Longrightarrow> operator_step ops ops' \<Longrightarrow> accounts_wf ops'"
proof (erule operator_stepE)
  fix h ts i p assume "accounts_wf ops" "change_password h ts i p ops = Inr ops'"
  thus "accounts_wf ops'" by (auto simp: change_password_def result_simps intro: accounts_ops accounts_wf_password)
next
  fix h ts i display cur new assume "accounts_wf ops" "update_profile h ts i display cur new ops = Inr ops'"
  thus "accounts_wf ops'"
    by (auto simp: update_profile_def Let_def result_simps intro: accounts_ops accounts_wf_profile split: if_splits)
qed (auto intro: accounts_ops accounts_wf_create accounts_wf_first accounts_wf_disable accounts_wf_delete accounts_wf_issue)

interpretation accounts: invariant_system no_accounts operator_step accounts_wf
  by unfold_locales (simp add: accounts_wf_def, rule accounts_wf_step)

section \<open>Properties\<close>

text \<open>
  C16: The system can never be stranded without a privileged account.  In every state the account operations
  reach from an empty installation, either there is no account at all or some superadmin is enabled, whatever
  accounts were created, disabled or deleted.
\<close>

theorem a_superadmin_remains:
  assumes "operators_reachable ops"
  shows "op_users ops = [] \<or> (\<exists>u \<in> set (op_users ops). us_role u = ''superadmin'' \<and> \<not> us_disabled u)"
  using accounts.reachable_inv[OF assms]
  by (auto simp: accounts_wf_def list_ex_iff enabled_superadmin_def)

text \<open>
  C31: The rows of the account tables keep their types.  In every reachable state the accounts have distinct
  identifiers and distinct names, each name is in normal form (so the lookup of a login, which normalises,
  finds it) and each role is one of the two roles, and every session belongs to an existing account and
  carries a token version no newer than the account's.
\<close>

theorem account_rows_well_typed:
  assumes "operators_reachable ops"
  shows "distinct (map us_id (op_users ops)) \<and> distinct (map us_username (op_users ops)) \<and>
    list_all (\<lambda>u. normalize_username (us_username u) = Inr (us_username u) \<and> us_role u \<in> {''admin'', ''superadmin''})
      (op_users ops) \<and>
    list_all (\<lambda>s. \<exists>u \<in> set (op_users ops). us_id u = se_user_id s \<and> se_token_version s \<le> us_token_version u)
      (op_sessions ops)"
  using accounts.reachable_inv[OF assms]
  by (auto simp: accounts_wf_def account_ok_def[abs_def] session_ok_def[abs_def] validate_role_def)

definition toy_hasher :: hasher where
  "toy_hasher = \<lparr> hs_hash = (\<lambda>p. Inr (CHR ''#'' # p)),
     hs_verify = (\<lambda>p phc. if phc = CHR ''#'' # p then Matches else Mismatch) \<rparr>"

definition fresh_install :: operators where
  "fresh_install = \<lparr> op_users = [], op_sessions = [], op_setup_complete = Some ''false'' \<rparr>"

text \<open>The first account asks for the role admin and becomes superadmin; a second account is an admin.\<close>

definition two_accounts :: operators where
  "two_accounts =
     (case create_account toy_hasher ''t1'' ''u1'' '' Root '' ''correct horse'' ''admin'' ''Root'' fresh_install of
        Inl _ \<Rightarrow> fresh_install
      | Inr (_, ops1) \<Rightarrow>
          (case create_account toy_hasher ''t2'' ''u2'' ''ops'' ''battery staple'' ''admin'' ''Ops'' ops1 of
             Inl _ \<Rightarrow> ops1 | Inr (_, ops2) \<Rightarrow> ops2))"

lemma two_accounts_reachable: "operators_reachable two_accounts"
proof -
  have "reachable no_accounts operator_step fresh_install" by (rule reachable.start) (simp add: fresh_install_def)
  thus ?thesis unfolding two_accounts_def
    by (auto split: sum.split intro: reachable.move operator_step.create)
qed

theorem a_superadmin_remains_witness:
  "length (op_users two_accounts) = 2 \<and>
   (\<exists>u \<in> set (op_users two_accounts). us_role u = ''superadmin'' \<and> \<not> us_disabled u)"
proof -
  have "length (op_users two_accounts) = 2" by code_simp
  moreover from this have "op_users two_accounts \<noteq> []" by auto
  ultimately show ?thesis using a_superadmin_remains[OF two_accounts_reachable] by blast
qed

theorem account_rows_well_typed_witness:
  "map us_username (op_users two_accounts) = [''root'', ''ops''] \<and> distinct (map us_id (op_users two_accounts))"
proof -
  have "map us_username (op_users two_accounts) = [''root'', ''ops'']" by code_simp
  thus ?thesis using account_rows_well_typed[OF two_accounts_reachable] by blast
qed

end
