(* ===== verification/Admin_Sessions.thy ===== *)
theory Admin_Sessions
  imports Operators
begin

text \<open>
  Logging in to the admin interface: the login limiter of \<open>src/src/auth.rs\<close>, the signed session cookie,
  and the session and account requests of \<open>src/src/admin.rs\<close> and \<open>src/src/admin/phase10.rs\<close>.  The clock
  of the limiter (\<open>Instant\<close>) counts nanoseconds.  The counter of failures is not bounded here.
\<close>

unbundle bit_operations_syntax

section \<open>The login limiter\<close>

record Bucket =
  lb_window_started :: instant
  lb_fails :: nat
  lb_lock_step :: nat
  lb_locked_until :: "instant option"

type_synonym limiter = "string \<Rightarrow> Bucket option"

definition secs :: "int \<Rightarrow> int" where "secs n = n * 1000000000"

definition WINDOW :: int where "WINDOW = secs 300"

definition MAX_FAILS_IN_WINDOW :: nat where "MAX_FAILS_IN_WINDOW = 8"

definition LOCK_STEP_CEILING_SECS :: int where "LOCK_STEP_CEILING_SECS = 900"

definition lock_for_step :: "nat \<Rightarrow> int" where
  "lock_for_step step = secs (min (30 * 2 ^ min step 10) LOCK_STEP_CEILING_SECS)"


definition count_failure :: "instant \<Rightarrow> Bucket option \<Rightarrow> Bucket" where
  "count_failure now entry =
     (let b0 = (case entry of
                  None \<Rightarrow> \<lparr> lb_window_started = now, lb_fails = 0, lb_lock_step = 0, lb_locked_until = None \<rparr>
                | Some b \<Rightarrow> b);
          b1 = (if WINDOW \<le> now - lb_window_started b0
                then \<lparr> lb_window_started = now, lb_fails = 0, lb_lock_step = 0, lb_locked_until = None \<rparr> else b0);
          b2 = b1\<lparr> lb_fails := lb_fails b1 + 1 \<rparr>
      in if MAX_FAILS_IN_WINDOW \<le> lb_fails b2 \<and> (case lb_locked_until b2 of None \<Rightarrow> True | Some t \<Rightarrow> t \<le> now)
         then b2\<lparr> lb_locked_until := Some (now + lock_for_step (lb_lock_step b2)), lb_lock_step := lb_lock_step b2 + 1 \<rparr>
         else b2)"

definition record_failure :: "instant \<Rightarrow> string list \<Rightarrow> limiter \<Rightarrow> limiter" where
  "record_failure now keys lim = fold (\<lambda>k l. l(k := Some (count_failure now (l k)))) keys lim"

definition blocked_for :: "instant \<Rightarrow> Bucket option \<Rightarrow> nat option" where
  "blocked_for now entry =
     (case entry of
        None \<Rightarrow> None
      | Some b \<Rightarrow>
          (case lb_locked_until b of
             Some t \<Rightarrow> if now < t then Some (nat (max 1 ((t - now) div 1000000000))) else None
           | None \<Rightarrow>
               if now - lb_window_started b < WINDOW \<and> MAX_FAILS_IN_WINDOW \<le> lb_fails b then Some 300 else None))"

definition longer :: "nat option \<Rightarrow> nat option \<Rightarrow> nat option" where
  "longer a b = (case (a, b) of (Some x, Some y) \<Rightarrow> Some (max x y) | (None, y) \<Rightarrow> y | (x, None) \<Rightarrow> x)"

definition check :: "instant \<Rightarrow> string list \<Rightarrow> limiter \<Rightarrow> AuthError option" where
  "check now keys lim =
     map_option (\<lambda>n. \<lparr> ae_kind = RateLimited, ae_message = ''too many login attempts, try again shortly'',
                       ae_retry_after_secs = Some n \<rparr>)
       (fold (\<lambda>k acc. longer acc (blocked_for now (lim k))) keys None)"

definition keys_for :: "string option \<Rightarrow> string \<Rightarrow> string list" where
  "keys_for ip username =
     (case ip of None \<Rightarrow> [] | Some a \<Rightarrow> [''ip:'' @ a]) @
     (if username = [] then [] else [''user:'' @ map char_lower (trim username)])"

section \<open>Session cookies\<close>

definition ADMIN_SESSION_COOKIE :: string where "ADMIN_SESSION_COOKIE = ''telegram_s3_admin_session''"

definition ADMIN_SESSION_TTL_SECONDS :: int where "ADMIN_SESSION_TTL_SECONDS = 8 * 60 * 60"

record SessionClaims =
  sc_uid :: string
  sc_sid :: string
  sc_ver :: int
  sc_iat :: seconds
  sc_exp :: seconds
  sc_csrf :: string

text \<open>What the cookie uses of the libraries: JSON of the claims, url-safe base64 and HMAC.\<close>

record tokens =
  tk_to_json :: "SessionClaims \<Rightarrow> string + byte list"
  tk_from_json :: "byte list \<Rightarrow> SessionClaims option"
  tk_encode :: "byte list \<Rightarrow> string"
  tk_decode :: "string \<Rightarrow> byte list option"
  tk_sign :: "byte list \<Rightarrow> byte list \<Rightarrow> byte list"
  tk_verify :: "byte list \<Rightarrow> byte list \<Rightarrow> byte list \<Rightarrow> bool"

definition sign_payload :: "tokens \<Rightarrow> byte list \<Rightarrow> byte list \<Rightarrow> string" where
  "sign_payload tk payload secret = tk_encode tk payload @ ''.'' @ tk_encode tk (tk_sign tk secret payload)"

definition decode_claims :: "tokens \<Rightarrow> string \<Rightarrow> byte list \<Rightarrow> SessionClaims option" where
  "decode_claims tk v secret =
     (case split_once (CHR ''.'') v of
        None \<Rightarrow> None
      | Some (payload, signature) \<Rightarrow>
          (case (tk_decode tk payload, tk_decode tk signature) of
             (Some p, Some s) \<Rightarrow> if tk_verify tk secret p s then tk_from_json tk p else None
           | _ \<Rightarrow> None))"

definition cookie_pair :: "string \<Rightarrow> string \<Rightarrow> string option" where
  "cookie_pair name pair =
     (case split_once (CHR ''='') pair of
        None \<Rightarrow> None
      | Some (key, v) \<Rightarrow> if trim key = name then Some v else None)"

fun find_map :: "('a \<Rightarrow> 'b option) \<Rightarrow> 'a list \<Rightarrow> 'b option" where
  "find_map f [] = None"
| "find_map f (x # xs) = (case f x of Some y \<Rightarrow> Some y | None \<Rightarrow> find_map f xs)"

definition parse_cookie :: "string \<Rightarrow> string \<Rightarrow> string option" where
  "parse_cookie header name = find_map (\<lambda>p. cookie_pair name (trim p)) (split_on (CHR '';'') header)"

definition read_session_cookie :: "string option \<Rightarrow> string option" where
  "read_session_cookie cookie = Option.bind cookie (\<lambda>h. parse_cookie h ADMIN_SESSION_COOKIE)"

definition constant_time_eq :: "nat list \<Rightarrow> nat list \<Rightarrow> bool" where
  "constant_time_eq left right =
     (if length left \<noteq> length right then False
      else fold (\<lambda>(l, r) diff. diff OR (l XOR r)) (zip left right) 0 = 0)"

definition require_csrf :: "string option \<Rightarrow> SessionClaims \<Rightarrow> bool" where
  "require_csrf header claims =
     (case header of None \<Rightarrow> False | Some v \<Rightarrow> constant_time_eq (map of_char v) (map of_char (sc_csrf claims)))"

definition principal_from_headers ::
  "tokens \<Rightarrow> byte list \<Rightarrow> instant \<Rightarrow> string option \<Rightarrow> operators \<Rightarrow> (DbUser \<times> SessionClaims) option" where
  "principal_from_headers tk secret utc cookie ops =
     Option.bind (read_session_cookie cookie) (\<lambda>v.
     Option.bind (decode_claims tk v secret) (\<lambda>claims.
     if sc_exp claims < unix_timestamp utc then None
     else Option.bind (get_session (sc_sid claims) ops) (\<lambda>s.
       if se_revoked_at s \<noteq> None then None
       else Option.bind (get_user_by_id (sc_uid claims) ops) (\<lambda>u.
         if us_disabled u \<or> us_token_version u \<noteq> sc_ver claims then None else Some (u, claims)))))"

text \<open>The answer shows the account without its hash, and the two times as RFC 3339 text.\<close>

record IssuedSession =
  is_user :: DbUser
  is_cookie_value :: string
  is_issued_at :: seconds
  is_expires_at :: seconds
  is_csrf_token :: string

definition issue_session ::
  "tokens \<Rightarrow> byte list \<Rightarrow> instant \<Rightarrow> string \<Rightarrow> string \<Rightarrow> DbUser \<Rightarrow> operators \<Rightarrow> AuthError + IssuedSession \<times> operators" where
  "issue_session tk secret utc csrf sid u ops =
     (let started = unix_timestamp utc;
          expires = unix_timestamp (utc + secs ADMIN_SESSION_TTL_SECONDS);
          claims = \<lparr> sc_uid = us_id u, sc_sid = sid, sc_ver = us_token_version u, sc_iat = started,
                     sc_exp = expires, sc_csrf = csrf \<rparr> in
      bind_res (map_err (\<lambda>e. auth_error Internal (''session serialize failed: '' @ e)) (tk_to_json tk claims)) (\<lambda>payload.
      bind_res (map_err (\<lambda>e. auth_error Internal (''session persist failed: '' @ metadata_error_text e))
        (insert_session \<lparr> se_cookie_id = sid, se_user_id = us_id u, se_token_version = us_token_version u,
           se_issued_at = secs started, se_expires_at = secs expires, se_created_ip = None, se_revoked_at = None \<rparr> ops))
        (\<lambda>ops1.
      Inr (\<lparr> is_user = u, is_cookie_value = sign_payload tk payload secret, is_issued_at = started,
             is_expires_at = expires, is_csrf_token = csrf \<rparr>, ops1))))"

section \<open>Requests\<close>



definition handle_logout :: "string \<Rightarrow> SessionClaims \<Rightarrow> operators \<Rightarrow> operators" where
  "handle_logout ts claims ops = revoke_session ts (sc_sid claims) ops"

definition handle_refresh ::
  "tokens \<Rightarrow> byte list \<Rightarrow> instant \<Rightarrow> string \<Rightarrow> string \<Rightarrow> DbUser \<Rightarrow> operators \<Rightarrow> AuthError + IssuedSession \<times> operators" where
  "handle_refresh tk secret utc csrf sid u ops = issue_session tk secret utc csrf sid u ops"

type_synonym http_error = "nat \<times> string"

definition auth_error_response :: "AuthError \<Rightarrow> http_error" where
  "auth_error_response e =
     (http_status (ae_kind e),
      if ae_kind e = RateLimited \<or> ae_kind e = LockedOut then
        (case ae_retry_after_secs e of
           Some n \<Rightarrow> ae_message e @ '' (retry after '' @ show_nat n @ ''s)'' | None \<Rightarrow> ae_message e)
      else ae_message e)"

definition handle_create_user ::
  "hasher \<Rightarrow> string \<Rightarrow> string \<Rightarrow> DbUser \<Rightarrow> (string \<times> string \<times> string \<times> string) option \<Rightarrow> operators \<Rightarrow>
   http_error + DbUser \<times> operators" where
  "handle_create_user h ts i caller body ops =
     (if \<not> is_superadmin caller then Inl (403, ''superadmin privilege required'')
      else case body of
        None \<Rightarrow> Inl (400, ''invalid user payload'')
      | Some (username, password, display, role) \<Rightarrow>
          if role \<noteq> [] \<and> role \<noteq> ''admin'' \<and> role \<noteq> ''superadmin'' then Inl (400, ''invalid role'')
          else map_err auth_error_response
                 (create_account h ts i username password (if role = [] then ''admin'' else role) display ops))"

text \<open>\<open>trim_start_matches\<close> removes the prefix as often as it occurs.\<close>

function trim_start_matches :: "string \<Rightarrow> string \<Rightarrow> string" where
  "trim_start_matches p s =
     (if p \<noteq> [] \<and> take (length p) s = p then trim_start_matches p (drop (length p) s) else s)"
  by pat_completeness auto
termination
proof (relation "measure (\<lambda>(p, s). length s)")
  fix p s :: string
  assume "p \<noteq> [] \<and> take (length p) s = p"
  hence "0 < length p" "length p \<le> length s" by auto (metis length_take min.cobounded1)
  hence "length s - length p < length s" by linarith
  thus "((p, drop (length p) s), (p, s)) \<in> measure (\<lambda>(p, s). length s)" by simp
qed simp

declare trim_start_matches.simps [simp del]

definition handle_change_password ::
  "hasher \<Rightarrow> tokens \<Rightarrow> byte list \<Rightarrow> instant \<Rightarrow> string \<Rightarrow> string \<Rightarrow> string \<Rightarrow> string \<Rightarrow> DbUser \<Rightarrow> string option \<Rightarrow>
   operators \<Rightarrow> http_error + IssuedSession option \<times> operators" where
  "handle_change_password h tk secret utc ts csrf sid id_path caller body ops =
     bind_res (ok_or (404, ''user not found'') (get_user_by_id (trim_start_matches ''users/'' id_path) ops)) (\<lambda>target.
     if us_id target \<noteq> us_id caller \<and> \<not> is_superadmin caller
     then Inl (403, ''not allowed to change this user's password'')
     else
       bind_res (ok_or (400, ''invalid payload'') body) (\<lambda>password.
       bind_res (map_err auth_error_response (change_password h ts (us_id target) password ops)) (\<lambda>ops1.
       if us_id target = us_id caller then
         (case Option.bind (get_user_by_id (us_id target) ops1)
                 (\<lambda>u. case issue_session tk secret utc csrf sid u ops1 of Inr r \<Rightarrow> Some r | Inl _ \<Rightarrow> None) of
            Some (issued, ops2) \<Rightarrow> Inr (Some issued, ops2)
          | None \<Rightarrow> Inr (None, ops1))
       else Inr (None, ops1))))"

definition handle_update_profile ::
  "hasher \<Rightarrow> tokens \<Rightarrow> byte list \<Rightarrow> instant \<Rightarrow> string \<Rightarrow> string \<Rightarrow> string \<Rightarrow> DbUser \<Rightarrow>
   (string \<times> string option \<times> string option) option \<Rightarrow> operators \<Rightarrow> (http_error + IssuedSession option) \<times> operators" where
  "handle_update_profile h tk secret utc ts csrf sid caller body ops =
     (case body of
        None \<Rightarrow> (Inl (400, ''invalid profile payload''), ops)
      | Some (display, cur, new) \<Rightarrow>
          (case update_profile h ts (us_id caller) display cur new ops of
             Inl e \<Rightarrow> (Inl (auth_error_response e), ops)
           | Inr ops1 \<Rightarrow>
               (case get_user_by_id (us_id caller) ops1 of
                  None \<Rightarrow> (Inl (500, ''updated profile is unreadable''), ops1)
                | Some u \<Rightarrow>
                    if new \<noteq> None then
                      (case issue_session tk secret utc csrf sid u ops1 of
                         Inl e \<Rightarrow> (Inl (auth_error_response e), ops1)
                       | Inr (issued, ops2) \<Rightarrow> (Inr (Some issued), ops2))
                    else (Inr None, ops1))))"

definition handle_delete_user :: "string \<Rightarrow> string \<Rightarrow> DbUser \<Rightarrow> operators \<Rightarrow> http_error + operators" where
  "handle_delete_user ts id_path caller ops =
     (if \<not> is_superadmin caller then Inl (403, ''superadmin privilege required'')
      else
        (let i = trim_start_matches ''users/'' id_path in
         case get_user_by_id i ops of
           None \<Rightarrow> Inl (404, ''user not found'')
         | Some target \<Rightarrow>
             if is_superadmin target \<and> enabled_superadmin_count ops \<le> 1
             then Inl (409, ''cannot delete the last superadmin'')
             else
               (case delete_user i ops of
                  Inl e \<Rightarrow> Inl (500, metadata_error_text e)
                | Inr ops1 \<Rightarrow> Inr (revoke_user_sessions ts (us_id target) ops1))))"

text \<open>\<open>same_origin\<close> is decided before; the fresh account's session is issued at the end.\<close>

definition setup_account ::
  "hasher \<Rightarrow> tokens \<Rightarrow> byte list \<Rightarrow> instant \<Rightarrow> instant \<Rightarrow> string \<Rightarrow> string \<Rightarrow> string \<Rightarrow> string \<Rightarrow> bool \<Rightarrow> bool \<Rightarrow>
   (string \<times> string \<times> string) option \<Rightarrow> limiter \<times> operators \<Rightarrow> (http_error + IssuedSession) \<times> limiter \<times> operators" where
  "setup_account h tk secret tick utc ts i csrf sid same_origin worker_failed body = (\<lambda>(lim, ops).
     (let keys = keys_for None ''first-account-setup''; lim1 = record_failure tick keys lim in
      if \<not> same_origin then (Inl (403, ''cross-origin setup is not allowed''), lim, ops)
      else case check tick keys lim of
        Some e \<Rightarrow> (Inl (auth_error_response e), lim, ops)
      | None \<Rightarrow>
          if setup_required ops \<noteq> Inr True then (Inl (409, ''setup is already complete''), lim1, ops)
          else case body of
            None \<Rightarrow> (Inl (400, ''invalid account payload''), lim1, ops)
          | Some (username, password, display) \<Rightarrow>
              (case bind_res (normalize_username username) (\<lambda>n. bind_res (validate_password password) (\<lambda>_. Inr n)) of
                 Inl e \<Rightarrow> (Inl (auth_error_response e), lim1, ops)
               | Inr name \<Rightarrow>
                   if worker_failed then (Inl (500, ''account worker failed''), lim1, ops)
                   else
                     (case bind_res (map_err (\<lambda>_. ()) (hash_password h password)) (\<lambda>hash.
                             map_err (\<lambda>_. ()) (create_first_user ts i name hash display ops)) of
                        Inl _ \<Rightarrow> (Inl (409, ''setup could not complete; reload to check account state''), lim1, ops)
                      | Inr (u, ops1) \<Rightarrow>
                          (case issue_session tk secret utc csrf sid u ops1 of
                             Inl e \<Rightarrow> (Inl (auth_error_response e), lim1, ops1)
                           | Inr (issued, ops2) \<Rightarrow> (Inr issued, lim1, ops2))))))"

section \<open>A token library\<close>

text \<open>
  What the session cookie needs of the libraries: reading back the JSON and the url-safe base64 it wrote, an
  alphabet without separators, and a signature that verifies.
\<close>

definition url_safe :: "char \<Rightarrow> bool" where
  "url_safe c \<longleftrightarrow> c \<notin> {CHR ''.'', CHR '';'', CHR ''=''} \<and> \<not> is_whitespace c"

definition token_laws :: "tokens \<Rightarrow> bool" where
  "token_laws tk \<longleftrightarrow>
     (\<forall>c p. tk_to_json tk c = Inr p \<longrightarrow> tk_from_json tk p = Some c) \<and>
     (\<forall>b. tk_decode tk (tk_encode tk b) = Some b \<and> list_all url_safe (tk_encode tk b)) \<and>
     (\<forall>k m. tk_verify tk k m (tk_sign tk k m))"

text \<open>An instance: claims as length-prefixed texts, bytes in unary.\<close>

definition put_text :: "string \<Rightarrow> byte list" where
  "put_text s = length s # map of_char s"

fun get_text :: "byte list \<Rightarrow> string \<times> byte list" where
  "get_text [] = ([], [])"
| "get_text (n # b) = (map char_of (take n b), drop n b)"

definition put_int :: "int \<Rightarrow> byte list" where
  "put_int i = [if i < 0 then 1 else 0, nat \<bar>i\<bar>]"

fun get_int :: "byte list \<Rightarrow> int \<times> byte list" where
  "get_int (s # n # b) = ((if s = 1 then - int n else int n), b)"
| "get_int _ = (0, [])"

definition put_claims :: "SessionClaims \<Rightarrow> byte list" where
  "put_claims c = put_text (sc_uid c) @ put_text (sc_sid c) @ put_int (sc_ver c) @ put_int (sc_iat c) @
     put_int (sc_exp c) @ put_text (sc_csrf c)"

definition get_claims :: "byte list \<Rightarrow> SessionClaims option" where
  "get_claims b0 =
     (let (uid, b1) = get_text b0; (sid, b2) = get_text b1; (ver, b3) = get_int b2; (iat, b4) = get_int b3;
          (expires, b5) = get_int b4; (csrf, _) = get_text b5 in
      Some \<lparr> sc_uid = uid, sc_sid = sid, sc_ver = ver, sc_iat = iat, sc_exp = expires, sc_csrf = csrf \<rparr>)"

definition unary :: "byte list \<Rightarrow> string" where
  "unary b = concat (map (\<lambda>n. replicate n (CHR ''A'') @ ''-'') b)"

fun ununary :: "nat \<Rightarrow> string \<Rightarrow> byte list option" where
  "ununary n [] = (if n = 0 then Some [] else None)"
| "ununary n (c # cs) =
     (if c = CHR ''A'' then ununary (Suc n) cs
      else if c = CHR ''-'' then map_option ((#) n) (ununary 0 cs) else None)"

definition toy_tokens :: tokens where
  "toy_tokens = \<lparr> tk_to_json = (\<lambda>c. Inr (put_claims c)), tk_from_json = get_claims, tk_encode = unary,
     tk_decode = ununary 0, tk_sign = (\<lambda>k m. k @ m), tk_verify = (\<lambda>k m t. t = k @ m) \<rparr>"

lemma get_put_text [simp]: "get_text (put_text s @ b) = (s, b)" "get_text (put_text s) = (s, [])"
  by (simp_all add: put_text_def comp_def)

lemma get_put_int [simp]: "get_int (put_int i @ b) = (i, b)"
  by (simp add: put_int_def)

lemma ununary_unary: "ununary 0 (unary b) = Some b"
proof -
  have run: "ununary m (replicate n (CHR ''A'') @ ''-'' @ cs) = map_option ((#) (m + n)) (ununary 0 cs)" for m n cs
    by (induction n arbitrary: m) auto
  show ?thesis by (induction b) (simp_all add: unary_def run[simplified])
qed

lemma toy_tokens_laws: "token_laws toy_tokens"
  by (simp add: token_laws_def toy_tokens_def put_claims_def get_claims_def ununary_unary)
    (auto simp: unary_def list_all_iff url_safe_def is_whitespace_def)

section \<open>Comparing tokens\<close>

lemma or_fold_zero:
  "fold (\<lambda>(l, r) diff. diff OR (l XOR r)) ps d = (0::nat) \<longleftrightarrow> d = 0 \<and> (\<forall>(l, r) \<in> set ps. l = r)"
proof (induction ps arbitrary: d)
  case (Cons p ps)
  obtain l r where p: "p = (l, r)" by (cases p)
  have "l XOR r = 0 \<longleftrightarrow> l = r" by (metis xor_self_eq bit.xor_left_self xor.left_neutral xor.right_neutral xor.assoc)
  thus ?case by (auto simp: Cons p or_eq_0_iff)
qed simp

lemma constant_time_eq_iff: "constant_time_eq left right \<longleftrightarrow> left = right"
proof (cases "length left = length right")
  case True
  have "(\<forall>(l, r) \<in> set (zip left right). l = r) \<longleftrightarrow> left = right"
    using True by (induction left right rule: list_induct2) auto
  thus ?thesis using True by (simp add: constant_time_eq_def or_fold_zero)
qed (auto simp: constant_time_eq_def)

section \<open>Guessing passwords\<close>



























text \<open>
  An attempt that is refused after the window of the bucket ended clears the lock that refuses it: a lock of
  240 seconds can end when the window does.
\<close>

lemma refused_attempt_clears_the_lock:
  "let b = \<lparr> lb_window_started = 0, lb_fails = 11, lb_lock_step = 4, lb_locked_until = Some (secs 450) \<rparr> in
   blocked_for (secs 301) (Some b) \<noteq> None \<and>
   blocked_for (secs 302) (Some (count_failure (secs 301) (Some b))) = None"
  by code_simp

section \<open>The life of a session\<close>

lemma split_once_append: "list_all (\<lambda>x. x \<noteq> c) a \<Longrightarrow> split_once c (a @ c # b) = Some (a, b)"
  by (induction a) auto

lemma split_on_none: "list_all (\<lambda>x. x \<noteq> c) a \<Longrightarrow> split_on c a = [a]"
  by (induction a) auto

lemma trim_solid: "list_all (\<lambda>c. \<not> is_whitespace c) s \<Longrightarrow> trim s = s"
proof -
  have "list_all (\<lambda>c. \<not> is_whitespace c) t \<Longrightarrow> dropWhile is_whitespace t = t" for t
    by (cases t) auto
  moreover assume "list_all (\<lambda>c. \<not> is_whitespace c) s"
  ultimately show ?thesis by (simp add: trim_def trim_start_def trim_end_def)
qed

lemma decode_signed:
  assumes "token_laws tk" "tk_to_json tk claims = Inr payload"
  shows "decode_claims tk (sign_payload tk payload secret) secret = Some claims"
proof -
  have l: "tk_decode tk (tk_encode tk b) = Some b" "list_all url_safe (tk_encode tk b)" "tk_verify tk k m (tk_sign tk k m)"
      "tk_from_json tk payload = Some claims" for b k m
    using assms by (simp_all add: token_laws_def)
  have "list_all (\<lambda>x. x \<noteq> CHR ''.'') (tk_encode tk payload)"
    using l(2)[of payload] by (auto simp: list_all_iff url_safe_def)
  from split_once_append[OF this] show ?thesis using l by (simp add: decode_claims_def sign_payload_def)
qed

lemma read_sent_cookie:
  assumes "list_all (\<lambda>c. c \<noteq> CHR '';'' \<and> \<not> is_whitespace c) v"
  shows "read_session_cookie (Some (ADMIN_SESSION_COOKIE @ ''='' @ v)) = Some v"
proof -
  define n where "n = ADMIN_SESSION_COOKIE"
  have n: "list_all (\<lambda>c. c \<noteq> CHR '';'') n" "list_all (\<lambda>c. c \<noteq> CHR ''='') n" "list_all (\<lambda>c. \<not> is_whitespace c) n"
    unfolding n_def by code_simp+
  have v: "list_all (\<lambda>c. c \<noteq> CHR '';'') v" "list_all (\<lambda>c. \<not> is_whitespace c) v"
    using assms by (simp_all add: list_all_iff)
  have eq: "\<not> is_whitespace (CHR ''='')" by code_simp
  have "split_on (CHR '';'') (n @ ''='' @ v) = [n @ ''='' @ v]" by (rule split_on_none) (use n v in simp)
  moreover have "trim (n @ ''='' @ v) = n @ ''='' @ v" by (rule trim_solid) (use n v eq in simp)
  moreover have "split_once (CHR ''='') (n @ ''='' @ v) = Some (n, v)" using split_once_append[OF n(2), of v] by simp
  moreover have "trim n = n" by (rule trim_solid[OF n(3)])
  ultimately show ?thesis
    by (simp add: read_session_cookie_def parse_cookie_def cookie_pair_def flip: n_def)
qed

lemma issue_session_steps:
  assumes "issue_session tk secret utc csrf sid u ops = Inr (issued, ops')"
  obtains payload where
    "tk_to_json tk \<lparr> sc_uid = us_id u, sc_sid = sid, sc_ver = us_token_version u, sc_iat = unix_timestamp utc,
       sc_exp = is_expires_at issued, sc_csrf = csrf \<rparr> = Inr payload"
    "is_cookie_value issued = sign_payload tk payload secret" "is_csrf_token issued = csrf"
    "is_expires_at issued = unix_timestamp (utc + secs ADMIN_SESSION_TTL_SECONDS)"
    "map_option se_revoked_at (get_session sid ops') = Some None" "op_users ops' = op_users ops"
proof -
  obtain payload where r: "tk_to_json tk \<lparr> sc_uid = us_id u, sc_sid = sid, sc_ver = us_token_version u,
      sc_iat = unix_timestamp utc, sc_exp = unix_timestamp (utc + secs ADMIN_SESSION_TTL_SECONDS), sc_csrf = csrf \<rparr> = Inr payload"
    and i: "issued = \<lparr> is_user = u, is_cookie_value = sign_payload tk payload secret, is_issued_at = unix_timestamp utc,
        is_expires_at = unix_timestamp (utc + secs ADMIN_SESSION_TTL_SECONDS), is_csrf_token = csrf \<rparr>"
    and ins: "insert_session \<lparr> se_cookie_id = sid, se_user_id = us_id u, se_token_version = us_token_version u,
        se_issued_at = secs (unix_timestamp utc), se_expires_at = secs (unix_timestamp (utc + secs ADMIN_SESSION_TTL_SECONDS)),
        se_created_ip = None, se_revoked_at = None \<rparr> ops = Inr ops'"
    using assms by (auto simp: issue_session_def Let_def result_simps)
  have find: "\<not> list_ex P xs \<Longrightarrow> P x \<Longrightarrow> find P (xs @ [x]) = Some x" for P :: "DbSession \<Rightarrow> bool" and xs x
    by (induction xs) auto
  have "map_option se_revoked_at (get_session sid ops') = Some None" "op_users ops' = op_users ops"
    using ins by (auto simp: insert_session_def get_session_def exists_where_def list_ex_iff find split: if_splits)
  thus ?thesis using that[of payload] r i by simp
qed

lemma issued_principal:
  assumes "token_laws tk" "issue_session tk secret utc csrf sid u ops = Inr (issued, ops')"
    "get_user_by_id (us_id u) ops = Some u" "\<not> us_disabled u"
  shows "principal_from_headers tk secret later (Some (''telegram_s3_admin_session='' @ is_cookie_value issued)) ops' =
      (if is_expires_at issued < unix_timestamp later then None
       else Some (u, \<lparr> sc_uid = us_id u, sc_sid = sid, sc_ver = us_token_version u, sc_iat = unix_timestamp utc,
         sc_exp = is_expires_at issued, sc_csrf = csrf \<rparr>))"
proof -
  obtain payload where s: "tk_to_json tk \<lparr> sc_uid = us_id u, sc_sid = sid, sc_ver = us_token_version u, sc_iat = unix_timestamp utc,
       sc_exp = is_expires_at issued, sc_csrf = csrf \<rparr> = Inr payload"
    "is_cookie_value issued = sign_payload tk payload secret" "is_csrf_token issued = csrf"
    "is_expires_at issued = unix_timestamp (utc + secs ADMIN_SESSION_TTL_SECONDS)"
    "map_option se_revoked_at (get_session sid ops') = Some None" "op_users ops' = op_users ops"
    by (rule issue_session_steps[OF assms(2)])
  have "list_all url_safe (tk_encode tk b)" for b using assms(1) by (simp add: token_laws_def)
  hence "list_all (\<lambda>c. c \<noteq> CHR '';'' \<and> \<not> is_whitespace c) (sign_payload tk payload secret)"
    by (auto simp: sign_payload_def list_all_iff url_safe_def is_whitespace_def)
  note cookie = read_sent_cookie[OF this]
  have name: "''telegram_s3_admin_session='' @ is_cookie_value issued =
      ADMIN_SESSION_COOKIE @ ''='' @ sign_payload tk payload secret" by (simp add: s(2) ADMIN_SESSION_COOKIE_def)
  have "get_user_by_id (us_id u) ops' = Some u" using assms(3) s(6) by (simp add: get_user_by_id_def)
  moreover obtain ss where "get_session sid ops' = Some ss" "se_revoked_at ss = None"
    using s(5) by auto
  ultimately show ?thesis
    unfolding name principal_from_headers_def cookie using assms(4)
    by (simp add: decode_signed[OF assms(1) s(1), of secret])
qed

text \<open>
  C30: A session that was issued works until it expires.  The cookie handed out at a login, sent back by the
  browser, resolves to that very account with that session's anti-forgery token at every moment up to its
  expiry eight hours later, and to nobody afterwards.
\<close>

theorem issued_session_resolves:
  assumes "token_laws tk" "issue_session tk secret utc csrf sid u ops = Inr (issued, ops')"
    "get_user_by_id (us_id u) ops = Some u" "\<not> us_disabled u"
  shows "is_expires_at issued = unix_timestamp (utc + 8 * 60 * 60 * 1000000000) \<and>
    map_option (\<lambda>(v, c). (v, sc_csrf c, sc_sid c))
      (principal_from_headers tk secret later (Some (''telegram_s3_admin_session='' @ is_cookie_value issued)) ops') =
    (if is_expires_at issued < unix_timestamp later then None else Some (u, is_csrf_token issued, sid))"
proof -
  have "is_expires_at issued = unix_timestamp (utc + secs ADMIN_SESSION_TTL_SECONDS)" "is_csrf_token issued = csrf"
    by (rule issue_session_steps[OF assms(2)], assumption)+
  thus ?thesis
    unfolding issued_principal[OF assms] by (simp only: secs_def ADMIN_SESSION_TTL_SECONDS_def) simp
qed

definition root_account :: DbUser where
  "root_account = hd (op_users two_accounts)"

definition root_issue :: "AuthError + IssuedSession \<times> operators" where
  "root_issue = issue_session toy_tokens [7] 0 ''csrf'' ''sid1'' root_account two_accounts"

lemma root_issue_ok: "\<exists>r. root_issue = Inr r" "get_user_by_id (us_id root_account) two_accounts = Some root_account"
  "\<not> us_disabled root_account"
proof -
  show "get_user_by_id (us_id root_account) two_accounts = Some root_account" "\<not> us_disabled root_account"
    by code_simp+
  have "get_user_by_id (us_id root_account) two_accounts \<noteq> None" "op_sessions two_accounts = []" by code_simp+
  thus "\<exists>r. root_issue = Inr r"
    by (simp add: root_issue_def issue_session_def insert_session_def exists_where_def toy_tokens_def Let_def result_simps)
qed

theorem issued_session_resolves_witness:
  "\<exists>issued ops'. root_issue = Inr (issued, ops') \<and>
     map_option (\<lambda>(v, c). (v, sc_csrf c, sc_sid c))
       (principal_from_headers toy_tokens [7] 0 (Some (''telegram_s3_admin_session='' @ is_cookie_value issued)) ops') =
     Some (root_account, is_csrf_token issued, ''sid1'')"
proof -
  obtain issued ops' where r: "root_issue = Inr (issued, ops')" using root_issue_ok(1) by auto
  note p = issued_session_resolves[OF toy_tokens_laws r[unfolded root_issue_def] root_issue_ok(2,3), of 0]
  have "\<not> is_expires_at issued < unix_timestamp 0" using p by (simp add: unix_timestamp_def)
  hence "map_option (\<lambda>(v, c). (v, sc_csrf c, sc_sid c))
      (principal_from_headers toy_tokens [7] 0 (Some (''telegram_s3_admin_session='' @ is_cookie_value issued)) ops') =
    Some (root_account, is_csrf_token issued, ''sid1'')" using conjunct2[OF p] by (simp only: if_False)
  with r show ?thesis by blast
qed

subsection \<open>Sessions that end\<close>

text \<open>Later states, in which no new account takes over the identifier of an old one.\<close>

definition later_without_reuse :: "string \<Rightarrow> operators \<Rightarrow> operators \<Rightarrow> bool" where
  "later_without_reuse i = (\<lambda>a b. operator_step a b \<and>
     (i \<in> us_id ` set (op_users b) \<longrightarrow> i \<in> us_id ` set (op_users a)))\<^sup>*\<^sup>*"

definition outdated :: "string \<Rightarrow> int \<Rightarrow> operators \<Rightarrow> bool" where
  "outdated i v ops \<longleftrightarrow> (\<forall>u \<in> set (op_users ops). us_id u = i \<longrightarrow> v < us_token_version u)"

lemma outdated_update:
  assumes "outdated i v ops" "\<And>u. us_id (f u) = us_id u \<and> us_token_version u \<le> us_token_version (f u)"
  shows "outdated i v (ops\<lparr> op_users := update_where P f (op_users ops) \<rparr>)"
  unfolding outdated_def
proof (intro ballI impI)
  fix w assume "w \<in> set (op_users (ops\<lparr> op_users := update_where P f (op_users ops) \<rparr>))" and i: "us_id w = i"
  hence "w \<in> set (update_where P f (op_users ops))" by simp
  then obtain u where "u \<in> set (op_users ops)" "w = (if P u then f u else u)" by (auto simp: mem_update_where)
  thus "v < us_token_version w" using i assms(1) assms(2)[of u] by (auto simp: outdated_def split: if_splits)
qed

lemma outdated_insert:
  assumes "outdated i v ops" "insert_user u ops = Inr ops'" "us_id u = i \<Longrightarrow> i \<in> us_id ` set (op_users ops)"
  shows "outdated i v (ops'\<lparr> op_setup_complete := c \<rparr>)"
  using assms by (auto simp: outdated_def insert_user_def exists_where_def list_ex_iff split: if_splits) fastforce

lemma outdated_same: "outdated i v ops \<Longrightarrow> set (op_users ops') \<subseteq> set (op_users ops) \<Longrightarrow> outdated i v ops'"
  by (auto simp: outdated_def)

lemma outdated_create:
  assumes o: "outdated i v ops" and c: "create_account h ts j raw p role display ops = Inr (u, ops')"
    and reuse: "i \<in> us_id ` set (op_users ops') \<longrightarrow> i \<in> us_id ` set (op_users ops)"
  shows "outdated i v ops'"
proof -
  obtain name hash r ops1 where s: "insert_user (new_user j name hash r display ts) ops = Inr ops1"
      "ops' = ops1\<lparr> op_setup_complete := Some ''true'' \<rparr>"
    using c by (auto simp: create_account_def create_user_def Let_def result_simps split: if_splits)
  have j: "j \<in> us_id ` set (op_users ops')"
    using s by (auto simp: insert_user_def new_user_def split: if_splits)
  have "us_id (new_user j name hash r display ts) = i \<Longrightarrow> i \<in> us_id ` set (op_users ops)"
    using reuse j by (auto simp: new_user_def)
  thus ?thesis unfolding s(2) by (rule outdated_insert[OF o s(1)])
qed

lemma outdated_first:
  assumes o: "outdated i v ops" and c: "create_first_user ts j name hash display ops = Inr (u, ops')"
    and reuse: "i \<in> us_id ` set (op_users ops') \<longrightarrow> i \<in> us_id ` set (op_users ops)"
  shows "outdated i v ops'"
proof -
  let ?u = "new_user j name hash ''superadmin'' display ts"
  have s: "insert_user ?u (ops\<lparr> op_setup_complete := Some ''true'' \<rparr>) = Inr ops'"
    using c by (auto simp: create_first_user_def result_simps split: if_splits)
  have "j \<in> us_id ` set (op_users ops')"
    using s by (auto simp: insert_user_def new_user_def split: if_splits)
  thus ?thesis
    using outdated_insert[OF _ s, of i v "op_setup_complete ops'"] reuse o by (auto simp: new_user_def outdated_def)
qed

lemma op_users_revoke [simp]:
  "op_users (revoke_where P ts ops) = op_users ops" "op_users (revoke_session ts c ops) = op_users ops"
  "op_users (revoke_user_sessions ts i ops) = op_users ops" "op_users (snd (sweep_sessions cutoff ops)) = op_users ops"
  by (simp_all add: revoke_where_def revoke_session_def revoke_user_sessions_def sweep_sessions_def Let_def)

lemma outdated_revoke [simp]:
  "outdated i v (revoke_session ts c ops) = outdated i v ops" "outdated i v (revoke_user_sessions ts j ops) = outdated i v ops"
  "outdated i v (snd (sweep_sessions cutoff ops)) = outdated i v ops"
  by (simp_all add: outdated_def)

lemma outdated_step:
  assumes "operator_step ops ops'" and o: "outdated i v ops"
    and reuse: "i \<in> us_id ` set (op_users ops') \<longrightarrow> i \<in> us_id ` set (op_users ops)"
  shows "outdated i v ops'"
  using assms(1)
proof (rule operator_stepE)
  fix h ts j p assume c: "change_password h ts j p ops = Inr ops'"
  have "outdated i v (set_user_password ts j hash ops)" for hash
    unfolding set_user_password_def by (rule outdated_update[OF o]) simp
  thus "outdated i v ops'" using c by (auto simp: change_password_def result_simps)
next
  fix h ts j display cur new assume c: "update_profile h ts j display cur new ops = Inr ops'"
  have "outdated i v (update_user_profile ts j d hash ops)" for d hash
    unfolding update_user_profile_def by (rule outdated_update[OF o]) (simp split: option.split)
  thus "outdated i v ops'"
    using c by (auto simp: update_profile_def Let_def result_simps split: if_splits)
next
  fix ts j b assume "set_user_disabled ts j b ops = Inr ops'"
  thus "outdated i v ops'" by (auto simp: set_user_disabled_def split: if_splits intro!: outdated_update[OF o])
next
  fix j assume "delete_user j ops = Inr ops'"
  thus "outdated i v ops'"
    by (auto simp: delete_user_def mem_delete_where split: if_splits intro!: outdated_same[OF o])
next
  fix s u assume "insert_session s ops = Inr ops'"
  thus "outdated i v ops'" by (auto simp: insert_session_def split: if_splits intro!: outdated_same[OF o])
next
  fix h ts j raw p role display u assume "create_account h ts j raw p role display ops = Inr (u, ops')"
  thus "outdated i v ops'" by (rule outdated_create[OF o _ reuse])
next
  fix raw name ts j hash display u assume "create_first_user ts j name hash display ops = Inr (u, ops')"
  thus "outdated i v ops'" by (rule outdated_first[OF o _ reuse])
qed (use o in simp_all)

lemma outdated_later: "later_without_reuse i ops ops' \<Longrightarrow> outdated i v ops \<Longrightarrow> outdated i v ops'"
  unfolding later_without_reuse_def by (induction rule: rtranclp_induct) (auto intro: outdated_step)

lemma outdated_cookie:
  assumes "outdated (sc_uid c) (sc_ver c) ops"
  shows "Option.bind (get_user_by_id (sc_uid c) ops)
    (\<lambda>u. if us_disabled u \<or> us_token_version u \<noteq> sc_ver c then None else Some (u, c)) = None"
proof (cases "get_user_by_id (sc_uid c) ops")
  case (Some u)
  from find_Some_mem[OF this[unfolded get_user_by_id_def]] show ?thesis
    using assms Some by (auto simp: outdated_def)
qed simp

lemma principal_steps:
  assumes "principal_from_headers tk secret utc cookie ops = Some (u, c)"
  obtains v where "read_session_cookie cookie = Some v" "decode_claims tk v secret = Some c"
    "get_user_by_id (sc_uid c) ops = Some u" "us_token_version u = sc_ver c" "\<not> us_disabled u"
  using assms unfolding principal_from_headers_def
  by (auto simp: bind_eq_Some_conv split: if_splits)

text \<open>
  C17: A changed password ends every session of the account, for good.  A cookie that resolved to the account
  before the change resolves to nobody afterwards, at any later moment and in every later state of the
  account tables, whatever accounts and sessions come and go, as long as no new account is given the old
  identifier.
\<close>

theorem password_change_ends_sessions:
  assumes "operators_reachable ops" "principal_from_headers tk secret utc cookie ops = Some (u, c)"
    "change_password h ts (us_id u) p ops = Inr ops'" "later_without_reuse (us_id u) ops' ops''"
  shows "principal_from_headers tk secret utc'' cookie ops'' = None"
proof -
  obtain v where s: "read_session_cookie cookie = Some v" "decode_claims tk v secret = Some c"
    "get_user_by_id (sc_uid c) ops = Some u" "us_token_version u = sc_ver c"
    by (rule principal_steps[OF assms(2)])
  have u: "u \<in> set (op_users ops)" "us_id u = sc_uid c"
    using find_Some_mem[OF s(3)[unfolded get_user_by_id_def]] by auto
  have wf: "accounts_wf ops" by (rule accounts.reachable_inv[OF assms(1)])
  obtain hash where users: "op_users ops' = op_users (set_user_password ts (us_id u) hash ops)"
    using assms(3) by (auto simp: change_password_def result_simps)
  have only: "w = u" if "w \<in> set (op_users ops)" "us_id w = us_id u" for w
    using get_user_by_id_Some[OF wf that(1)] get_user_by_id_Some[OF wf u(1)] unfolding that(2) by simp
  have "outdated (sc_uid c) (sc_ver c) ops'" unfolding outdated_def
  proof (intro ballI impI)
    fix x assume x: "x \<in> set (op_users ops')" "us_id x = sc_uid c"
    then obtain w where w: "w \<in> set (op_users ops)"
        "x = (if us_id w = us_id u then w\<lparr> us_password_hash := hash, us_token_version := us_token_version w + 1,
           us_updated_at := ts \<rparr> else w)"
      unfolding users set_user_password_def by (auto simp: mem_update_where)
    have "us_id w = us_id u" using w(2) x(2) u(2) by (simp split: if_splits)
    thus "sc_ver c < us_token_version x" using w(2) only[OF w(1)] s(4) by simp
  qed
  from outdated_later[OF assms(4)[unfolded u(2)] this] have "outdated (sc_uid c) (sc_ver c) ops''" .
  note none = outdated_cookie[OF this]
  show ?thesis
    unfolding principal_from_headers_def s(1) bind.bind_lunit s(2) none
    by (cases "get_session (sc_sid c) ops''") simp_all
qed

theorem password_change_ends_sessions_witness:
  "\<exists>issued ops1 c ops2 ops3. root_issue = Inr (issued, ops1) \<and>
     principal_from_headers toy_tokens [7] 0 (Some (''telegram_s3_admin_session='' @ is_cookie_value issued)) ops1 =
       Some (root_account, c) \<and>
     change_password toy_hasher ''t3'' (us_id root_account) ''another horse'' ops1 = Inr ops2 \<and>
     change_password toy_hasher ''t4'' (us_id root_account) ''correct horse'' ops2 = Inr ops3 \<and>
     principal_from_headers toy_tokens [7] 0 (Some (''telegram_s3_admin_session='' @ is_cookie_value issued)) ops3 = None"
proof -
  obtain issued ops1 where r: "root_issue = Inr (issued, ops1)" using root_issue_ok(1) by auto
  note i = r[unfolded root_issue_def]
  have "is_expires_at issued = unix_timestamp (0 + secs ADMIN_SESSION_TTL_SECONDS)"
    by (rule issue_session_steps[OF i])
  hence "\<not> is_expires_at issued < unix_timestamp 0"
    by (simp add: unix_timestamp_def secs_def ADMIN_SESSION_TTL_SECONDS_def)
  then obtain c where p: "principal_from_headers toy_tokens [7] 0
      (Some (''telegram_s3_admin_session='' @ is_cookie_value issued)) ops1 = Some (root_account, c)"
    using issued_principal[OF toy_tokens_laws i root_issue_ok(2,3), of 0] by (simp only: if_False)
  have step: "operator_step two_accounts ops1"
    using i by (auto simp: issue_session_def Let_def result_simps root_issue_ok(2) intro!: operator_step.issue)
  have ok: "\<exists>o2. change_password toy_hasher ts j ''another horse'' o1 = Inr o2"
    "\<exists>o2. change_password toy_hasher ts j ''correct horse'' o1 = Inr o2" for ts j o1
    by (simp_all add: change_password_def validate_password_def MIN_PASSWORD_LENGTH_def hash_password_def toy_hasher_def result_simps)
  obtain ops2 where c2: "change_password toy_hasher ''t3'' (us_id root_account) ''another horse'' ops1 = Inr ops2"
    using ok(1) by blast
  obtain ops3 where c3: "change_password toy_hasher ''t4'' (us_id root_account) ''correct horse'' ops2 = Inr ops3"
    using ok(2) by blast
  have "map us_id (op_users ops3) = map us_id (op_users ops2)"
    using c3 by (auto simp: change_password_def result_simps set_user_password_def map_update_where_same)
  hence "us_id ` set (op_users ops3) = us_id ` set (op_users ops2)" by (metis set_map)
  hence "later_without_reuse (us_id root_account) ops2 ops3"
    unfolding later_without_reuse_def using operator_step.password[OF c3] by (intro r_into_rtranclp) auto
  from password_change_ends_sessions[OF reachable.move[OF two_accounts_reachable step] p c2 this]
  show ?thesis using r p c2 c3 by blast
qed

end
