(* ===== verification/Transfer_System.thy ===== *)
theory Transfer_System
  imports Index_Invariant
begin

text \<open>
  The transfer queue as a state machine: one step per statement of \<open>durable.rs\<close> and of the
  commit that changes \<open>transfer_jobs\<close>, \<open>transfer_send_attempts\<close> or \<open>transfer_chunks\<close>.  Every reservation of
  staging space goes through \<open>reserve_staging\<close> with the configured budget.  A step elsewhere is any
  change of the other tables.  The jobs a
  multipart completion inserts and the jobs a bucket key deletion cancels are in the
  theories of those components.
\<close>

section \<open>Steps\<close>

inductive transfer_step :: "nat \<Rightarrow> store \<Rightarrow> store \<Rightarrow> bool" for budget where
  begin_job: "begin_transfer now jid b k st = Inr (i, st') \<Longrightarrow> transfer_step budget st st'"
| reserve: "reserve_staging now jid n budget st = Inr (u, st') \<Longrightarrow> transfer_step budget st st'"
| queue: "queue_transfer now jid opn n st = Inr (u, st') \<Longrightarrow> transfer_step budget st st'"
| conditionals: "set_transfer_conditionals now jid c st = Inr (u, st') \<Longrightarrow> transfer_step budget st st'"
| renew_reception: "transfer_step budget st (snd (renew_receiving now jid st))"
| reception_failed: "transfer_step budget st (snd (fail_reception now jid removed m st))"
| quota: "transfer_step budget st (snd (reject_transfer_for_quota now jid m st))"
| claim: "transfer_step budget st (snd (claim_transfer now lease st))"
| report: "transfer_step budget st (transfer_report_step r jid lease st)"
| commit: "commit_transfer_job now opn (Some (jid, lease)) st = Inr (u, st') \<Longrightarrow> transfer_step budget st st'"
| reclassify: "transfer_step budget st (snd (reclassify_flood_wait_attempts now n st))"
| resolve: "resolve_send_attempt now jid order att l e st = Inr (u, st') \<Longrightarrow> transfer_step budget st st'"
| reconciled: "transfer_step budget st (snd (queue_after_reconciliation now jid st))"
| operator: "transfer_step budget st (snd (transfer_action now jid act st))"
| cleaned: "transfer_step budget st (mark_cleaned jid st)"
| purge: "transfer_step budget st (purge_connection_operations conn st)"
| elsewhere: "transfer_jobs st' = transfer_jobs st \<Longrightarrow> transfer_sequence st' = transfer_sequence st \<Longrightarrow>
    send_attempts st' = send_attempts st \<Longrightarrow> transfer_chunks st' = transfer_chunks st \<Longrightarrow> transfer_step budget st st'"

inductive_cases transfer_stepE: "transfer_step budget st st'"

abbreviation no_transfers :: "store \<Rightarrow> bool" where
  "no_transfers st \<equiv> transfer_jobs st = [] \<and> send_attempts st = []"

abbreviation transfer_reachable :: "nat \<Rightarrow> store \<Rightarrow> bool" where
  "transfer_reachable budget \<equiv> reachable no_transfers (transfer_step budget)"

lemma jobs_wf_commit_job:
  assumes "jobs_wf st" "commit_transfer_job now opn (Some (jid, lease)) st = Inr (u, st')"
  shows "jobs_wf st'"
  by (rule jobs_wf_jobs_update_one[OF assms(1) assms(2)[unfolded commit_transfer_job_def option.case prod.case]])
    (auto simp: job_row_simps complete_job_def)

lemma jobs_wf_step: "jobs_wf st \<Longrightarrow> transfer_step budget st st' \<Longrightarrow> jobs_wf st'"
proof (erule transfer_stepE)
  assume "jobs_wf st" "transfer_jobs st' = transfer_jobs st" "transfer_sequence st' = transfer_sequence st"
    "send_attempts st' = send_attempts st" "transfer_chunks st' = transfer_chunks st"
  thus "jobs_wf st'" using jobs_wf_cong[of st' st] by blast
qed (hypsubst?, (erule jobs_wf_ops jobs_wf_report | erule (1) jobs_wf_begin_transfer jobs_wf_admission
  jobs_wf_commit_job jobs_wf_resolve_send))+

section \<open>The staged bytes\<close>

lemma attempts_update_bytes [simp]: "staged_bytes (attempts_update P f st) = staged_bytes st"
  by (simp add: staged_bytes_def)

lemma discard_bytes [simp]: "staged_bytes (discard_staging_metadata oid st) = staged_bytes st"
  by (simp add: staged_bytes_def)

lemma put_checkpoint_bytes [simp]: "staged_bytes (put_checkpoint jid order l st) = staged_bytes st"
  by (simp add: staged_bytes_def put_checkpoint_def)

lemma count_chunks_bytes: "staged_bytes (count_chunks now jid st) \<le> staged_bytes st"
  unfolding count_chunks_def Let_def by (rule staged_bytes_jobs_update) (auto simp: shrink_simps)

lemma admission_bytes:
  "queue_transfer now jid opn n st = Inr (u, st') \<Longrightarrow> staged_bytes st' \<le> staged_bytes st"
  "set_transfer_conditionals now jid c st = Inr (u, st') \<Longrightarrow> staged_bytes st' \<le> staged_bytes st"
  unfolding queue_transfer_def set_transfer_conditionals_def
  by (erule jobs_update_one_bytes, auto simp: shrink_simps)+

lemma reception_bytes:
  "staged_bytes (snd (renew_receiving now jid st)) \<le> staged_bytes st"
  "staged_bytes (snd (fail_reception now jid removed m st)) \<le> staged_bytes st"
  "staged_bytes (snd (reject_transfer_for_quota now jid m st)) \<le> staged_bytes st"
  unfolding renew_receiving_def fail_reception_def reject_transfer_for_quota_def Let_def snd_conv
  by (auto intro!: staged_bytes_jobs_update simp: shrink_simps)

lemma staged_bytes_update_rows:
  assumes "\<And>j. j \<in> set (transfer_jobs st) \<Longrightarrow> P j \<Longrightarrow> counted (f j) \<Longrightarrow> counted j \<and> tj_bytes (f j) \<le> tj_bytes j"
  shows "staged_bytes (jobs_update P f st) \<le> staged_bytes st"
proof -
  have "sum_where counted tj_bytes (update_where P f rows) \<le> sum_where counted tj_bytes rows"
    if "\<And>j. j \<in> set rows \<Longrightarrow> P j \<Longrightarrow> counted (f j) \<Longrightarrow> counted j \<and> tj_bytes (f j) \<le> tj_bytes j" for rows
    using that
  proof (induction rows)
    case (Cons j rows)
    thus ?case using Cons.prems[of j] by (auto intro: add_mono trans_le_add2)
  qed simp
  thus ?thesis using assms by (simp add: staged_bytes_alt)
qed

lemma claim_bytes:
  assumes "jobs_wf st"
  shows "staged_bytes (snd (claim_transfer now lease st)) \<le> staged_bytes st"
proof (cases "select_first (claimable now (recover_transfers now st)) tj_sequence (transfer_jobs (recover_transfers now st))")
  case None
  thus ?thesis using recover_bytes by (simp add: claim_transfer_def Let_def)
next
  case (Some c)
  let ?st = "recover_transfers now st"
  have c: "c \<in> set (transfer_jobs ?st)" "claimable now ?st c" using select_first_Some[OF Some] by blast+
  have "counted c" using c(2) by (auto simp: claimable_def counted_def sending_state_def)
  moreover have "j = c" if "j \<in> set (transfer_jobs ?st)" "tj_id j = tj_id c" for j
    using jobs_wf_recover[OF assms] that c(1) distinct_key_eq[of tj_id "transfer_jobs ?st" j c]
    by (auto simp: jobs_wf_def)
  ultimately have "staged_bytes (jobs_update (\<lambda>j. tj_id j = tj_id c) (claim_row now lease) ?st) \<le> staged_bytes ?st"
    by (intro staged_bytes_update_rows) (auto simp: claim_row_def)
  thus ?thesis using Some recover_bytes[of now st] by (simp add: claim_transfer_def Let_def)
qed

lemma keep_bytes:
  "(\<And>v st'. r = Inr (v, st') \<Longrightarrow> staged_bytes st' \<le> staged_bytes st) \<Longrightarrow> staged_bytes (keep st r) \<le> staged_bytes st"
  by (rule keep_invariant[where Q = "\<lambda>s. staged_bytes s \<le> staged_bytes st"]) simp_all

lemma attempt_bytes:
  "begin_send_attempt now attempt jid lease order st = Inr (v, st') \<Longrightarrow> staged_bytes st' \<le> staged_bytes st"
  "finish_send_attempt now jid lease order attempt l st = Inr (w, st') \<Longrightarrow> staged_bytes st' \<le> staged_bytes st"
  "mark_attempt x retryable failure now jid lease order attempt kind error st = Inr (w, st') \<Longrightarrow>
    staged_bytes st' \<le> staged_bytes st"
proof -
  assume "finish_send_attempt now jid lease order attempt l st = Inr (w, st')"
  then obtain P f where "st' = count_chunks now jid (put_checkpoint jid order l (attempts_update P f st))"
    by (auto simp: finish_send_attempt_def split: if_splits)
  thus "staged_bytes st' \<le> staged_bytes st"
    using count_chunks_bytes[of now jid "put_checkpoint jid order l (attempts_update P f st)"] by simp
qed (auto simp: begin_send_attempt_def mark_attempt_def Let_def staged_bytes_def split: if_splits)

lemma report_bytes: "staged_bytes (transfer_report_step r jid lease st) \<le> staged_bytes st"
proof (cases r)
  case (Enter_Committing now)
  show ?thesis unfolding Enter_Committing transfer_report_step.simps enter_committing_def
    by (rule keep_bytes, erule jobs_update_one_bytes) (auto simp: shrink_simps)
next
  case (Failed now retry_after message)
  show ?thesis unfolding Failed transfer_report_step.simps transfer_failed_def Let_def
    by (rule staged_bytes_jobs_update) (auto simp: shrink_simps)
next
  case (Renew now)
  show ?thesis unfolding Renew transfer_report_step.simps renew_transfer_def snd_conv
    by (rule staged_bytes_jobs_update) (auto simp: shrink_simps)
qed (auto intro!: keep_bytes simp: mark_send_attempt_unknown_def mark_send_attempt_retryable_def intro: attempt_bytes)

lemma commit_job_bytes:
  "commit_transfer_job now opn (Some (jid, lease)) st = Inr (u, st') \<Longrightarrow> staged_bytes st' \<le> staged_bytes st"
  unfolding commit_transfer_job_def option.case prod.case
  by (erule jobs_update_one_bytes) (auto simp: shrink_simps complete_job_def)

lemma resolve_bytes:
  assumes "resolve_send_attempt now jid order att l e st = Inr (u, st')"
  shows "staged_bytes st' \<le> staged_bytes st"
proof -
  obtain P f where "st' = count_chunks now jid (case l of None \<Rightarrow> attempts_update P f st
      | Some loc \<Rightarrow> put_checkpoint jid order loc (attempts_update P f st))"
    using assms by (auto simp: resolve_send_attempt_def Let_def split: if_splits)
  thus ?thesis
    using count_chunks_bytes[of now jid "case l of None \<Rightarrow> attempts_update P f st
      | Some loc \<Rightarrow> put_checkpoint jid order loc (attempts_update P f st)"]
    by (simp split: option.splits)
qed

lemma reclassify_bytes: "staged_bytes (snd (reclassify_flood_wait_attempts now n st)) \<le> staged_bytes st"
  unfolding reclassify_flood_wait_attempts_def Let_def snd_conv
  by (rule order_trans[OF staged_bytes_jobs_update order_trans[OF staged_bytes_jobs_update]])
    (auto simp: shrink_simps)

lemma requeue_bytes:
  "staged_bytes (snd (queue_after_reconciliation now jid st)) \<le> staged_bytes st"
  "staged_bytes (snd (retry_transfer jid st)) \<le> staged_bytes st"
  "staged_bytes (mark_cleaned jid st) \<le> staged_bytes st"
  unfolding queue_after_reconciliation_def retry_transfer_def mark_cleaned_def Let_def snd_conv
  by (rule staged_bytes_jobs_update, auto simp: shrink_simps)+

lemma cancel_bytes: "staged_bytes (snd (cancel_transfer now jid st)) \<le> staged_bytes st"
proof (cases "find (cancellable jid) (transfer_jobs st)")
  case (Some job)
  define st1 where "st1 = (if map tc_location (filter (\<lambda>c. tc_job c = jid) (transfer_chunks st)) = [] then st
     else fold (\<lambda>l s. enqueue_target (tj_object_id job) (active_connection_id st) (loc_peer_id l)
                        (loc_message_id l) Message now s)
            (map tc_location (filter (\<lambda>c. tc_job c = jid) (transfer_chunks st)))
            (enqueue_target (tj_object_id job) (active_connection_id st) (evidence_peer (tj_object_id job)) 0
               Evidence now st))"
  have st1: "transfer_jobs st1 = transfer_jobs st"
      "snd (cancel_transfer now jid st) = jobs_update (cancellable jid)
         (\<lambda>j. j\<lparr> tj_state := TCancelled, tj_error := Some ''Cancelled; staged data queued for local discard'',
                 tj_lease := None, tj_lease_until := 0, tj_updated_at := now \<rparr>) st1"
    using Some by (simp_all add: st1_def cancel_transfer_def Let_def del: fold.simps)
  have "staged_bytes (snd (cancel_transfer now jid st)) \<le> staged_bytes st1"
    unfolding st1(2) by (rule staged_bytes_jobs_update) (auto simp: shrink_simps)
  thus ?thesis by (simp add: staged_bytes_cong[OF st1(1)])
qed (simp add: cancel_transfer_def)

lemma action_bytes: "staged_bytes (snd (transfer_action now jid act st)) \<le> staged_bytes st"
  by (simp add: transfer_action_def requeue_bytes cancel_bytes)

lemma purge_bytes: "staged_bytes (purge_connection_operations conn st) \<le> staged_bytes st"
proof -
  have "sum_where counted tj_bytes (delete_where P rows) \<le> sum_where counted tj_bytes rows" for P rows
    by (induction rows) (auto simp: delete_where_def intro: trans_le_add2)
  thus ?thesis by (simp add: staged_bytes_alt purge_connection_operations_def Let_def)
qed

definition within_budget :: "nat \<Rightarrow> store \<Rightarrow> bool" where
  "within_budget budget st \<longleftrightarrow> jobs_wf st \<and> (budget < u64_max \<longrightarrow> staged_bytes st \<le> budget)"

lemma reserve_within:
  assumes "reserve_staging now jid n budget st = Inr (u, st')" "budget < u64_max"
  shows "staged_bytes st' \<le> budget"
  using reserve_staging_exact[OF assms(1)] assms(2) by (auto simp: saturating_add_u64_def min_def split: if_splits)

lemma bytes_step:
  assumes "jobs_wf st" "transfer_step budget st st'" "budget < u64_max" "staged_bytes st \<le> budget"
  shows "staged_bytes st' \<le> budget"
  using assms(2)
proof (rule transfer_stepE)
  fix now jid n u assume "reserve_staging now jid n budget st = Inr (u, st')"
  thus ?thesis using assms(3) by (rule reserve_within)
next
  fix now lease assume "st' = snd (claim_transfer now lease st)"
  hence "staged_bytes st' \<le> staged_bytes st" using claim_bytes[OF assms(1)] by simp
  thus ?thesis using assms(4) by simp
next
  fix now jid b k i assume "begin_transfer now jid b k st = Inr (i, st')"
  from begin_transfer_bytes[OF this] show ?thesis using assms(4) by simp
next
  assume "transfer_jobs st' = transfer_jobs st"
  from staged_bytes_cong[OF this] show ?thesis using assms(4) by simp
qed (hypsubst?, rule order_trans[OF _ assms(4)], (rule reception_bytes report_bytes reclassify_bytes requeue_bytes
  action_bytes purge_bytes | erule admission_bytes commit_job_bytes resolve_bytes))+

interpretation transfers: invariant_system no_transfers "transfer_step budget" "within_budget budget"
proof
  show "within_budget budget s" if "no_transfers s" for s
    using that by (simp add: within_budget_def jobs_wf_def staged_bytes_def)
  show "within_budget budget s'" if "within_budget budget s" "transfer_step budget s s'" for s s'
    using that jobs_wf_step bytes_step by (auto simp: within_budget_def)
qed

section \<open>What a claim gives\<close>

text \<open>After the recovery statements no job that can be claimed has a newer committed write of its key.\<close>

lemma recover_not_superseded:
  assumes "c \<in> set (transfer_jobs (recover_transfers now st))" "claimable now (recover_transfers now st) c"
    "n \<in> set (transfer_jobs (recover_transfers now st))" "tj_bucket n = tj_bucket c" "tj_key n = tj_key c"
    "tj_sequence c < tj_sequence n"
  shows "tj_state n \<notin> {TCompleted, TCleaned}"
proof
  assume fin: "tj_state n \<in> {TCompleted, TCleaned}"
  define s where "s = cancel_closed_multipart (expire_attempts now (park_ambiguous now (expire_receptions now st)))"
  define P where "P = (\<lambda>j. tj_state j \<in> {TQueued, TRetryWait, TUploading, TCommitting, TRecoveryRequired} \<and> newer_committed s j)"
  define f :: "transfer_row \<Rightarrow> transfer_row" where "f = (\<lambda>j. j\<lparr> tj_state := TSuperseded, tj_lease := None, tj_lease_until := 0,
               tj_error := Some ''Superseded by a newer committed write'' \<rparr>)"
  have r: "transfer_jobs (recover_transfers now st) = update_where P f (transfer_jobs s)"
    by (simp add: recover_transfers_def supersede_older_def s_def P_def f_def)
  obtain c0 where c0: "c0 \<in> set (transfer_jobs s)" "c = (if P c0 then f c0 else c0)"
    using assms(1) unfolding r by (auto simp: mem_update_where)
  obtain n0 where n0: "n0 \<in> set (transfer_jobs s)" "n = (if P n0 then f n0 else n0)"
    using assms(3) unfolding r by (auto simp: mem_update_where)
  have "n = n0" using n0(2) fin by (auto simp: f_def split: if_splits)
  moreover have state: "tj_state c \<in> {TQueued, TRetryWait, TUploading, TCommitting}"
    using assms(2) by (auto simp: claimable_def sending_state_def)
  have c: "c = c0" "\<not> P c0" using c0(2) state by (auto simp: f_def split: if_splits)
  ultimately have "newer_committed s c" using n0(1) assms(4-6) fin by (auto simp: newer_committed_def)
  thus False using c state by (auto simp: P_def)
qed

text \<open>
  C4: A worker is only ever given a job it may publish.  Whatever happened to the queue before, a claim
  returns a job that was due or whose lease had run out, puts it under the new lease for 120 seconds, and at
  that moment the job has no send whose outcome is open, no older write of the same key is unfinished, and no
  newer write of the key has been committed.
\<close>

theorem claims_are_sound:
  assumes "transfer_reachable budget st" "claim_transfer now lease st = (Some j, st')"
  shows "j \<in> set (transfer_jobs st') \<and> tj_state j = TUploading \<and> tj_lease j = Some lease \<and> tj_lease_until j = now + 120 \<and>
    (\<exists>c \<in> set (transfer_jobs st). tj_id c = tj_id j \<and>
       ((tj_state c \<in> {TQueued, TRetryWait} \<and> tj_next_retry c \<le> now) \<or>
        (tj_state c \<in> {TUploading, TCommitting} \<and> tj_lease_until c < now))) \<and>
    \<not> (\<exists>a \<in> set (send_attempts st'). sa_job a = tj_id j \<and> sa_state a \<in> {Sending, Unknown}) \<and>
    \<not> (\<exists>x \<in> set (transfer_jobs st'). tj_bucket x = tj_bucket j \<and> tj_key x = tj_key j \<and>
          ((tj_sequence x < tj_sequence j \<and> \<not> terminal_state (tj_state x)) \<or>
           (tj_sequence j < tj_sequence x \<and> tj_state x \<in> {TCompleted, TCleaned})))"
proof -
  let ?st = "recover_transfers now st"
  have wf: "jobs_wf st" using transfers.reachable_inv[OF assms(1)] by (simp add: within_budget_def)
  obtain c where c: "c \<in> set (transfer_jobs ?st)" "claimable now ?st c" "j = claim_row now lease c"
      "st' = jobs_update (\<lambda>j. tj_id j = tj_id c) (claim_row now lease) ?st"
    using claim_transfer_Some[OF wf assms(2)] by blast
  obtain c0 where c0: "c0 \<in> set (transfer_jobs st)" "demoted c0 c" using recover_row[OF c(1)] by blast
  have c0c: "c = c0" using c(2) c0(2) by (auto simp: demoted_def claimable_def sending_state_def)
  have row: "j \<in> set (transfer_jobs st')" unfolding c(4) jobs_update_other using c(1,3) by (auto simp: mem_update_where)
  have same: "x = j \<or> x \<in> set (transfer_jobs ?st)" if x: "x \<in> set (transfer_jobs st')" for x
  proof -
    obtain y where y: "y \<in> set (transfer_jobs ?st)" "x = (if tj_id y = tj_id c then claim_row now lease y else y)"
      using x unfolding c(4) jobs_update_other by (auto simp: mem_update_where)
    have "tj_id y = tj_id c \<Longrightarrow> y = c"
      using jobs_wf_recover[OF wf] y(1) c(1) distinct_key_eq[of tj_id "transfer_jobs ?st" y c] by (auto simp: jobs_wf_def)
    thus ?thesis using y c(3) by auto
  qed
  have "\<not> (tj_sequence x < tj_sequence j \<and> \<not> terminal_state (tj_state x)) \<and>
      \<not> (tj_sequence j < tj_sequence x \<and> tj_state x \<in> {TCompleted, TCleaned})"
    if "x \<in> set (transfer_jobs st')" "tj_bucket x = tj_bucket j" "tj_key x = tj_key j" for x
    using same[OF that(1)]
  proof
    assume "x \<in> set (transfer_jobs ?st)"
    thus ?thesis using that(2,3) c(2,3) recover_not_superseded[OF c(1,2), of x]
      by (auto simp: claim_row_def claimable_def older_pending_def)
  qed simp
  moreover have "\<not> (\<exists>a \<in> set (send_attempts st'). sa_job a = tj_id j \<and> sa_state a \<in> {Sending, Unknown})"
    using c(2,3) unfolding c(4) by (auto simp: claimable_def unresolved_iff claim_row_def)
  moreover have "\<exists>x \<in> set (transfer_jobs st). tj_id x = tj_id j \<and>
       ((tj_state x \<in> {TQueued, TRetryWait} \<and> tj_next_retry x \<le> now) \<or>
        (tj_state x \<in> {TUploading, TCommitting} \<and> tj_lease_until x < now))"
    using c0(1) c(2,3) c0c by (intro bexI[of _ c0]) (auto simp: claimable_def claim_row_def sending_state_def)
  ultimately show ?thesis using row c(3) by (auto simp: claim_row_def)
qed


section \<open>A concrete queue\<close>

text \<open>Two uploads of one key, the second cancelled by the operator and cleaned.\<close>

definition two_uploads :: store where
  "two_uploads =
     (let s1 = keep bucket_store (begin_transfer 0 ''a'' ''b'' ''k'' bucket_store);
          s2 = keep s1 (reserve_staging 0 ''a'' 10 100 s1);
          s3 = keep s2 (queue_transfer 1 ''a'' ''op-a'' 1 s2);
          s4 = keep s3 (begin_transfer 1 ''c'' ''b'' ''k'' s3)
      in keep s4 (queue_transfer 1 ''c'' ''op-c'' 1 s4))"

lemma reachable_keep:
  assumes "transfer_reachable budget st" "\<And>v st'. r = Inr (v, st') \<Longrightarrow> transfer_step budget st st'"
  shows "transfer_reachable budget (keep st r)"
  by (rule keep_invariant[where Q = "transfer_reachable budget"]) (use assms in \<open>auto intro: reachable.move\<close>)

lemma two_uploads_reachable: "transfer_reachable 100 two_uploads"
proof -
  have "transfer_reachable 100 bucket_store"
    by (rule reachable.start) (simp add: bucket_store_def empty_store_def)
  thus ?thesis unfolding two_uploads_def Let_def
    by (intro reachable_keep) (auto intro: transfer_step.intros)
qed

theorem claims_are_sound_witness:
  "\<exists>j st'. claim_transfer 2 ''L'' two_uploads = (Some j, st') \<and> tj_id j = ''a'' \<and> tj_lease j = Some ''L'' \<and>
     tj_lease_until j = 122"
proof -
  have "map_option tj_id (fst (claim_transfer 2 ''L'' two_uploads)) = Some ''a''" by code_simp
  then obtain j st' where j: "claim_transfer 2 ''L'' two_uploads = (Some j, st')" "tj_id j = ''a''"
    by (cases "claim_transfer 2 ''L'' two_uploads") auto
  show ?thesis using claims_are_sound[OF two_uploads_reachable j(1)] j by auto
qed


text \<open>
  A newer upload that was cancelled and whose files were cleaned counts as a committed write: the older
  upload, which is waiting for its worker, is superseded instead of published, and no upload of the key is.
\<close>

lemma cancelled_upload_supersedes:
  "let s1 = mark_cleaned ''c'' (snd (transfer_action 2 ''c'' ''cancel'' two_uploads));
       (claimed, s2) = claim_transfer 3 ''L'' s1 in
   map tj_state (transfer_jobs s1) = [TQueued, TCleaned] \<and> claimed = None \<and>
   map tj_state (transfer_jobs s2) = [TSuperseded, TCleaned]"
  by code_simp

end
