(* ===== verification/Object_Map.thy ===== *)
theory Object_Map
  imports Index_Invariant
begin

text \<open>
  What the object index promises: a map from bucket and key to the object, that a commit updates at one
  key, a delete clears at one key, and everything else leaves alone.  The operations of \<open>Index\<close> on the
  tables \<open>object_manifests\<close>, \<open>active_objects\<close> and \<open>operation_journal\<close> refine it.  The rebuild of the
  index is not among them: it can bring back an overwritten version.
\<close>

section \<open>The abstract map\<close>


datatype object_op =
    Put string ObjectManifest
  | Remove string string
  | Retire string
  | Expire string instant
  | Amend ObjectManifest
  | Silent





section \<open>Steps of the index\<close>

text \<open>
  An uploaded object has a fresh identifier.  \<open>elsewhere\<close> is any change of the other tables.
\<close>

inductive index_step :: "object_op \<Rightarrow> store \<Rightarrow> store \<Rightarrow> bool" where
  stage: "stage_manifest ts kind m st = Inr (oid, st') \<Longrightarrow> manifest_row_of st (m_object_id m) = None \<Longrightarrow>
    index_step Silent st st'"
| commit: "commit_transfer_manifest parse_etag now ts op jid lease published st = Inr (m, st') \<Longrightarrow>
    manifest_row_of st (m_object_id m) = Some r \<Longrightarrow> index_step (Put (om_connection_id r) m) st st'"
| delete: "delete_active_key now ts b k reason if_match if_time if_size st = Inr (x, st') \<Longrightarrow>
    index_step (Remove b k) st st'"
| folder: "delete_empty_folder now ts b k reason st = Inr (x, st') \<Longrightarrow> index_step (Remove b k) st st'"
| tombstone: "tombstone_manifest_with_conditionals now ts oid reason if_match if_time if_size st = Inr (m, st') \<Longrightarrow>
    index_step (Retire oid) st st'"
| expire: "index_step (Expire (active_connection_id st) at) st (snd (tombstone_expired_active_manifests at now ts st))"
| amend: "manifest_row_of st (m_object_id m) = Some r \<Longrightarrow> m_bucket m = om_bucket r \<Longrightarrow> m_key m = om_key r \<Longrightarrow>
    commit_state m = om_commit_state r \<Longrightarrow> index_step (Amend m) st (snd (update_manifest m st))"
| state: "update_manifest_state ts oid cs st = Inr (m, st') \<Longrightarrow> manifest_row_of st oid = Some r \<Longrightarrow>
    index_step (if cs = Committed then Put (om_connection_id r) m else Retire oid) st st'"
| discard: "index_step Silent st (discard_staging_metadata oid st)"
| elsewhere: "object_manifests st' = object_manifests st \<Longrightarrow> active_objects st' = active_objects st \<Longrightarrow>
    operation_journal st' = operation_journal st \<Longrightarrow> index_step Silent st st'"

inductive_cases index_stepE: "index_step l st st'"



section \<open>Reading the map\<close>





section \<open>Publishing\<close>


section \<open>Taking an object out\<close>





lemma tombstone_journal_same [simp]:
  "map oj_details (tombstone_journal ts oid reason rows) = map oj_details rows"
  "map oj_operation_id (tombstone_journal ts oid reason rows) = map oj_operation_id rows"
  by (simp_all add: tombstone_journal_def map_update_where_same)








subsection \<open>Expiry\<close>










section \<open>The other operations\<close>













section \<open>The refinement\<close>










end
