(* ===== verification/Spec2Isabelle.thy ===== *)
theory Spec2Isabelle
  imports S3_Surface Admin_Sessions Transfer_System Object_Map
begin

text \<open>
  A verification development for an S3-compatible object store that keeps its payload in
  Telegram messages and its state in a SQLite database (the Rust crate under \<open>src/src\<close>).

  \<^bold>\<open>The program.\<close>  An S3 request (\<open>s3_server.rs\<close>) stores a body: the body is cut into
  chunks, each chunk is sealed and written to a staging directory, a manifest describes them,
  and a transfer job is queued (\<open>object_format/workflow.rs\<close>, \<open>object_format/reception.rs\<close>,
  \<open>durable.rs\<close>).  A worker claims the job under a lease, sends every chunk and the manifest
  to the storage chat with a recorded send attempt around each upload, and commits: the
  manifest becomes the object of its key (\<open>metadata/manifests.rs\<close>).  A read looks the key up,
  plans the spans of the chunks it needs, downloads, opens and checks them
  (\<open>object_format.rs\<close>).  Deletes, overwritten multipart parts and aborts write the messages
  that are no longer needed into an outbox, and the cleanup worker deletes them later.
  Operators log in to the admin interface with a password and a signed cookie (\<open>auth.rs\<close>,
  \<open>admin.rs\<close>).

  \<^bold>\<open>Conventions.\<close>  A table is the list of its rows (theory \<open>Store\<close>), in insertion order; a
  transaction is a function from the database to an error or a result with the new database,
  and an error has no new database because it is rolled back.  An operation of several
  transactions returns the database in either case.  A \<open>u64\<close> or \<open>u32\<close> is a natural number,
  an \<open>i64\<close> an integer, and every place where the code checks, saturates or wraps is written
  out (theory \<open>Prelude\<close>).  Text is a list of characters, each a Unicode scalar below 256.
  Clock readings, fresh identifiers, the cipher and the digest, the JSON, base64 and HMAC
  libraries, Argon2, the file system's answers and the Telegram transport are arguments; the
  laws of them that a property needs are its hypotheses, and its witness instantiates them.

  \<^bold>\<open>Theories.\<close>
  \<^item> \<open>Prelude\<close>: scalars, text, results, and the SQL statements on lists of rows.
    \<open>Leases\<close>: the interfaces \<open>invariant_system\<close> (a state machine with an invariant),
    \<open>lease_table\<close> and \<open>fenced_table\<close> (rows claimed under a lease, reports that only the holder
    can make).  They are interpreted on the outbox (\<open>Cleanup\<close>), on the transfer queue
    (\<open>Transfers\<close>, \<open>Transfer_System\<close>) and on the accounts (\<open>Operators\<close>).
  \<^item> \<open>Manifest\<close> (\<open>manifest.rs\<close>): the manifest and its validation; a valid manifest partitions
    its content.  \<open>Errors\<close>, \<open>Display\<close>: the error enumerations and their texts.  \<open>Store\<close>: the
    tables of \<open>metadata/schema.rs\<close>.
  \<^item> \<open>Retry\<close> (\<open>telegram/retry.rs\<close> and the read loops): the loops return, except that a read
    under a permanent flood wait does not.
  \<^item> \<open>Cleanup\<close> (\<open>durable.rs\<close>): the outbox; a message is deleted only after the evidence of its
    object is recorded, and a claim excludes every other holder.
  \<^item> \<open>Transfers\<close>, \<open>Transfer_System\<close> (\<open>durable.rs\<close>): admission, claims, send attempts,
    reconciliation and operator actions; what a claim guarantees, and the bound on staged bytes.
  \<^item> \<open>Index\<close>, \<open>Index_Invariant\<close>, \<open>Object_Map\<close> (\<open>metadata/manifests.rs\<close>, \<open>recovery.rs\<close>,
    \<open>accounts.rs\<close>, the delete operations of \<open>metadata/auth.rs\<close>): staging, commit, tombstones,
    expiry, rebuild and verification.  \<open>Object_Map\<close> gives the abstract specification, a map
    from bucket and key to the object, and proves that every sequence of operations refines it.
  \<^item> \<open>Encoding\<close>, \<open>Multipart\<close> (\<open>metadata/multipart.rs\<close>, \<open>multipart.rs\<close>, \<open>durable.rs\<close>): sessions,
    parts, completion and abort, and the composite checksum.
  \<^item> \<open>Buckets\<close>, \<open>S3_Listing\<close>, \<open>S3_Surface\<close> (\<open>metadata/buckets.rs\<close>, \<open>s3_server.rs\<close>): buckets,
    paged listings, ranges, conditional requests, and the object requests.
  \<^item> \<open>Chunking\<close>, \<open>Staging\<close>, \<open>Reception\<close>, \<open>Publish\<close>, \<open>End_To_End\<close> (\<open>object_format.rs\<close>,
    \<open>object_format/workflow.rs\<close>, \<open>object_format/reception.rs\<close>): the path of a body from the
    request to the chat and back; what is stored is what is read.
  \<^item> \<open>Workers\<close> (\<open>object_format/workflow.rs\<close>): reconciliation of sends with an unknown outcome,
    the outcome of a claimed job, waiting for a transfer, and the processing of a cleanup target.
  \<^item> \<open>Operators\<close>, \<open>Admin_Sessions\<close> (\<open>auth.rs\<close>, \<open>metadata/auth.rs\<close>, \<open>admin.rs\<close>,
    \<open>admin/phase10.rs\<close>): accounts and sessions, the login limiter, the signed cookie, and the
    login, setup and account requests.

  \<^bold>\<open>Loops and fuel.\<close>  Loops over data are structural recursion or have a termination proof.
  The read retry loops and the cutting of a body may run forever and are partial functions
  into \<open>option\<close>; that they return is proved where it holds.  Only the client
  that walks the pages of a listing has fuel, one unit per request: more units than the listing
  has entries are enough, and the property says so.

  \<^bold>\<open>Not modelled.\<close>  The migrations of \<open>metadata/schema.rs\<close> and the connection pool
  (\<open>metadata/pool.rs\<close>) are SQL and driver code around the tables that are modelled.  Process
  start, the command line (\<open>main.rs\<close>), HTTP routing, static files and the JSON views of
  \<open>admin.rs\<close> are input and output.  \<open>telegram/transport.rs\<close>, \<open>session.rs\<close>, \<open>proxy.rs\<close> and
  \<open>login_driver.rs\<close> drive the Telegram client library and sockets; what the store relies on of
  them is a parameter.  Of \<open>object_format.rs\<close> the streaming read window, the replication,
  rechunk and recovery workers and the mock transport are left out: they run concurrent tasks
  over the same database operations, and their scheduling is not part of this model.
  Connection removal, shares, settings and configuration are not modelled.  Concurrency is
  modelled as interleaving of transactions, never inside one: SQLite serialises them.
\<close>

end
